(* ===== verification/Restart.thy ===== *)
theory Restart
  imports Prelude
begin

text \<open>
  The restart policy of \<open>src/src/orchestrator/restart.rs\<close>: exponential backoff and crash-loop
  detection, as pure functions of a per-runner state and an injected clock. The locale
  \<open>backoff_ladder\<close> states what every ladder of the program promises (doubling from a base, capped);
  this theory interprets it on \<open>backoff_delay\<close>, the self-heal theory on the watchdog's floor.
\<close>

section \<open>Parameters, state, status\<close>

record BackoffParams =
  base_secs :: u64
  cap_secs :: u64
  stable_secs :: u64
  crashloop_threshold :: u32

definition default_BackoffParams :: BackoffParams where
  "default_BackoffParams =
     \<lparr>base_secs = 10, cap_secs = 300, stable_secs = 60, crashloop_threshold = 5\<rparr>"

record RestartState =
  consecutive_failures :: u32
  last_exit_at :: u64
  next_retry_at :: u64
  last_healthy_at :: u64

definition default_RestartState :: RestartState where
  "default_RestartState =
     \<lparr>consecutive_failures = 0, last_exit_at = 0, next_retry_at = 0, last_healthy_at = 0\<rparr>"

datatype RestartStatus = StRunning | StBackoff | StCrashLoop

text \<open>The statuses are ordered by severity.\<close>

fun severity :: "RestartStatus \<Rightarrow> nat" where
  "severity StRunning = 0"
| "severity StBackoff = 1"
| "severity StCrashLoop = 2"

lemma severity_inject: "severity a = severity b \<Longrightarrow> a = b"
  by (cases a; cases b) auto

instantiation RestartStatus :: linorder
begin
definition less_eq_RestartStatus :: "RestartStatus \<Rightarrow> RestartStatus \<Rightarrow> bool" where
  "less_eq_RestartStatus a b \<longleftrightarrow> severity a \<le> severity b"
definition less_RestartStatus :: "RestartStatus \<Rightarrow> RestartStatus \<Rightarrow> bool" where
  "less_RestartStatus a b \<longleftrightarrow> severity a < severity b"
instance
  by standard (auto simp: less_eq_RestartStatus_def less_RestartStatus_def severity_inject)
end

section \<open>The pure functions\<close>

text \<open>The doubling loop: \<open>n\<close> iterations left, stop on overflow or once the cap is reached.\<close>

fun backoff_loop :: "nat \<Rightarrow> u64 \<Rightarrow> u64 \<Rightarrow> u64" where
  "backoff_loop 0 cap delay = delay"
| "backoff_loop (Suc n) cap delay =
     (case checked_mul delay 2 of
        None \<Rightarrow> word_max
      | Some v \<Rightarrow> if cap \<le> v then v else backoff_loop n cap v)"

definition backoff_delay :: "u32 \<Rightarrow> BackoffParams \<Rightarrow> u64" where
  "backoff_delay failures p =
     (if failures = 0 then 0
      else min (backoff_loop (unat (failures - 1)) (cap_secs p) (base_secs p)) (cap_secs p))"

definition on_exit :: "RestartState \<Rightarrow> BackoffParams \<Rightarrow> u64 \<Rightarrow> RestartState" where
  "on_exit state p now =
     (let new_failures = sat_add (consecutive_failures state) 1;
          delay = backoff_delay new_failures p
      in \<lparr>consecutive_failures = new_failures, last_exit_at = now,
          next_retry_at = sat_add now delay, last_healthy_at = last_healthy_at state\<rparr>)"

definition on_healthy :: "RestartState \<Rightarrow> BackoffParams \<Rightarrow> u64 \<Rightarrow> RestartState" where
  "on_healthy state p now =
     (let never_exited = (last_exit_at state = 0);
          stable = (stable_secs p \<le> sat_sub now (last_exit_at state))
      in if never_exited \<or> stable
         then default_RestartState\<lparr>last_healthy_at := now\<rparr>
         else state\<lparr>last_healthy_at := now\<rparr>)"

definition should_respawn :: "RestartState \<Rightarrow> u64 \<Rightarrow> bool" where
  "should_respawn state now \<longleftrightarrow> next_retry_at state \<le> now"

definition status :: "RestartState \<Rightarrow> BackoffParams \<Rightarrow> u64 \<Rightarrow> RestartStatus" where
  "status state p now =
     (if consecutive_failures state = 0 then StRunning
      else if crashloop_threshold p \<le> consecutive_failures state then StCrashLoop
      else StBackoff)"

definition reset :: "RestartState \<Rightarrow> RestartState" where
  "reset state = default_RestartState"

section \<open>What a backoff ladder promises\<close>

locale backoff_ladder =
  fixes delay :: "u32 \<Rightarrow> nat"
    and base cap :: nat
  assumes ladder: "delay f = (if f = 0 then 0 else min (base * 2 ^ (unat f - 1)) cap)"
begin

lemma delay_zero: "delay 0 = 0"
  by (simp add: ladder)

lemma delay_le_cap: "delay f \<le> cap"
  by (simp add: ladder)

lemma delay_first: "delay 1 = min base cap"
  by (simp add: ladder)

lemma delay_pos: "0 < base \<Longrightarrow> 0 < cap \<Longrightarrow> 0 < delay f \<longleftrightarrow> f \<noteq> 0"
  by (simp add: ladder)

lemma delay_mono:
  assumes "f \<le> g"
  shows "delay f \<le> delay g"
proof (cases "f = 0")
  case True
  then show ?thesis by (simp add: ladder)
next
  case False
  with assms have "g \<noteq> 0" by auto
  have "unat f - 1 \<le> unat g - 1"
    using assms by (simp add: word_le_nat_alt diff_le_mono)
  then have "base * 2 ^ (unat f - 1) \<le> base * 2 ^ (unat g - 1)"
    by (intro mult_le_mono2 power_increasing) auto
  then have "min (base * 2 ^ (unat f - 1)) cap \<le> min (base * 2 ^ (unat g - 1)) cap"
    by (rule min.mono) simp
  with False \<open>g \<noteq> 0\<close> show ?thesis by (simp add: ladder)
qed

lemma delay_double:
  assumes "f \<noteq> 0" and "unat f < 2 ^ 32 - 1"
  shows "delay (f + 1) = min (2 * delay f) cap"
proof -
  have u: "unat (f + 1) = Suc (unat f)"
    using assms(2) by (simp add: unat_word_ariths)
  then have "f + 1 \<noteq> 0" by auto
  moreover have "unat f = Suc (unat f - 1)"
    using assms(1) by (simp add: unat_gt_0)
  then have "(2::nat) ^ unat f = 2 * 2 ^ (unat f - 1)"
    by (metis power_Suc)
  ultimately show ?thesis
    using assms(1) u by (auto simp: ladder min_def)
qed

lemma total_wait_bound: "(\<Sum>f\<leftarrow>fs. delay f) \<le> length fs * cap"
  by (induction fs) (auto intro: add_mono delay_le_cap)

end

section \<open>The doubling loop computes the ladder\<close>

lemma backoff_loop_capped:
  "min (unat (backoff_loop n cap d)) (unat cap) = min (unat d * 2 ^ n) (unat cap)"
proof (induction n arbitrary: d)
  case 0
  then show ?case by simp
next
  case (Suc n)
  have grow: "unat d * 2 \<le> unat d * 2 ^ Suc n"
    by (simp add: mult_le_mono)
  show ?case
  proof (cases "checked_mul d 2")
    case None
    then have "2 ^ 64 \<le> unat d * 2"
      by (auto dest: checked_mul_None)
    moreover have "unat cap \<le> 2 ^ 64 - 1"
      using unat_le_max [of cap] by simp
    ultimately have "unat cap \<le> unat d * 2 ^ Suc n"
      using grow by linarith
    moreover have "unat cap \<le> unat (word_max :: u64)"
      using unat_le_max [of cap] by (simp add: wordnat)
    ultimately show ?thesis using None by (simp add: min_absorb2)
  next
    case (Some v)
    then have v: "unat v = unat d * 2" by (auto dest: checked_mul_Some)
    show ?thesis
    proof (cases "cap \<le> v")
      case True
      then have "unat cap \<le> unat v" by (simp add: word_le_nat_alt)
      with v grow have "unat cap \<le> unat d * 2 ^ Suc n" by linarith
      with True Some \<open>unat cap \<le> unat v\<close> show ?thesis by (simp add: min_absorb2)
    next
      case False
      have "min (unat (backoff_loop n cap v)) (unat cap) = min (unat v * 2 ^ n) (unat cap)"
        by (rule Suc.IH)
      with False Some v show ?thesis by (simp add: mult.assoc)
    qed
  qed
qed

lemma backoff_delay_ladder:
  "unat (backoff_delay f p) =
     (if f = 0 then 0 else min (unat (base_secs p) * 2 ^ (unat f - 1)) (unat (cap_secs p)))"
proof (cases "f = 0")
  case False
  then have "unat (f - 1) = unat f - 1"
    by (simp add: unat_minus_one)
  with False show ?thesis
    by (simp add: backoff_delay_def wordnat backoff_loop_capped)
qed (simp add: backoff_delay_def)

interpretation restart: backoff_ladder
  "\<lambda>f. unat (backoff_delay f p)" "unat (base_secs p)" "unat (cap_secs p)" for p
  by unfold_locales (rule backoff_delay_ladder)

section \<open>Exits and healthy observations\<close>

lemma on_exit_simps [simp]:
  "consecutive_failures (on_exit s p now) = sat_add (consecutive_failures s) 1"
  "last_exit_at (on_exit s p now) = now"
  "next_retry_at (on_exit s p now) = sat_add now (backoff_delay (sat_add (consecutive_failures s) 1) p)"
  "last_healthy_at (on_exit s p now) = last_healthy_at s"
  by (simp_all add: on_exit_def Let_def)

lemma on_exit_failures_nonzero: "consecutive_failures (on_exit s p now) \<noteq> 0"
proof -
  have "unat (consecutive_failures (on_exit s p now)) \<noteq> 0" by (simp add: wordnat)
  then show ?thesis by (metis unat_0)
qed

lemma on_healthy_last_healthy [simp]: "last_healthy_at (on_healthy s p now) = now"
  by (simp add: on_healthy_def Let_def)

lemma on_healthy_failures_le:
  "consecutive_failures (on_healthy s p now) \<le> consecutive_failures s"
  by (simp add: on_healthy_def Let_def default_RestartState_def)

text \<open>The state after an exit followed by further exits, each as soon as the retry window opens:
  how fast a runner that dies at once can be respawned.\<close>

fun exit_ladder :: "nat \<Rightarrow> BackoffParams \<Rightarrow> u64 \<Rightarrow> RestartState" where
  "exit_ladder 0 p now = on_exit default_RestartState p now"
| "exit_ladder (Suc n) p now =
     (let s = exit_ladder n p now in on_exit s p (next_retry_at s))"

lemma exit_ladder_failures:
  "unat (consecutive_failures (exit_ladder n p now)) = min (Suc n) (2 ^ 32 - 1)"
  by (induction n) (auto simp: Let_def wordnat default_RestartState_def min_def)

lemma exit_ladder_time:
  assumes "Suc n < 2 ^ 32"
    and "unat now + (\<Sum>i = 1..Suc n. unat (backoff_delay (of_nat i) p)) < 2 ^ 64"
  shows "unat (last_exit_at (exit_ladder n p now)) =
           unat now + (\<Sum>i = 1..n. unat (backoff_delay (of_nat i) p)) \<and>
         unat (next_retry_at (exit_ladder n p now)) =
           unat now + (\<Sum>i = 1..Suc n. unat (backoff_delay (of_nat i) p))"
  using assms
proof (induction n)
  case 0
  have "sat_add (consecutive_failures default_RestartState) (1 :: u32) = 1"
    by (simp add: default_RestartState_def sat_add_def)
  with "0.prems" show ?case by (simp add: wordnat)
next
  case (Suc n)
  have "unat (sat_add (consecutive_failures (exit_ladder n p now)) 1) = Suc (Suc n)"
    using Suc.prems(1) by (simp add: wordnat exit_ladder_failures)
  then have f: "sat_add (consecutive_failures (exit_ladder n p now)) 1 = of_nat (Suc (Suc n))"
    by (metis of_nat_unat ucast_id)
  have "unat (next_retry_at (exit_ladder n p now)) =
          unat now + (\<Sum>i = 1..Suc n. unat (backoff_delay (of_nat i) p))"
    using Suc by auto
  with Suc.prems(2) show ?case
    by (simp add: Let_def wordnat f del: of_nat_Suc)
qed

section \<open>Properties\<close>

text \<open>The overflow-checked doubling loop of \<open>backoff_delay\<close> computes
  \<open>min (base * 2^(failures - 1)) cap\<close> over the unbounded naturals, for every failure count of a u32
  and every parameter set: neither the early exit at the cap nor the overflow branch changes it.\<close>

theorem backoff_delay_closed_form:
  "unat (backoff_delay f p) =
     (if f = 0 then 0 else min (unat (base_secs p) * 2 ^ (unat f - 1)) (unat (cap_secs p)))"
  by (rule backoff_delay_ladder)

text \<open>Under the default parameters, a runner that dies again the moment each retry window opens
  is charged its tenth consecutive failure (the park threshold of the monitor) exactly 1510 seconds
  after the first one; with any clock at which those seconds do not overflow.\<close>

theorem park_takes_1510_seconds:
  assumes "unat now + 1810 < 2 ^ 64"
  shows "unat (consecutive_failures (exit_ladder 9 default_BackoffParams now)) = 10 \<and>
         unat (last_exit_at (exit_ladder 9 default_BackoffParams now)) = unat now + 1510 \<and>
         unat (next_retry_at (exit_ladder 9 default_BackoffParams now)) = unat now + 1810"
proof -
  have nine: "(\<Sum>i = 1..9. unat (backoff_delay (of_nat i) default_BackoffParams)) = 1510"
    by (simp add: backoff_delay_ladder default_BackoffParams_def atLeastAtMost_upt upt_rec)
  have ten: "(\<Sum>i = 1..Suc 9. unat (backoff_delay (of_nat i) default_BackoffParams)) = 1810"
    by (simp add: backoff_delay_ladder default_BackoffParams_def atLeastAtMost_upt upt_rec)
  with nine ten assms show ?thesis
    using exit_ladder_time [of 9 now default_BackoffParams]
    by (simp add: exit_ladder_failures)
qed

theorem park_takes_1510_seconds_witness:
  "unat (1000 :: u64) + 1810 < 2 ^ 64 \<and>
   unat (last_exit_at (exit_ladder 9 default_BackoffParams 1000)) = 2510"
proof -
  have h: "unat (1000 :: u64) + 1810 < 2 ^ 64" by simp
  show ?thesis using h park_takes_1510_seconds [OF h] by simp
qed

text \<open>The coarse status is monotone in the failure count: another exit never lowers the
  severity, a healthy observation never raises it, and an exit is never reported as running.\<close>

theorem status_monotone:
  "status s p t \<le> status (on_exit s p now) p t \<and>
   status (on_healthy s p now) p t \<le> status s p t \<and>
   status (on_exit s p now) p t \<noteq> StRunning"
proof (intro conjI)
  have "consecutive_failures s \<le> consecutive_failures (on_exit s p now)"
    by (simp add: sat_add_mono)
  then show "status s p t \<le> status (on_exit s p now) p t"
    using on_exit_failures_nonzero [of s p now]
    by (auto simp: status_def less_eq_RestartStatus_def simp del: on_exit_simps)
  show "status (on_exit s p now) p t \<noteq> StRunning"
    using on_exit_failures_nonzero [of s p now] by (simp add: status_def del: on_exit_simps)
  have "consecutive_failures (on_healthy s p now) \<le> consecutive_failures s"
    by (rule on_healthy_failures_le)
  then show "status (on_healthy s p now) p t \<le> status s p t"
    by (auto simp: status_def less_eq_RestartStatus_def word_le_nat_alt unat_eq_zero)
qed

end
