(* ===== verification/Handle.thy ===== *)
theory Handle
  imports Restart "HOL-Library.Mapping" "HOL-Library.AList"
begin

text \<open>
  The on-disk runner records of \<open>src/src/orchestrator/handle.rs\<close>. A runner directory is the list of
  its entries in the order \<open>read_dir\<close> yields them; the text of a record file is kept as what
  \<open>serde_json\<close> reads from it. The locale \<open>record_store\<close> is the interface the monitor and the
  lifecycle operations rely on (read your own write, other keys untouched); it is interpreted on the
  directory model at the end of the theory.
\<close>

section \<open>The record\<close>

record RunnerHandle =
  uuid :: string
  pid :: u32
  control_sock :: string
  app_ula :: string
  parent :: "string option"
  spawned_at :: u64
  restart :: RestartState
  image_ref :: "string option"
  requested_runtime :: "string option"
  network :: "string option"
  runner_join_token :: "string option"
  manifest_toml :: "string option"
  extra_env :: "(string, string) mapping option"
  egress_allow :: "string list option"
  crash_looped :: bool
  stopped :: bool
  wg_listen_port :: "u16 option"

section \<open>The runner directory\<close>

text \<open>What a file of the directory holds: the JSON of a handle, a text that does not parse as one,
  or something that cannot be read.\<close>

datatype file_text = Record RunnerHandle | Garbage | Unreadable

record rundir =
  present :: bool
  listable :: bool
  files :: "(string \<times> file_text) list"

datatype io_error = InvalidData | ReadError | ListError | SaveError

text \<open>\<open>record_path\<close>, as the name of the entry inside the directory.\<close>

definition record_path :: "string \<Rightarrow> string" where
  "record_path u = u @ ''.json''"

text \<open>\<open>Path::extension\<close>: the part after the last dot, none when there is no dot or only a
  leading one.\<close>

definition extension :: "string \<Rightarrow> string option" where
  "extension name =
     (case split_once CHR ''.'' (rev name) of
        None \<Rightarrow> None
      | Some (e, stem) \<Rightarrow> if stem = [] then None else Some (rev e))"

text \<open>How a \<open>save\<close> ends: the temporary file is written, synced and renamed and the directory is
  synced; or an error before the rename; or the rename done and the sync of the directory failing.\<close>

datatype save_io = SaveOk | SaveErrBeforeRename | SaveErrAfterRename

definition put_file :: "RunnerHandle \<Rightarrow> rundir \<Rightarrow> rundir" where
  "put_file h d = d\<lparr>files := AList.update (record_path (uuid h)) (Record h) (files d)\<rparr>"

definition save :: "save_io \<Rightarrow> RunnerHandle \<Rightarrow> rundir \<Rightarrow> (io_error + unit) \<times> rundir" where
  "save io h d =
     (if \<not> present d then (Inl SaveError, d)
      else case io of
        SaveOk \<Rightarrow> (Inr (), put_file h d)
      | SaveErrBeforeRename \<Rightarrow> (Inl SaveError, d)
      | SaveErrAfterRename \<Rightarrow> (Inl SaveError, put_file h d))"

definition load :: "rundir \<Rightarrow> string \<Rightarrow> io_error + RunnerHandle option" where
  "load d u =
     (if \<not> present d then Inr None
      else case map_of (files d) (record_path u) of
        None \<Rightarrow> Inr None
      | Some (Record h) \<Rightarrow> Inr (Some h)
      | Some Garbage \<Rightarrow> Inl InvalidData
      | Some Unreadable \<Rightarrow> Inl ReadError)"

fun list_files :: "(string \<times> file_text) list \<Rightarrow> RunnerHandle list" where
  "list_files [] = []"
| "list_files ((name, text) # rest) =
     (if extension name \<noteq> Some ''json'' then list_files rest
      else case text of
        Record h \<Rightarrow> h # list_files rest
      | Garbage \<Rightarrow> list_files rest
      | Unreadable \<Rightarrow> list_files rest)"

definition list_records :: "rundir \<Rightarrow> io_error + RunnerHandle list" where
  "list_records d =
     (if \<not> present d then Inr []
      else if \<not> listable d then Inl ListError
      else Inr (list_files (files d)))"

text \<open>\<open>forget_record\<close> of the orchestrator's API: removing a missing file is success.\<close>

definition forget_record :: "string \<Rightarrow> bool \<Rightarrow> rundir \<Rightarrow> (io_error + unit) \<times> rundir" where
  "forget_record u io_ok d =
     (if map_of (files d) (record_path u) = None then (Inr (), d)
      else if io_ok then (Inr (), d\<lparr>files := AList.delete (record_path u) (files d)\<rparr>)
      else (Inl SaveError, d))"

section \<open>The interface of a record store\<close>

locale record_store =
  fixes get :: "'d \<Rightarrow> 'k \<Rightarrow> 'e + 'r option"
    and put :: "'r \<Rightarrow> 'd \<Rightarrow> 'd"
    and del :: "'k \<Rightarrow> 'd \<Rightarrow> 'd"
    and key :: "'r \<Rightarrow> 'k"
    and usable :: "'d \<Rightarrow> bool"
  assumes get_put: "usable d \<Longrightarrow> get (put r d) k = (if k = key r then Inr (Some r) else get d k)"
    and get_del: "usable d \<Longrightarrow> get (del k' d) k = (if k = k' then Inr None else get d k)"
    and usable_put: "usable d \<Longrightarrow> usable (put r d)"
    and usable_del: "usable d \<Longrightarrow> usable (del k d)"
begin

lemma get_put_same [simp]: "usable d \<Longrightarrow> get (put r d) (key r) = Inr (Some r)"
  by (simp add: get_put)

lemma get_put_other: "usable d \<Longrightarrow> k \<noteq> key r \<Longrightarrow> get (put r d) k = get d k"
  by (simp add: get_put)

lemma last_put_wins:
  "usable d \<Longrightarrow> key r = key r' \<Longrightarrow> get (put r' (put r d)) k = get (put r' d) k"
  by (simp add: get_put usable_put)

lemma put_commute:
  "usable d \<Longrightarrow> key r \<noteq> key r' \<Longrightarrow> get (put r' (put r d)) k = get (put r (put r' d)) k"
  by (simp add: get_put usable_put)

lemma usable_fold_put: "usable d \<Longrightarrow> usable (fold put rs d)"
  by (induction rs arbitrary: d) (auto simp: usable_put)

text \<open>After any number of writes a key reads the last record written under it, else what it read
  before.\<close>

lemma get_fold_put:
  "usable d \<Longrightarrow> get (fold put rs d) k =
     (case List.find (\<lambda>r. key r = k) (rev rs) of Some r \<Rightarrow> Inr (Some r) | None \<Rightarrow> get d k)"
proof (induction rs rule: rev_induct)
  case Nil
  then show ?case by simp
next
  case (snoc r rs)
  then show ?case by (auto simp: get_put usable_fold_put)
qed

lemma del_put_same: "usable d \<Longrightarrow> get (del (key r) (put r d)) (key r) = Inr None"
  by (simp add: get_del usable_put)

end

section \<open>The directory is a record store\<close>

lemma record_path_inject [simp]: "record_path u = record_path v \<longleftrightarrow> u = v"
  by (simp add: record_path_def)

lemma extension_record_path: "u \<noteq> [] \<Longrightarrow> extension (record_path u) = Some ''json''"
  by (simp add: extension_def record_path_def)

definition del_file :: "string \<Rightarrow> rundir \<Rightarrow> rundir" where
  "del_file u d = d\<lparr>files := AList.delete (record_path u) (files d)\<rparr>"

interpretation store: record_store load put_file del_file uuid present
proof
  fix d :: rundir and r :: RunnerHandle and k k' :: string
  assume "present d"
  then show "load (put_file r d) k = (if k = uuid r then Inr (Some r) else load d k)"
    by (auto simp: load_def put_file_def update_conv')
  from \<open>present d\<close> show "load (del_file k' d) k = (if k = k' then Inr None else load d k)"
    by (auto simp: load_def del_file_def delete_conv')
qed (auto simp: put_file_def del_file_def)

lemma save_result:
  "save io h d =
     (if present d \<and> io = SaveOk then (Inr (), put_file h d)
      else (Inl SaveError, if present d \<and> io = SaveErrAfterRename then put_file h d else d))"
  by (cases io) (auto simp: save_def)

lemma present_save [simp]: "present (snd (save io h d)) = present d"
  by (auto simp: save_result put_file_def)

lemma load_save_other [simp]: "u \<noteq> uuid h \<Longrightarrow> load (snd (save io h d)) u = load d u"
  by (auto simp: save_result store.get_put_other)

lemma load_save_ok: "fst (save io h d) = Inr () \<Longrightarrow> load (snd (save io h d)) (uuid h) = Inr (Some h)"
  by (auto simp: save_result split: if_splits)

lemma forget_record_load:
  "present d \<Longrightarrow> fst (forget_record u io d) = Inr () \<Longrightarrow> load (snd (forget_record u io d)) u = Inr None"
  by (auto simp: forget_record_def load_def delete_conv' split: if_splits)

lemma forget_record_other:
  "v \<noteq> u \<Longrightarrow> load (snd (forget_record u io d)) v = load d v"
  by (auto simp: forget_record_def load_def delete_conv' split: if_splits)

lemma list_files_set:
  "set (list_files fs) = {h. \<exists>name. (name, Record h) \<in> set fs \<and> extension name = Some ''json''}"
  by (induction fs rule: list_files.induct) (auto split: file_text.splits)

section \<open>Well-formed directories\<close>

text \<open>Every record sits under its own name, once: what \<open>save\<close> establishes and keeps.\<close>

definition wf_dir :: "rundir \<Rightarrow> bool" where
  "wf_dir d \<longleftrightarrow> distinct (map fst (files d)) \<and>
     (\<forall>name h. (name, Record h) \<in> set (files d) \<longrightarrow> name = record_path (uuid h) \<and> uuid h \<noteq> [])"

lemma set_update_distinct:
  "distinct (map fst xs) \<Longrightarrow> set (AList.update k v xs) = insert (k, v) {p \<in> set xs. fst p \<noteq> k}"
proof (induction xs)
  case (Cons x xs)
  then have "fst x \<notin> fst ` set xs" by simp
  then have "fst p \<noteq> fst x" if "p \<in> set xs" for p
    using that by (metis image_eqI)
  with Cons show ?case by (cases x) auto
qed simp

lemma wf_dir_distinct: "wf_dir d \<Longrightarrow> distinct (map fst (files d))"
  by (simp add: wf_dir_def)

lemma wf_put_file: "wf_dir d \<Longrightarrow> uuid h \<noteq> [] \<Longrightarrow> wf_dir (put_file h d)"
  by (auto simp: wf_dir_def put_file_def distinct_update set_update_distinct wf_dir_distinct)

lemma wf_del_file: "wf_dir d \<Longrightarrow> wf_dir (del_file u d)"
proof -
  assume wf: "wf_dir d"
  have "set (AList.delete (record_path u) (files d)) \<subseteq> set (files d)"
    by (auto simp: AList.delete_eq)
  moreover have "distinct (map fst (AList.delete (record_path u) (files d)))"
    by (rule distinct_delete [OF wf_dir_distinct [OF wf]])
  ultimately show ?thesis using wf by (auto simp: wf_dir_def del_file_def)
qed

lemma wf_save: "wf_dir d \<Longrightarrow> uuid h \<noteq> [] \<Longrightarrow> wf_dir (snd (save io h d))"
  by (auto simp: save_result wf_put_file)

lemma wf_listed_iff:
  assumes "wf_dir d"
  shows "h \<in> set (list_files (files d)) \<longleftrightarrow> (record_path (uuid h), Record h) \<in> set (files d)"
proof
  assume "h \<in> set (list_files (files d))"
  then obtain name where n: "(name, Record h) \<in> set (files d)" by (auto simp: list_files_set)
  with assms have "name = record_path (uuid h)" unfolding wf_dir_def by blast
  with n show "(record_path (uuid h), Record h) \<in> set (files d)" by simp
next
  assume h: "(record_path (uuid h), Record h) \<in> set (files d)"
  with assms have "uuid h \<noteq> []" unfolding wf_dir_def by blast
  then have "extension (record_path (uuid h)) = Some ''json''" by (rule extension_record_path)
  with h show "h \<in> set (list_files (files d))" unfolding list_files_set by blast
qed

lemma wf_records_unique:
  assumes "wf_dir d" "h \<in> set (list_files (files d))" "h' \<in> set (list_files (files d))"
    and "uuid h = uuid h'"
  shows "h = h'"
proof -
  from assms have "(record_path (uuid h), Record h) \<in> set (files d)"
    "(record_path (uuid h), Record h') \<in> set (files d)"
    by (simp_all add: wf_listed_iff)
  moreover from assms(1) have "distinct (map fst (files d))" by (simp add: wf_dir_def)
  ultimately show ?thesis by (metis eq_key_imp_eq_value file_text.inject)
qed

lemma wf_load_iff_listed:
  assumes "wf_dir d" "present d"
  shows "load d u = Inr (Some h) \<longleftrightarrow> h \<in> set (list_files (files d)) \<and> uuid h = u"
proof
  assume "load d u = Inr (Some h)"
  then have h: "(record_path u, Record h) \<in> set (files d)"
    using assms(2) by (auto simp: load_def dest: map_of_SomeD split: option.splits file_text.splits)
  with assms(1) have "record_path u = record_path (uuid h)" unfolding wf_dir_def by blast
  with h show "h \<in> set (list_files (files d)) \<and> uuid h = u"
    by (simp add: wf_listed_iff [OF assms(1)])
next
  assume h: "h \<in> set (list_files (files d)) \<and> uuid h = u"
  then have "(record_path u, Record h) \<in> set (files d)"
    by (auto simp: wf_listed_iff [OF assms(1)])
  with assms(1) have "map_of (files d) (record_path u) = Some (Record h)"
    by (auto simp: wf_dir_def)
  with assms(2) show "load d u = Inr (Some h)" by (simp add: load_def)
qed

lemma listed_put_file:
  assumes "wf_dir d" "uuid h \<noteq> []"
  shows "set (list_files (files (put_file h d))) =
           insert h {h' \<in> set (list_files (files d)). uuid h' \<noteq> uuid h}"
proof -
  have "h' \<in> set (list_files (files (put_file h d))) \<longleftrightarrow>
          h' = h \<or> (h' \<in> set (list_files (files d)) \<and> uuid h' \<noteq> uuid h)" for h'
    unfolding wf_listed_iff [OF wf_put_file [OF assms]] wf_listed_iff [OF assms(1)]
    by (auto simp: put_file_def set_update_distinct [OF wf_dir_distinct [OF assms(1)]])
  then show ?thesis by auto
qed

section \<open>A concrete record and directory\<close>

definition demo_handle :: "string \<Rightarrow> u16 option \<Rightarrow> RunnerHandle" where
  "demo_handle u port = \<lparr>uuid = u, pid = 7, control_sock = u @ ''.sock'', app_ula = ''fd5a::1'',
     parent = None, spawned_at = 0, restart = default_RestartState, image_ref = None,
     requested_runtime = None, network = None, runner_join_token = None, manifest_toml = None,
     extra_env = None, egress_allow = None, crash_looped = False, stopped = False,
     wg_listen_port = port\<rparr>"

definition demo_dir :: rundir where
  "demo_dir = \<lparr>present = True, listable = True, files = []\<rparr>"

section \<open>Properties\<close>

text \<open>Reading a record back after a write. A \<open>save\<close> that reports success is read back by
  \<open>load\<close> as exactly the handle written; whatever its outcome, no other app's record is touched.\<close>

theorem save_load_roundtrip:
  "(fst (save io h d) = Inr () \<longrightarrow> load (snd (save io h d)) (uuid h) = Inr (Some h)) \<and>
   (\<forall>u. u \<noteq> uuid h \<longrightarrow> load (snd (save io h d)) u = load d u)"
  by (simp add: load_save_ok)

theorem save_load_roundtrip_witness:
  "load (snd (save SaveOk (demo_handle ''a'' None) demo_dir)) ''a'' = Inr (Some (demo_handle ''a'' None))"
proof -
  have ok: "fst (save SaveOk (demo_handle ''a'' None) demo_dir) = Inr ()"
    by (simp add: save_result demo_dir_def)
  have u: "uuid (demo_handle ''a'' None) = ''a''" by (simp add: demo_handle_def)
  show ?thesis
    using save_load_roundtrip [of SaveOk "demo_handle ''a'' None" demo_dir] ok u by simp
qed

text \<open>A record directory that only the program writes keeps one file per app under the app's own
  name, and enumeration and direct lookup agree on it: a handle is listed exactly when loading its
  uuid returns it, so no corrupt neighbour hides or duplicates a healthy record.\<close>

theorem listing_agrees_with_load:
  assumes "wf_dir d" "present d" "listable d" "uuid h \<noteq> []"
  shows "wf_dir (snd (save io h d)) \<and>
    (\<exists>hs. list_records (snd (save io h d)) = Inr hs \<and>
      (\<forall>h' u. (h' \<in> set hs \<and> uuid h' = u) = (load (snd (save io h d)) u = Inr (Some h'))))"
proof -
  let ?d = "snd (save io h d)"
  have wf: "wf_dir ?d" using assms by (simp add: wf_save)
  have "present ?d" "listable ?d" using assms by (auto simp: save_result put_file_def)
  with wf show ?thesis
    by (auto simp: list_records_def wf_load_iff_listed)
qed

theorem listing_agrees_with_load_witness:
  "list_records (snd (save SaveOk (demo_handle ''a'' None) demo_dir)) = Inr [demo_handle ''a'' None] \<and>
   wf_dir (snd (save SaveOk (demo_handle ''a'' None) demo_dir))"
proof -
  have h: "wf_dir demo_dir" "present demo_dir" "listable demo_dir" "uuid (demo_handle ''a'' None) \<noteq> []"
    by (simp_all add: wf_dir_def demo_dir_def demo_handle_def)
  have "extension (record_path ''a'') = Some ''json''" by (rule extension_record_path) simp
  then have "list_records (snd (save SaveOk (demo_handle ''a'' None) demo_dir)) =
      Inr [demo_handle ''a'' None]"
    by (simp add: save_result list_records_def put_file_def demo_dir_def demo_handle_def)
  then show ?thesis
    using listing_agrees_with_load [OF h, of SaveOk] by simp
qed

text \<open>A failed save may still have replaced the durable record. When the directory sync after the
  rename fails, \<open>save\<close> returns an error although a later load sees the new handle, not the previous
  one.\<close>

theorem failed_save_may_replace:
  assumes "present d"
  shows "fst (save SaveErrAfterRename h d) \<noteq> Inr () \<and>
         load (snd (save SaveErrAfterRename h d)) (uuid h) = Inr (Some h)"
  using assms by (simp add: save_result)

theorem failed_save_may_replace_witness:
  "load (snd (save SaveErrAfterRename (demo_handle ''a'' None) demo_dir)) ''a'' =
     Inr (Some (demo_handle ''a'' None))"
  using failed_save_may_replace [of demo_dir "demo_handle ''a'' None"]
  by (simp add: demo_dir_def demo_handle_def)

end
