(* ===== verification/SlotPool.thy ===== *)
theory SlotPool
  imports Prelude
begin

text \<open>
  The contract of the program's two lowest-free allocators: the WireGuard ports of
  \<open>src/src/orchestrator/wg_port.rs\<close> and the link slots of
  \<open>src/src/firecracker/link_allocator.rs\<close>. An allocator picks a member of its pool that is not
  taken and fails only when the whole pool is taken; from that alone, handing out values to new keys
  keeps an assignment injective.
\<close>

locale slot_pool =
  fixes alloc :: "'a set \<Rightarrow> 'a option"
    and pool :: "'a set"
  assumes alloc_Some: "alloc taken = Some x \<Longrightarrow> x \<in> pool \<and> x \<notin> taken"
    and alloc_None: "alloc taken = None \<Longrightarrow> pool \<subseteq> taken"
begin

lemma alloc_iff_free: "alloc taken \<noteq> None \<longleftrightarrow> \<not> pool \<subseteq> taken"
  using alloc_Some alloc_None by (cases "alloc taken") auto

text \<open>A value allocated against every value in use keeps the assignment injective and inside the
  pool.\<close>

lemma assign_inj:
  assumes "inj_on m (dom m)" and "ran m \<subseteq> taken" and "alloc taken = Some x"
  shows "inj_on (m(k \<mapsto> x)) (dom (m(k \<mapsto> x)))"
proof (rule inj_onI)
  fix a b
  assume a: "a \<in> dom (m(k \<mapsto> x))" and b: "b \<in> dom (m(k \<mapsto> x))"
    and eq: "(m(k \<mapsto> x)) a = (m(k \<mapsto> x)) b"
  have fresh: "m c \<noteq> Some x" for c
    using assms(2) alloc_Some [OF assms(3)] by (auto simp: ran_def)
  show "a = b"
  proof (cases "a = k \<or> b = k")
    case True
    with eq fresh show ?thesis by (auto split: if_splits)
  next
    case False
    with a b eq have "m a = m b" "a \<in> dom m" "b \<in> dom m" by auto
    then show ?thesis using inj_onD [OF assms(1)] by blast
  qed
qed

lemma assign_pool:
  "ran m \<subseteq> pool \<Longrightarrow> alloc taken = Some x \<Longrightarrow> ran (m(k \<mapsto> x)) \<subseteq> pool"
  using alloc_Some by (auto simp: ran_def split: if_splits)

text \<open>A finite pool always has room for one more key while fewer values are in use than it holds.\<close>

lemma alloc_when_room:
  assumes "finite pool" "finite taken" "card taken < card pool"
  shows "\<exists>x. alloc taken = Some x"
proof (rule ccontr)
  assume "\<nexists>x. alloc taken = Some x"
  then have "pool \<subseteq> taken" using alloc_None by auto
  then have "card pool \<le> card taken" by (rule card_mono [OF assms(2)])
  with assms(3) show False by simp
qed

end

end
