(* ===== verification/WgPort.thy ===== *)
theory WgPort
  imports Handle SlotPool
begin

text \<open>
  The per-runner WireGuard listen ports of \<open>src/src/orchestrator/wg_port.rs\<close>: the lowest free port
  of a fixed pool, or the port the runner's record already holds.
\<close>

definition RUNNER_WG_PORT_BASE :: u16 where
  "RUNNER_WG_PORT_BASE = 51821"

definition RUNNER_WG_PORT_COUNT :: u16 where
  "RUNNER_WG_PORT_COUNT = 256"

definition RUNNER_WG_PORT_END :: u16 where
  "RUNNER_WG_PORT_END = RUNNER_WG_PORT_BASE + RUNNER_WG_PORT_COUNT"

definition wg_port_range :: "u16 list" where
  "wg_port_range = map of_nat [unat RUNNER_WG_PORT_BASE ..< unat RUNNER_WG_PORT_END]"

definition allocate_wg_port :: "u16 list \<Rightarrow> u16 option" where
  "allocate_wg_port taken = List.find (\<lambda>port. port \<notin> set taken) wg_port_range"

definition held_port :: "string \<Rightarrow> RunnerHandle list \<Rightarrow> u16 option" where
  "held_port u records = Option.bind (List.find (\<lambda>r. uuid r = u) records) wg_listen_port"

definition taken_ports :: "string \<Rightarrow> RunnerHandle list \<Rightarrow> u16 list" where
  "taken_ports u records = List.map_filter wg_listen_port (filter (\<lambda>r. uuid r \<noteq> u) records)"

definition port_for_runner :: "rundir \<Rightarrow> string \<Rightarrow> u16 option" where
  "port_for_runner d u =
     (case list_records d of
        Inl e \<Rightarrow> None
      | Inr records \<Rightarrow>
          (case held_port u records of
             Some port \<Rightarrow> Some port
           | None \<Rightarrow> allocate_wg_port (taken_ports u records)))"

section \<open>The pool\<close>

lemma wg_port_bounds:
  "unat RUNNER_WG_PORT_BASE = 51821" "unat RUNNER_WG_PORT_END = 52077"
  by (simp_all add: RUNNER_WG_PORT_BASE_def RUNNER_WG_PORT_END_def RUNNER_WG_PORT_COUNT_def)

lemma mem_word_range:
  fixes p :: "'a::len word"
  assumes "b \<le> 2 ^ LENGTH('a)"
  shows "p \<in> set (map of_nat [a ..< b]) \<longleftrightarrow> a \<le> unat p \<and> unat p < b"
proof
  assume "p \<in> set (map of_nat [a ..< b])"
  then obtain n where n: "a \<le> n" "n < b" "p = of_nat n" by auto
  with assms have "unat p = n" by (simp add: unat_of_nat)
  with n show "a \<le> unat p \<and> unat p < b" by simp
next
  assume p: "a \<le> unat p \<and> unat p < b"
  have "p = of_nat (unat p)" by simp
  with p show "p \<in> set (map of_nat [a ..< b])"
    unfolding set_map by (intro image_eqI [of _ _ "unat p"]) auto
qed

lemma distinct_word_range:
  assumes "b \<le> 2 ^ LENGTH('a)"
  shows "distinct (map of_nat [a ..< b] :: 'a::len word list)"
proof -
  have "unat (of_nat n :: 'a word) = n" if "n < b" for n
    using that assms by (simp add: unat_of_nat)
  then have "inj_on (of_nat :: nat \<Rightarrow> 'a word) (set [a ..< b])"
    by (intro inj_onI) (metis atLeastLessThan_iff set_upt)
  then show ?thesis by (simp add: distinct_map)
qed

lemma mem_wg_port_range: "p \<in> set wg_port_range \<longleftrightarrow> 51821 \<le> unat p \<and> unat p < 52077"
  unfolding wg_port_range_def wg_port_bounds by (rule mem_word_range) simp

text \<open>Scanning the range from below finds the least free port.\<close>

lemma find_least:
  "List.find P (map of_nat [a ..< b]) = Some x \<Longrightarrow> b \<le> 2 ^ LENGTH('a) \<Longrightarrow>
   a \<le> unat x \<and> unat x < b \<and> P x \<and> (\<forall>y :: 'a::len word. a \<le> unat y \<and> unat y < unat x \<longrightarrow> \<not> P y)"
proof (induction "b - a" arbitrary: a)
  case 0
  then show ?case by simp
next
  case (Suc n)
  then have ab: "a < b" by simp
  then have split: "[a ..< b] = a # [Suc a ..< b]" by (simp add: upt_conv_Cons)
  have ua: "unat (of_nat a :: 'a word) = a"
    using ab Suc.prems(2) by (simp add: unat_of_nat)
  show ?case
  proof (cases "P (of_nat a)")
    case True
    with Suc.prems split have "x = of_nat a" by simp
    with True ab ua show ?thesis by auto
  next
    case False
    have ih: "Suc a \<le> unat x \<and> unat x < b \<and> P x \<and>
        (\<forall>y :: 'a word. Suc a \<le> unat y \<and> unat y < unat x \<longrightarrow> \<not> P y)"
      using Suc.hyps(1) [of "Suc a"] Suc.hyps(2) Suc.prems False split by auto
    have "\<not> P y" if "a \<le> unat y" "unat y < unat x" for y :: "'a word"
    proof (cases "unat y = a")
      case True
      then have "y = of_nat a" using ua word_unat_eq_iff by metis
      with False show ?thesis by simp
    next
      case False
      with that ih show ?thesis by auto
    qed
    with ih show ?thesis by auto
  qed
qed

definition wg_alloc :: "u16 set \<Rightarrow> u16 option" where
  "wg_alloc taken = List.find (\<lambda>port. port \<notin> taken) wg_port_range"

lemma allocate_wg_port_set: "allocate_wg_port taken = wg_alloc (set taken)"
  by (simp add: allocate_wg_port_def wg_alloc_def)

interpretation wg: slot_pool wg_alloc "set wg_port_range"
  by unfold_locales (auto simp: wg_alloc_def dest: find_SomeD find_NoneD)

lemma distinct_wg_port_range: "distinct wg_port_range"
  unfolding wg_port_range_def wg_port_bounds by (rule distinct_word_range) simp

lemma card_wg_pool: "card (set wg_port_range) = 256"
proof -
  have "length wg_port_range = 52077 - 51821"
    unfolding wg_port_range_def wg_port_bounds length_map length_upt by (rule refl)
  then show ?thesis by (simp add: distinct_card [OF distinct_wg_port_range])
qed

section \<open>Ports of a directory\<close>

text \<open>No two apps of the directory hold the same port.\<close>

definition ports_distinct :: "rundir \<Rightarrow> bool" where
  "ports_distinct d \<longleftrightarrow>
     (\<forall>h \<in> set (list_files (files d)). \<forall>h' \<in> set (list_files (files d)).
        wg_listen_port h \<noteq> None \<and> wg_listen_port h = wg_listen_port h' \<longrightarrow> uuid h = uuid h')"

lemma set_taken_ports:
  "set (taken_ports u records) = {p. \<exists>r \<in> set records. uuid r \<noteq> u \<and> wg_listen_port r = Some p}"
  by (force simp: taken_ports_def List.map_filter_def)

lemma held_port_Some:
  "held_port u records = Some p \<Longrightarrow> \<exists>r \<in> set records. uuid r = u \<and> wg_listen_port r = Some p"
  by (auto simp: held_port_def dest: find_SomeD split: bind_splits)

lemma port_for_runner_fresh:
  assumes "wf_dir d" "present d" "ports_distinct d" "port_for_runner d u = Some p"
    and "h' \<in> set (list_files (files d))" "uuid h' \<noteq> u"
  shows "wg_listen_port h' \<noteq> Some p"
proof (cases "held_port u (list_files (files d))")
  case (Some q)
  with assms(2,4) have "q = p" by (auto simp: port_for_runner_def list_records_def split: if_splits)
  with Some obtain r where "r \<in> set (list_files (files d))" "uuid r = u" "wg_listen_port r = Some p"
    using held_port_Some by blast
  with assms(3,5,6) show ?thesis unfolding ports_distinct_def by (metis option.distinct(1))
next
  case None
  with assms(2,4) have "wg_alloc (set (taken_ports u (list_files (files d)))) = Some p"
    by (auto simp: port_for_runner_def list_records_def allocate_wg_port_set split: if_splits)
  then have "p \<notin> set (taken_ports u (list_files (files d)))"
    using wg.alloc_Some by blast
  with assms(5,6) show ?thesis by (auto simp: set_taken_ports)
qed

section \<open>Properties\<close>

text \<open>A port handed out is the lowest port of 51821..52076 that no other runner holds, and
  \<open>None\<close> means that all 256 of them are held.\<close>

theorem allocate_wg_port_spec:
  "(case allocate_wg_port taken of
      Some p \<Rightarrow> 51821 \<le> unat p \<and> unat p < 52077 \<and> p \<notin> set taken \<and>
        (\<forall>q. 51821 \<le> unat q \<and> unat q < unat p \<longrightarrow> q \<in> set taken)
    | None \<Rightarrow> (\<forall>q. 51821 \<le> unat q \<and> unat q < 52077 \<longrightarrow> q \<in> set taken))"
proof (cases "allocate_wg_port taken")
  case None
  then have "set wg_port_range \<subseteq> set taken"
    by (simp add: allocate_wg_port_set wg.alloc_None)
  then show ?thesis using None by (auto simp: mem_wg_port_range subset_iff)
next
  case (Some p)
  then have "List.find (\<lambda>port. port \<notin> set taken) (map of_nat [51821 ..< 52077]) = Some p"
    unfolding allocate_wg_port_def wg_port_range_def wg_port_bounds .
  from find_least [OF this] Some show ?thesis by auto
qed

theorem allocate_wg_port_spec_witness:
  "allocate_wg_port [51821, 51823] = Some 51822"
proof -
  have n: "allocate_wg_port [51821, 51823] \<noteq> None"
    using wg.alloc_None [of "set [51821, 51823]"] card_wg_pool
      card_mono [of "set [51821, 51823 :: u16]" "set wg_port_range"]
    by (auto simp: allocate_wg_port_set)
  then obtain p where p: "allocate_wg_port [51821, 51823] = Some p" by blast
  have spec: "51821 \<le> unat p \<and> unat p < 52077 \<and> p \<notin> {51821, 51823} \<and>
      (\<forall>q :: u16. 51821 \<le> unat q \<and> unat q < unat p \<longrightarrow> q \<in> {51821, 51823})"
    using allocate_wg_port_spec [of "[51821, 51823]"] unfolding p option.case list.set .
  then have b: "51821 \<le> unat p" "p \<notin> {51821, 51823}"
    and least: "\<forall>q :: u16. 51821 \<le> unat q \<and> unat q < unat p \<longrightarrow> q \<in> {51821, 51823}"
    by blast+
  have "\<not> 51822 < unat p"
    using least [rule_format, of 51822] by auto
  moreover have "unat p \<noteq> 51821" using b(2) word_unat_eq_iff [of p 51821] by auto
  ultimately have "unat p = 51822" using b(1) by linarith
  then have "p = 51822" by (simp add: word_unat_eq_iff)
  with p show ?thesis by simp
qed

text \<open>Recording the port that \<open>port_for_runner\<close> resolves for an app keeps the ports of the
  directory distinct, whether the port was held already, newly allocated, or the pool was exhausted;
  and the next resolution for the same app returns the recorded port.\<close>

theorem port_for_runner_keeps_distinct:
  assumes "wf_dir d" "present d" "listable d" "ports_distinct d" "uuid h \<noteq> []"
    and "wg_listen_port h = port_for_runner d (uuid h)"
  shows "ports_distinct (snd (save io h d)) \<and>
    (fst (save io h d) = Inr () \<and> wg_listen_port h \<noteq> None \<longrightarrow>
       port_for_runner (snd (save io h d)) (uuid h) = wg_listen_port h)"
proof
  have other: "wg_listen_port h' \<noteq> Some p"
    if "h' \<in> set (list_files (files d))" "uuid h' \<noteq> uuid h" "wg_listen_port h = Some p" for h' p
    using port_for_runner_fresh [of d "uuid h" p h'] assms that by simp
  have "ports_distinct (put_file h d)"
    unfolding ports_distinct_def listed_put_file [OF assms(1,5)]
  proof (intro ballI impI, elim conjE)
    fix a b
    assume a: "a \<in> insert h {h' \<in> set (list_files (files d)). uuid h' \<noteq> uuid h}"
      and b: "b \<in> insert h {h' \<in> set (list_files (files d)). uuid h' \<noteq> uuid h}"
      and ab: "wg_listen_port a \<noteq> None" "wg_listen_port a = wg_listen_port b"
    consider "a = h" "b = h" | "a = h" "b \<noteq> h" | "a \<noteq> h" "b = h" | "a \<noteq> h" "b \<noteq> h" by blast
    then show "uuid a = uuid b"
    proof cases
      case 2
      with a b ab other show ?thesis by (metis (mono_tags, lifting) insertE mem_Collect_eq not_None_eq)
    next
      case 3
      with a b ab other show ?thesis by (metis (mono_tags, lifting) insertE mem_Collect_eq not_None_eq)
    next
      case 4
      with a b ab assms(4) show ?thesis unfolding ports_distinct_def by blast
    qed simp
  qed
  with assms(4) show "ports_distinct (snd (save io h d))" by (simp add: save_result)
  show "fst (save io h d) = Inr () \<and> wg_listen_port h \<noteq> None \<longrightarrow>
      port_for_runner (snd (save io h d)) (uuid h) = wg_listen_port h"
  proof (intro impI, elim conjE)
    assume ok: "fst (save io h d) = Inr ()" and port: "wg_listen_port h \<noteq> None"
    have h: "h \<in> set (list_files (files (put_file h d)))"
      by (simp add: listed_put_file [OF assms(1,5)])
    have "List.find (\<lambda>r. uuid r = uuid h) (list_files (files (put_file h d))) \<noteq> None"
      using h by (auto simp: find_None_iff)
    then obtain r where r: "List.find (\<lambda>r. uuid r = uuid h) (list_files (files (put_file h d))) = Some r"
      by blast
    then have "r \<in> set (list_files (files (put_file h d)))" "uuid r = uuid h"
      using find_SomeD by fastforce+
    then have "r = h"
      by (rule wf_records_unique [OF wf_put_file [OF assms(1,5)] _ h])
    with r port ok assms(3) show "port_for_runner (snd (save io h d)) (uuid h) = wg_listen_port h"
      by (auto simp: save_result port_for_runner_def list_records_def held_port_def put_file_def
          split: if_splits)
  qed
qed

theorem port_for_runner_keeps_distinct_witness:
  "ports_distinct (snd (save SaveOk (demo_handle ''a'' (port_for_runner demo_dir ''a'')) demo_dir))"
proof -
  have "wf_dir demo_dir" "present demo_dir" "listable demo_dir" "ports_distinct demo_dir"
    by (simp_all add: wf_dir_def ports_distinct_def demo_dir_def)
  then show ?thesis
    using port_for_runner_keeps_distinct
      [of demo_dir "demo_handle ''a'' (port_for_runner demo_dir ''a'')" SaveOk]
    by (simp add: demo_handle_def)
qed

text \<open>Allocation and recording are not atomic across apps. Two apps without a port that resolve
  one against the same directory contents (each under its own lifecycle lock, before either record is
  written) are handed the same port.\<close>

theorem concurrent_resolution_collides:
  assumes "list_records d = Inr records"
    and "\<forall>r \<in> set records. uuid r \<noteq> u \<and> uuid r \<noteq> v"
  shows "port_for_runner d u = port_for_runner d v"
proof -
  have "filter (\<lambda>r. uuid r \<noteq> u) records = records" "filter (\<lambda>r. uuid r \<noteq> v) records = records"
    using assms(2) by (simp_all add: filter_id_conv)
  moreover have "List.find (\<lambda>r. uuid r = u) records = None" "List.find (\<lambda>r. uuid r = v) records = None"
    using assms(2) by (auto simp: find_None_iff)
  ultimately show ?thesis
    using assms(1) by (simp add: port_for_runner_def held_port_def taken_ports_def)
qed

theorem concurrent_resolution_collides_witness:
  "port_for_runner demo_dir ''a'' = port_for_runner demo_dir ''b'' \<and>
   port_for_runner demo_dir ''a'' = Some 51821"
proof -
  have l: "list_records demo_dir = Inr []" by (simp add: list_records_def demo_dir_def)
  have "port_for_runner demo_dir ''a'' = allocate_wg_port []"
    by (simp add: port_for_runner_def l held_port_def taken_ports_def List.map_filter_def)
  also have "\<dots> = Some 51821"
    unfolding allocate_wg_port_def wg_port_range_def wg_port_bounds
    by (subst upt_conv_Cons) simp_all
  finally show ?thesis
    using concurrent_resolution_collides [OF l, of "''a''" "''b''"] by simp
qed

end
