(* ===== verification/Streak.thy ===== *)
theory Streak
  imports Prelude
begin

text \<open>
  The contract shared by the program's consecutive-failure counters: a u32 level that a bad
  observation raises by one (saturating) and a good one resets. The post-swap data-plane debounce, the
  tier-2 dead streak and the boot-attempt counter are its interpretations. From the two laws alone the
  level after any history is the length of its trailing run of bad observations, so a threshold is
  reached exactly by that many bad observations in a row.
\<close>

locale failure_streak =
  fixes level :: "'s \<Rightarrow> u32"
    and bad good :: "'s \<Rightarrow> 's"
  assumes level_bad: "level (bad s) = sat_add (level s) 1"
    and level_good: "level (good s) = 0"
begin

lemma level_history:
  "unat (level (fold (\<lambda>b. if b then bad else good) obs s)) =
     min ((if list_all id obs then unat (level s) else 0) + length (takeWhile id (rev obs)))
       (2 ^ 32 - 1)"
proof (induction obs rule: rev_induct)
  case Nil
  show ?case using unat_le_max [of "level s"] by (simp add: min_absorb1)
next
  case (snoc b obs)
  show ?case
  proof (cases b)
    case False
    then show ?thesis by (simp add: level_good)
  next
    case True
    then show ?thesis
      by (simp add: snoc.IH level_bad wordnat)
  qed
qed

lemma threshold_reached:
  assumes "level s = 0" "0 < k" "k < 2 ^ 32"
  shows "k \<le> unat (level (fold (\<lambda>b. if b then bad else good) obs s)) \<longleftrightarrow>
           k \<le> length obs \<and> list_all id (drop (length obs - k) obs)"
proof -
  have "k \<le> length (takeWhile id (rev obs)) \<longleftrightarrow> k \<le> length obs \<and> list_all id (take k (rev obs))"
  proof (induction obs arbitrary: k rule: rev_induct)
    case (snoc b obs)
    then show ?case by (cases k) auto
  qed simp
  moreover have "list_all id (take k (rev obs)) \<longleftrightarrow> list_all id (drop (length obs - k) obs)"
    by (simp add: take_rev list_all_iff)
  ultimately show ?thesis
    using assms by (simp add: level_history)
qed

lemma one_good_clears: "level (fold (\<lambda>b. if b then bad else good) (obs @ [False]) s) = 0"
  by (simp add: level_good)

end

end
