(* ===== verification/SelfHeal.thy ===== *)
theory SelfHeal
  imports Restart Streak
begin

text \<open>
  Self-healing of the supervisor process and its host: the crash-at-startup counter
  (\<open>src/src/boot_health/mod.rs\<close>), the watchdog's pet decision and its escalating restart backoff
  (\<open>src/src/watchdog_pet/\<close>), the tier-2 reboot escalation and the persisted reboot loop-guard
  (\<open>src/src/mesh_command/reboot_guard.rs\<close>, used by \<open>sink.rs\<close> and tier 2). A sidecar file is what its
  reader gets from it: \<open>None\<close> when missing or corrupt. Durations are nanoseconds.
\<close>

section \<open>Sidecar files\<close>

text \<open>How a plain \<open>fs::write\<close> ends: written, nothing changed (the directory or the open failed), or
  the file truncated and not completely written.\<close>

datatype plain_write = Written | NotWritten | Torn

fun write_sidecar :: "plain_write \<Rightarrow> 'a \<Rightarrow> 'a option \<Rightarrow> 'a option" where
  "write_sidecar Written v f = Some v"
| "write_sidecar NotWritten v f = f"
| "write_sidecar Torn v f = None"

text \<open>The atomic write (temporary file and rename) either lands or leaves the old file.\<close>

definition rename_sidecar :: "bool \<Rightarrow> 'a \<Rightarrow> 'a option \<Rightarrow> 'a option" where
  "rename_sidecar ok v f = (if ok then Some v else f)"

section \<open>Boot attempts\<close>

definition REVERT_THRESHOLD :: u32 where
  "REVERT_THRESHOLD = 3"

record BootAttempts =
  count :: u32
  first_attempt_ts :: u64
  reverted_to :: "string option"

definition default_BootAttempts :: BootAttempts where
  "default_BootAttempts = \<lparr>count = 0, first_attempt_ts = 0, reverted_to = None\<rparr>"

definition load_boot :: "BootAttempts option \<Rightarrow> BootAttempts" where
  "load_boot f = (case f of None \<Rightarrow> default_BootAttempts | Some b \<Rightarrow> b)"

definition save_boot :: "bool \<Rightarrow> BootAttempts \<Rightarrow> BootAttempts option \<Rightarrow> BootAttempts option" where
  "save_boot ok b f = rename_sidecar ok b f"

definition boot_bump ::
  "bool \<Rightarrow> u64 \<Rightarrow> BootAttempts \<Rightarrow> BootAttempts option \<Rightarrow> BootAttempts \<times> BootAttempts option" where
  "boot_bump ok now b f =
     (let b1 = (if count b = 0 then b\<lparr>first_attempt_ts := now\<rparr> else b);
          b2 = b1\<lparr>count := sat_add (count b1) 1\<rparr>
      in (b2, save_boot ok b2 f))"

definition boot_clear :: "bool \<Rightarrow> BootAttempts option \<Rightarrow> BootAttempts option" where
  "boot_clear ok f = save_boot ok default_BootAttempts f"

definition mark_reverted :: "string \<Rightarrow> bool \<Rightarrow> BootAttempts option \<Rightarrow> BootAttempts option" where
  "mark_reverted version ok f =
     save_boot ok \<lparr>count = 0, first_attempt_ts = 0, reverted_to = Some version\<rparr> f"

definition should_revert :: "BootAttempts \<Rightarrow> u32 \<Rightarrow> bool" where
  "should_revert b threshold \<longleftrightarrow> threshold \<le> count b"

text \<open>One boot as \<open>main\<close> drives the counter: bump first; clear it when the boot reached READY.\<close>

definition boot_cycle :: "bool \<Rightarrow> u64 \<Rightarrow> BootAttempts option \<Rightarrow> BootAttempts option" where
  "boot_cycle reached_ready now f =
     (let f1 = snd (boot_bump True now (load_boot f) f)
      in if reached_ready then boot_clear True f1 else f1)"

lemma load_boot_cycle_crash:
  "count (load_boot (boot_cycle False now f)) = sat_add (count (load_boot f)) 1"
  "reverted_to (load_boot (boot_cycle False now f)) = reverted_to (load_boot f)"
  by (auto simp: boot_cycle_def boot_bump_def save_boot_def rename_sidecar_def load_boot_def Let_def)

lemma load_boot_cycle_ready: "load_boot (boot_cycle True now f) = default_BootAttempts"
  by (simp add: boot_cycle_def boot_clear_def save_boot_def rename_sidecar_def load_boot_def)

interpretation boots: failure_streak "\<lambda>f. count (load_boot f)" "boot_cycle False now" "boot_cycle True now"
  for now
  by unfold_locales (simp_all add: load_boot_cycle_crash load_boot_cycle_ready default_BootAttempts_def)

section \<open>Tier 1: the restart backoff\<close>

type_synonym duration = nat

definition from_secs :: "nat \<Rightarrow> duration" where
  "from_secs s = s * 1000000000"

definition BACKOFF_BASE :: u64 where "BACKOFF_BASE = 30"
definition BACKOFF_MAX :: u64 where "BACKOFF_MAX = 600"
definition HEALTHY_RESET :: u64 where "HEALTHY_RESET = 600"

record RestartAttempts =
  attempts :: u32
  window_start_micros :: int

definition default_RestartAttempts :: RestartAttempts where
  "default_RestartAttempts = \<lparr>attempts = 0, window_start_micros = 0\<rparr>"

definition load_restart_attempts :: "RestartAttempts option \<Rightarrow> RestartAttempts" where
  "load_restart_attempts f = (case f of None \<Rightarrow> default_RestartAttempts | Some a \<Rightarrow> a)"

definition save_restart_attempts ::
  "plain_write \<Rightarrow> RestartAttempts \<Rightarrow> RestartAttempts option \<Rightarrow> RestartAttempts option" where
  "save_restart_attempts w a f = write_sidecar w a f"

definition backoff_floor_secs :: "u32 \<Rightarrow> u64" where
  "backoff_floor_secs n =
     (if n = 0 then 0
      else let exp = n - 1;
               mult = (if 64 \<le> exp then word_max else push_bit (unat exp) (1 :: u64));
               secs = sat_mul BACKOFF_BASE mult
           in min secs BACKOFF_MAX)"

definition backoff_floor :: "u32 \<Rightarrow> duration" where
  "backoff_floor n = from_secs (unat (backoff_floor_secs n))"

definition withhold_allowed :: "duration \<Rightarrow> u32 \<Rightarrow> bool" where
  "withhold_allowed uptime n \<longleftrightarrow> backoff_floor n \<le> uptime"

text \<open>\<open>saturating_sub\<close> on \<open>i64\<close>.\<close>

definition i64_sat_sub :: "int \<Rightarrow> int \<Rightarrow> int" where
  "i64_sat_sub a b = max (- (2 ^ 63)) (min (2 ^ 63 - 1) (a - b))"

definition fold_boot_attempts :: "RestartAttempts \<Rightarrow> bool \<Rightarrow> int \<Rightarrow> RestartAttempts" where
  "fold_boot_attempts prev black_hole_restart now_micros =
     (if black_hole_restart
      then \<lparr>attempts = sat_add (attempts prev) 1, window_start_micros = now_micros\<rparr>
      else if attempts prev = 0 then \<lparr>attempts = 0, window_start_micros = now_micros\<rparr>
      else let healthy_for_micros = i64_sat_sub now_micros (window_start_micros prev);
               reset_after_micros = int (unat HEALTHY_RESET) * 1000000
           in if reset_after_micros \<le> healthy_for_micros
              then \<lparr>attempts = 0, window_start_micros = now_micros\<rparr>
              else prev)"

lemma backoff_floor_ladder:
  "unat (backoff_floor_secs n) = (if n = 0 then 0 else min (30 * 2 ^ (unat n - 1)) 600)"
proof (cases "n = 0")
  case False
  then have e: "unat (n - 1) = unat n - 1" by (simp add: unat_minus_one)
  show ?thesis
  proof (cases "64 \<le> n - 1")
    case True
    then have "64 \<le> unat n - 1"
      using e by (simp add: word_le_nat_alt)
    then have "(2::nat) ^ 64 \<le> 2 ^ (unat n - 1)" by (intro power_increasing) auto
    then have "(600::nat) \<le> 30 * 2 ^ (unat n - 1)" by simp
    with False True show ?thesis
      by (simp add: backoff_floor_secs_def Let_def wordnat BACKOFF_BASE_def BACKOFF_MAX_def min_absorb2)
  next
    case small: False
    then have k: "unat n - 1 < 64" using e by (simp add: word_le_nat_alt)
    show ?thesis
    proof (cases "30 * 2 ^ (unat n - 1) \<le> (2::nat) ^ 64 - 1")
      case True
      with False small e k show ?thesis
        by (simp add: backoff_floor_secs_def Let_def wordnat BACKOFF_BASE_def BACKOFF_MAX_def
            unat_two_power min_absorb1)
    next
      case big: False
      then have "(600::nat) \<le> 30 * 2 ^ (unat n - 1)" by simp
      with False small e k big show ?thesis
        by (simp add: backoff_floor_secs_def Let_def wordnat BACKOFF_BASE_def BACKOFF_MAX_def
            unat_two_power min_absorb2)
    qed
  qed
qed (simp add: backoff_floor_secs_def)

interpretation tier1: backoff_ladder "\<lambda>n. unat (backoff_floor_secs n)" 30 600
  by unfold_locales (rule backoff_floor_ladder)

section \<open>Tier 1: the pet decision\<close>

datatype PetAction = Pet | Skip

datatype PetOutcome = Petted | Withheld | PetFailed

definition pet_interval :: "duration \<Rightarrow> duration" where
  "pet_interval window = max (window div 2) 1000000"

definition decide_pet :: "bool \<Rightarrow> PetAction" where
  "decide_pet data_plane_healthy = (if data_plane_healthy then Pet else Skip)"

text \<open>\<open>sent\<close>: whether the notify socket takes the message.\<close>

fun apply_decision :: "PetAction \<Rightarrow> bool \<Rightarrow> PetOutcome" where
  "apply_decision Skip sent = Withheld"
| "apply_decision Pet sent = (if sent then Petted else PetFailed)"

definition guard_black_hole :: "bool \<Rightarrow> bool \<Rightarrow> PetAction" where
  "guard_black_hole data_plane_healthy relay_only =
     (case decide_pet data_plane_healthy of
        Pet \<Rightarrow> Pet
      | Skip \<Rightarrow> if relay_only then Skip else Pet)"

definition run_once :: "bool \<Rightarrow> bool \<Rightarrow> bool \<Rightarrow> duration \<Rightarrow> u32 \<Rightarrow> PetOutcome" where
  "run_once healthy sent relay_only uptime n =
     (let action = guard_black_hole healthy relay_only;
          action = (if action = Skip \<and> \<not> withhold_allowed uptime n then Pet else action)
      in apply_decision action sent)"

section \<open>The reboot loop-guard\<close>

definition MAX_PER_WINDOW :: nat where "MAX_PER_WINDOW = 3"
definition WINDOW_SECS :: u64 where "WINDOW_SECS = 3600"

type_synonym reboot_file = "u64 list option"

definition load_reboots :: "reboot_file \<Rightarrow> u64 list" where
  "load_reboots f = (case f of None \<Rightarrow> [] | Some h \<Rightarrow> h)"

definition try_reboot :: "u64 \<Rightarrow> plain_write \<Rightarrow> reboot_file \<Rightarrow> bool \<times> reboot_file" where
  "try_reboot now w f =
     (let cutoff = sat_sub now WINDOW_SECS;
          h = filter (\<lambda>t. cutoff \<le> t) (load_reboots f)
      in if MAX_PER_WINDOW \<le> length h then (False, write_sidecar w h f)
         else (True, write_sidecar w (h @ [now]) f))"

text \<open>The verb \<open>RebootHost\<close> of the command sink: a reboot only when the guard grants it.\<close>

definition reboot_host :: "u64 \<Rightarrow> plain_write \<Rightarrow> reboot_file \<Rightarrow> bool \<times> reboot_file" where
  "reboot_host now w f =
     (let (granted, f') = try_reboot now w f in if \<not> granted then (False, f') else (True, f'))"

section \<open>Tier 2: escalation to a host reboot\<close>

definition REBOOT_AFTER_CONSECUTIVE_DEAD :: u32 where
  "REBOOT_AFTER_CONSECUTIVE_DEAD = 3"

datatype Tier2Action = Hold | Reboot

definition escalate_decision :: "u32 \<Rightarrow> u32 \<Rightarrow> Tier2Action" where
  "escalate_decision consecutive_dead threshold =
     (if threshold \<le> consecutive_dead then Reboot else Hold)"

record DeadStreak =
  consecutive_dead :: u32

definition default_DeadStreak :: DeadStreak where
  "default_DeadStreak = \<lparr>consecutive_dead = 0\<rparr>"

definition load_dead_streak :: "DeadStreak option \<Rightarrow> DeadStreak" where
  "load_dead_streak f = (case f of None \<Rightarrow> default_DeadStreak | Some s \<Rightarrow> s)"

definition fold_observation :: "DeadStreak \<Rightarrow> bool \<Rightarrow> DeadStreak" where
  "fold_observation prev data_plane_healthy =
     (if data_plane_healthy then \<lparr>consecutive_dead = 0\<rparr>
      else \<lparr>consecutive_dead = sat_add (consecutive_dead prev) 1\<rparr>)"

interpretation dead: failure_streak consecutive_dead
  "\<lambda>s. fold_observation s False" "\<lambda>s. fold_observation s True"
  by unfold_locales (simp_all add: fold_observation_def)

definition apply_tier2 :: "Tier2Action \<Rightarrow> u64 \<Rightarrow> plain_write \<Rightarrow> reboot_file \<Rightarrow> bool \<times> reboot_file" where
  "apply_tier2 action now w guard =
     (if action \<noteq> Reboot then (False, guard)
      else let (granted, guard') = try_reboot now w guard
           in if \<not> granted then (False, guard') else (True, guard'))"

text \<open>The state a boot check reads and writes.\<close>

record heal_state =
  attempts_file :: "RestartAttempts option"
  streak_file :: "DeadStreak option"
  guard_file :: reboot_file

definition run_tier2_boot_check ::
  "bool \<Rightarrow> u64 \<Rightarrow> plain_write \<Rightarrow> plain_write \<Rightarrow> DeadStreak option \<Rightarrow> reboot_file \<Rightarrow>
   bool \<times> DeadStreak option \<times> reboot_file" where
  "run_tier2_boot_check healthy now ws wg streak guard =
     (let folded = fold_observation (load_dead_streak streak) healthy;
          action = escalate_decision (consecutive_dead folded) REBOOT_AFTER_CONSECUTIVE_DEAD;
          to_persist = (if action = Reboot then default_DeadStreak else folded);
          streak' = write_sidecar ws to_persist streak;
          (rebooted, guard') = apply_tier2 action now wg guard
      in (rebooted, streak', guard'))"

text \<open>The once-per-boot task of \<open>spawn_watchdog_pet\<close>: the probe is sampled once for the tier-1
  counter and again inside the tier-2 check.\<close>

definition boot_check_task ::
  "bool \<Rightarrow> bool \<Rightarrow> int \<Rightarrow> u64 \<Rightarrow> plain_write \<Rightarrow> plain_write \<Rightarrow> plain_write \<Rightarrow> heal_state \<Rightarrow>
   bool \<times> heal_state" where
  "boot_check_task healthy1 healthy2 micros now wa ws wg st =
     (let folded = fold_boot_attempts (load_restart_attempts (attempts_file st)) (\<not> healthy1) micros;
          st1 = st\<lparr>attempts_file := save_restart_attempts wa folded (attempts_file st)\<rparr>;
          (rebooted, streak', guard') =
            run_tier2_boot_check healthy2 now ws wg (streak_file st1) (guard_file st1)
      in (rebooted, st1\<lparr>streak_file := streak', guard_file := guard'\<rparr>))"

section \<open>Properties\<close>

text \<open>The crash counter is the length of the current crash streak: whatever the boots before it did,
  after a boot that reached READY the sidecar asks for a revert exactly from the third crashing boot in
  a row on, and the version a previous revert recorded survives crashes and is forgotten by a healthy
  boot.\<close>

theorem revert_after_three_crashes:
  "should_revert (load_boot (fold (\<lambda>t. boot_cycle False t) crashes (boot_cycle True t0 f)))
     REVERT_THRESHOLD = (3 \<le> length crashes) \<and>
   reverted_to (load_boot (fold (\<lambda>t. boot_cycle False t) crashes f)) = reverted_to (load_boot f) \<and>
   reverted_to (load_boot (boot_cycle True t0 f)) = None"
proof (intro conjI)
  have len: "unat (count (load_boot (fold (\<lambda>t. boot_cycle False t) crashes g))) =
          min (unat (count (load_boot g)) + length crashes) (2 ^ 32 - 1)" for g
  proof (induction crashes arbitrary: g)
    case Nil
    then show ?case using unat_le_max [of "count (load_boot g)"] by (simp add: min_absorb1)
  next
    case (Cons t ts)
    show ?case by (simp add: Cons.IH load_boot_cycle_crash wordnat)
  qed
  show "should_revert (load_boot (fold (\<lambda>t. boot_cycle False t) crashes (boot_cycle True t0 f)))
     REVERT_THRESHOLD = (3 \<le> length crashes)"
    by (auto simp: should_revert_def REVERT_THRESHOLD_def word_le_nat_alt len load_boot_cycle_ready
        default_BootAttempts_def)
  show "reverted_to (load_boot (fold (\<lambda>t. boot_cycle False t) crashes f)) = reverted_to (load_boot f)"
    by (induction crashes arbitrary: f) (simp_all add: load_boot_cycle_crash)
  show "reverted_to (load_boot (boot_cycle True t0 f)) = None"
    by (simp add: load_boot_cycle_ready default_BootAttempts_def)
qed


text \<open>The reboots of a run of requests: each entry is a request's clock and whether it comes from the
  signed \<open>RebootHost\<close> verb or from the tier-2 escalation; every history write lands.\<close>

datatype reboot_source = Verb | Tier2

fun request_reboot :: "reboot_source \<Rightarrow> u64 \<Rightarrow> reboot_file \<Rightarrow> bool \<times> reboot_file" where
  "request_reboot Verb now f = reboot_host now Written f"
| "request_reboot Tier2 now f = apply_tier2 Reboot now Written f"

fun host_reboots :: "(reboot_source \<times> u64) list \<Rightarrow> reboot_file \<Rightarrow> u64 list" where
  "host_reboots [] f = []"
| "host_reboots ((src, now) # rs) f =
     (case request_reboot src now f of (granted, f') \<Rightarrow>
        (if granted then [now] else []) @ host_reboots rs f')"

text \<open>A reboot history in which any four successive reboots span more than the window.\<close>

definition spaced :: "u64 list \<Rightarrow> bool" where
  "spaced h \<longleftrightarrow> (\<forall>i < length h - 3. unat (h ! i) + 3600 < unat (h ! (i + 3)))"

lemma request_reboot_try: "request_reboot src now f = try_reboot now Written f"
  by (cases src) (auto simp: reboot_host_def apply_tier2_def split: prod.splits)

lemma retained_last_three:
  fixes G :: "u64 list"
  assumes "sorted G" "3 \<le> length G" "lo \<le> G ! (length G - 3)"
  shows "3 \<le> length (filter (\<lambda>t. lo \<le> t) G)"
proof -
  let ?D = "drop (length G - 3) G"
  have "lo \<le> x" if x: "x \<in> set ?D" for x
  proof -
    obtain j where j: "j < length ?D" "x = ?D ! j" using x by (auto simp only: in_set_conv_nth)
    then have "x = G ! (length G - 3 + j)" "length G - 3 + j < length G"
      using assms(2) by auto
    then have "G ! (length G - 3) \<le> x"
      using sorted_nth_mono [OF assms(1), of "length G - 3" "length G - 3 + j"] by simp
    then show ?thesis by (rule order_trans [OF assms(3)])
  qed
  then have "filter (\<lambda>t. lo \<le> t) ?D = ?D" by (intro filter_True) blast
  moreover have "filter (\<lambda>t. lo \<le> t) G =
      filter (\<lambda>t. lo \<le> t) (take (length G - 3) G) @ filter (\<lambda>t. lo \<le> t) ?D"
    by (metis append_take_drop_id filter_append)
  ultimately show ?thesis using assms(2) by simp
qed

lemma spaced_append:
  assumes "sorted G" "spaced G" "length (filter (\<lambda>t. sat_sub now WINDOW_SECS \<le> t) G) < 3"
  shows "spaced (G @ [now])"
proof -
  have "unat (G ! (length G - 3)) + 3600 < unat now" if "3 \<le> length G"
  proof -
    have "\<not> sat_sub now WINDOW_SECS \<le> G ! (length G - 3)"
      using retained_last_three [OF assms(1) that] assms(3) by fastforce
    then show ?thesis by (simp add: word_le_nat_alt wordnat WINDOW_SECS_def)
  qed
  note last = this
  show ?thesis
    unfolding spaced_def
  proof (intro allI impI)
    fix i assume i: "i < length (G @ [now]) - 3"
    show "unat ((G @ [now]) ! i) + 3600 < unat ((G @ [now]) ! (i + 3))"
    proof (cases "i + 3 < length G")
      case True
      with assms(2) show ?thesis by (simp add: spaced_def nth_append)
    next
      case False
      with i have "i + 3 = length G" by simp
      then show ?thesis using last by (simp add: nth_append) (metis diff_add_inverse2 le_add2)
    qed
  qed
qed

lemma host_reboots_spaced:
  fixes tl :: u64
  assumes "sorted (tl # map snd rs)" "sorted G" "\<forall>g \<in> set G. g \<le> tl" "spaced G"
    and "\<And>c. sat_sub tl WINDOW_SECS \<le> c \<Longrightarrow>
           filter (\<lambda>t. c \<le> t) (load_reboots f) = filter (\<lambda>t. c \<le> t) G"
  shows "spaced (G @ host_reboots rs f)"
  using assms
proof (induction rs arbitrary: tl f G)
  case Nil
  then show ?case by simp
next
  case (Cons r rs)
  obtain src now where r: "r = (src, now)" by (cases r)
  let ?lo = "sat_sub now WINDOW_SECS"
  have le: "tl \<le> now" using Cons.prems(1) r by simp
  then have lo: "sat_sub tl WINDOW_SECS \<le> ?lo"
    by (simp add: word_le_nat_alt wordnat diff_le_mono)
  have h: "filter (\<lambda>t. ?lo \<le> t) (load_reboots f) = filter (\<lambda>t. ?lo \<le> t) G"
    by (rule Cons.prems(5) [OF lo])
  have sorted_rest: "sorted (now # map snd rs)" using Cons.prems(1) r by simp
  have below: "\<forall>g \<in> set G. g \<le> now" using Cons.prems(3) le by (meson order_trans)
  have keep: "filter (\<lambda>t. c \<le> t) (filter (\<lambda>t. ?lo \<le> t) G) = filter (\<lambda>t. c \<le> t) G"
    if "?lo \<le> c" for c
    using that by (auto intro!: filter_cong dest: order_trans)
  show ?case
  proof (cases "MAX_PER_WINDOW \<le> length (filter (\<lambda>t. ?lo \<le> t) G)")
    case True
    then have "host_reboots (r # rs) f = host_reboots rs (Some (filter (\<lambda>t. ?lo \<le> t) G))"
      by (simp add: r request_reboot_try try_reboot_def Let_def h)
    then show ?thesis
      using Cons.IH [OF sorted_rest Cons.prems(2) below Cons.prems(4)] keep
      by (simp add: load_reboots_def)
  next
    case False
    then have run: "host_reboots (r # rs) f =
        now # host_reboots rs (Some (filter (\<lambda>t. ?lo \<le> t) G @ [now]))"
      by (simp add: r request_reboot_try try_reboot_def Let_def h)
    have "spaced ((G @ [now]) @ host_reboots rs (Some (filter (\<lambda>t. ?lo \<le> t) G @ [now])))"
    proof (rule Cons.IH [OF sorted_rest])
      show "sorted (G @ [now])" using Cons.prems(2) below by (simp add: sorted_append)
      show "\<forall>g \<in> set (G @ [now]). g \<le> now" using below by auto
      show "spaced (G @ [now])"
        using spaced_append [OF Cons.prems(2,4)] False by (simp add: MAX_PER_WINDOW_def)
    qed (use keep in \<open>simp add: load_reboots_def\<close>)
    then show ?thesis by (simp add: run)
  qed
qed

text \<open>C37: No host is rebooted more than three times an hour by the program: over any run of requests
  from the \<open>RebootHost\<close> verb and the tier-2 escalation together, with a clock that does not go back and a
  history file that can be written, any reboot comes more than 3600 seconds after the third reboot
  before it, the reboots already in the file counted.\<close>

theorem reboot_budget:
  assumes "sorted (map snd requests)" "sorted (load_reboots f)" "spaced (load_reboots f)"
    and "\<forall>old \<in> set (load_reboots f). \<forall>r \<in> set requests. old \<le> snd r"
  shows "spaced (load_reboots f @ host_reboots requests f)"
proof (cases requests)
  case Nil
  with assms(3) show ?thesis by simp
next
  case (Cons r rs)
  show ?thesis
    by (rule host_reboots_spaced [where tl = "snd r"]) (use assms Cons in auto)
qed

theorem reboot_budget_witness:
  "spaced ([100] @ host_reboots [(Verb, 200), (Tier2, 300), (Verb, 400), (Tier2, 3701)] (Some [100]))"
  using reboot_budget [of "[(Verb, 200), (Tier2, 300), (Verb, 400), (Tier2, 3701)]" "Some [100]"]
  by (simp add: load_reboots_def spaced_def)

text \<open>The loop-guard fails open. When the history file is missing and cannot be written, every
  request is granted, however many came before.\<close>

theorem unwritable_guard_always_grants:
  "fst (try_reboot now NotWritten (fold (\<lambda>t f. snd (try_reboot t NotWritten f)) before None))"
proof -
  have "fold (\<lambda>t f. snd (try_reboot t NotWritten f)) before None = None"
    by (induction before) (simp_all add: try_reboot_def Let_def load_reboots_def MAX_PER_WINDOW_def)
  then show ?thesis
    by (simp add: try_reboot_def Let_def load_reboots_def MAX_PER_WINDOW_def)
qed

text \<open>A pet is withheld (so that systemd kills the process) only on a dead data plane of a relay-only
  node whose process has been up for the backoff of its restart count, min (30 * 2^(n-1), 600) seconds
  after n restarts that did not help, and at once for n = 0.\<close>

theorem withhold_iff:
  "run_once healthy sent relay_only uptime n = Withheld \<longleftrightarrow>
     \<not> healthy \<and> relay_only \<and>
     (if n = 0 then 0 else min (30 * 2 ^ (unat n - 1)) 600) * 1000000000 \<le> uptime"
  by (cases healthy; cases relay_only; cases sent)
     (simp_all add: run_once_def guard_black_hole_def decide_pet_def withhold_allowed_def
       backoff_floor_def from_secs_def backoff_floor_ladder)

definition tier2_boot :: "(bool \<times> u64) \<Rightarrow> DeadStreak option \<times> reboot_file \<Rightarrow> DeadStreak option \<times> reboot_file" where
  "tier2_boot obs st =
     (case obs of (healthy, now) \<Rightarrow> snd (run_tier2_boot_check healthy now Written Written (fst st) (snd st)))"

lemma tier2_streak:
  "consecutive_dead (load_dead_streak (fst (tier2_boot (healthy, now) st))) =
     (if healthy then 0
      else if 3 \<le> sat_add (consecutive_dead (load_dead_streak (fst st))) 1 then 0
      else sat_add (consecutive_dead (load_dead_streak (fst st))) 1)"
  by (auto simp: tier2_boot_def run_tier2_boot_check_def Let_def fold_observation_def escalate_decision_def
      REBOOT_AFTER_CONSECUTIVE_DEAD_def load_dead_streak_def default_DeadStreak_def split: prod.splits)

lemma tier2_streak_trailing:
  "k = unat (consecutive_dead (load_dead_streak (fst (fold tier2_boot obs (None, guard))))) \<Longrightarrow>
     k \<le> 2 \<and> k \<le> length obs \<and> (\<forall>ob \<in> set (drop (length obs - k) obs). \<not> fst ob)"
proof (induction obs arbitrary: k rule: rev_induct)
  case Nil
  then show ?case by (simp add: load_dead_streak_def default_DeadStreak_def)
next
  case (snoc ob obs)
  obtain healthy now where ob: "ob = (healthy, now)" by (cases ob)
  define k0 where "k0 = unat (consecutive_dead (load_dead_streak (fst (fold tier2_boot obs (None, guard)))))"
  have IH: "k0 \<le> 2" "k0 \<le> length obs" "\<forall>ob \<in> set (drop (length obs - k0) obs). \<not> fst ob"
    using snoc.IH [OF k0_def] by auto
  have k: "k = (if healthy then 0 else if 2 \<le> k0 then 0 else k0 + 1)"
    using snoc.prems IH(1) by (simp add: ob tier2_streak k0_def word_le_nat_alt wordnat)
  show ?case
  proof (cases "k = 0")
    case False
    with k have "k = k0 + 1" "\<not> healthy" by (auto split: if_splits)
    moreover have "k \<le> 2" using k by (auto split: if_splits)
    ultimately show ?thesis using IH by (simp add: ob Suc_diff_le)
  qed simp
qed

text \<open>The once-per-boot check reboots the host only at the third boot in a row whose data plane is
  dead, and resets the streak then even when the loop-guard refuses the reboot: from an empty streak, a
  run of boots that ends with a reboot ends with three dead samples.\<close>

theorem tier2_reboot_needs_three_dead_boots:
  assumes "fold tier2_boot obs (None, guard) = (streak, guard')"
    and "fst (run_tier2_boot_check healthy now ws wg streak guard')"
  shows "\<not> healthy \<and> 2 \<le> length obs \<and> (\<forall>ob \<in> set (drop (length obs - 2) obs). \<not> fst ob)"
proof -
  define k where "k = unat (consecutive_dead (load_dead_streak (fst (fold tier2_boot obs (None, guard)))))"
  have "\<not> healthy" "3 \<le> unat (sat_add (consecutive_dead (load_dead_streak streak)) 1)"
    using assms(2)
    by (auto simp: run_tier2_boot_check_def Let_def apply_tier2_def escalate_decision_def
        fold_observation_def REBOOT_AFTER_CONSECUTIVE_DEAD_def word_le_nat_alt
        split: prod.splits if_splits)
  then have "2 \<le> k" "\<not> healthy" using assms(1) by (auto simp: k_def wordnat)
  with tier2_streak_trailing [OF k_def] have "k = 2" "\<not> healthy" by auto
  with tier2_streak_trailing [OF k_def] show ?thesis by auto
qed

theorem tier2_reboot_needs_three_dead_boots_witness:
  "fold tier2_boot [(True, 10), (False, 20), (False, 30)] (None, None) =
     (Some \<lparr>consecutive_dead = 2\<rparr>, None) \<and>
   fst (run_tier2_boot_check False 40 Written Written (Some \<lparr>consecutive_dead = 2\<rparr>) None) \<and>
   \<not> False \<and> 2 \<le> length [(True, 10 :: u64), (False, 20), (False, 30)]"
proof -
  have live: "tier2_boot (True, 10) (None, None) = (Some \<lparr>consecutive_dead = 0\<rparr>, None)"
    and dead1: "tier2_boot (False, 20) (Some \<lparr>consecutive_dead = 0\<rparr>, None) = (Some \<lparr>consecutive_dead = 1\<rparr>, None)"
    and dead2: "tier2_boot (False, 30) (Some \<lparr>consecutive_dead = 1\<rparr>, None) = (Some \<lparr>consecutive_dead = 2\<rparr>, None)"
    by (simp_all add: tier2_boot_def run_tier2_boot_check_def fold_observation_def escalate_decision_def
        load_dead_streak_def default_DeadStreak_def apply_tier2_def REBOOT_AFTER_CONSECUTIVE_DEAD_def sat_add_def
        word_le_nat_alt)
  have a: "fold tier2_boot [(True, 10), (False, 20), (False, 30)] (None, None) =
      (Some \<lparr>consecutive_dead = 2\<rparr>, None)"
    by (simp add: live dead1 dead2)
  have b: "fst (run_tier2_boot_check False 40 Written Written (Some \<lparr>consecutive_dead = 2\<rparr>) None)"
    by (simp add: run_tier2_boot_check_def fold_observation_def escalate_decision_def
        load_dead_streak_def default_DeadStreak_def apply_tier2_def REBOOT_AFTER_CONSECUTIVE_DEAD_def sat_add_def
        try_reboot_def Let_def load_reboots_def MAX_PER_WINDOW_def)
  show ?thesis using a b tier2_reboot_needs_three_dead_boots [OF a b] by blast
qed

end
