(* ===== verification/SelfUpdate.thy ===== *)
theory SelfUpdate
  imports SelfHeal
begin

unbundle bit_operations_syntax

text \<open>
  The self-update engine up to the swap: the VERSION ledger and its rotation, the symlink re-point and the
  rollback (\<open>src/src/selfupdate/swap.rs\<close>, \<open>watchdog.rs: revert_to_previous\<close>), the verified fetch
  (\<open>fetch.rs\<close>, \<open>manifest.rs\<close>), the candidate gate (\<open>probe.rs\<close>) and the update flow (\<open>run.rs\<close>).
  The state is the install directory: the live symlinks, the ledger as its reader gets it (\<open>None\<close>:
  missing or malformed), the files of the staged releases, the transient candidate identity and the
  systemctl commands issued so far. Digest and release server are parameters.
\<close>

section \<open>The ledger\<close>

definition SWAP_BINARIES :: "string list" where
  "SWAP_BINARIES = [''supervisord'', ''tabbify-runner'']"

definition KEEP_PREVIOUS :: nat where "KEEP_PREVIOUS = 3"

definition SUPERVISOR_UNIT :: string where "SUPERVISOR_UNIT = ''tabbify-supervisor''"

record VersionFile =
  current :: string
  previous :: "string list"
  pending_confirm :: "string option"
  quarantine :: "string list"

definition default_VersionFile :: VersionFile where
  "default_VersionFile = \<lparr>current = [], previous = [], pending_confirm = None, quarantine = []\<rparr>"

definition is_quarantined :: "VersionFile \<Rightarrow> string \<Rightarrow> bool" where
  "is_quarantined vf version \<longleftrightarrow> list_ex (\<lambda>v. v = version) (quarantine vf)"

definition quarantine_version :: "VersionFile \<Rightarrow> string \<Rightarrow> VersionFile" where
  "quarantine_version vf version =
     (if \<not> list_ex (\<lambda>v. v = version) (quarantine vf)
      then vf\<lparr>quarantine := quarantine vf @ [version]\<rparr> else vf)"

definition push_version :: "VersionFile \<Rightarrow> string \<Rightarrow> nat \<Rightarrow> VersionFile" where
  "push_version vf new keep =
     (let vf1 = (if current vf \<noteq> [] \<and> current vf \<noteq> new
                 then vf\<lparr>previous := take keep (current vf # previous vf)\<rparr> else vf)
      in vf1\<lparr>current := new, pending_confirm := None\<rparr>)"

definition mark_pending_confirm :: "VersionFile \<Rightarrow> string \<Rightarrow> VersionFile" where
  "mark_pending_confirm vf version = vf\<lparr>pending_confirm := Some version\<rparr>"

definition pending_confirm_of :: "VersionFile \<Rightarrow> string option" where
  "pending_confirm_of vf = pending_confirm vf"

definition clear_pending_confirm :: "VersionFile \<Rightarrow> VersionFile" where
  "clear_pending_confirm vf = vf\<lparr>pending_confirm := None\<rparr>"

section \<open>The install directory\<close>

type_synonym path = string
type_synonym bytes = "u8 list"

text \<open>\<open>Path::join\<close>.\<close>

definition path_join :: "path \<Rightarrow> string \<Rightarrow> path" where
  "path_join dir name =
     (if take 1 name = ''/'' then name
      else if dir = [] \<or> last dir = CHR ''/'' then dir @ name
      else dir @ ''/'' @ name)"

text \<open>A file as \<open>metadata\<close> sees it, symlinks followed; the mode bits are written in hexadecimal
  (\<open>0o111\<close> is \<open>0x49\<close>, \<open>0o755\<close> is \<open>0x1ED\<close>).\<close>

record staged_file =
  contents :: bytes
  regular :: bool
  mode :: u32

record install =
  links :: "string \<rightharpoonup> path"
  version_file :: "VersionFile option"
  files :: "path \<rightharpoonup> staged_file"
  candidate_identity :: bool
  systemctl :: "string list list"

datatype update_error =
    NoLedger
  | NoPreviousRecorded
  | NoCompletePrevious
  | RepointFailed string
  | VersionWriteFailed
  | FetchFailed
  | NoDigest string
  | DigestMismatch string
  | StageWriteFailed string
  | MissingBinary string
  | ProbeError
  | GateFailed

text \<open>How the file operations of one call end: the re-point of each binary, the ledger rewrite.\<close>

record swap_io =
  link_ok :: "string \<Rightarrow> bool"
  version_ok :: bool

definition all_ok :: swap_io where
  "all_ok = \<lparr>link_ok = (\<lambda>_. True), version_ok = True\<rparr>"

definition staged_binary_is_runnable :: "install \<Rightarrow> path \<Rightarrow> string \<Rightarrow> bool" where
  "staged_binary_is_runnable st version_dir bin =
     (case files st (path_join version_dir bin) of
        Some meta \<Rightarrow> regular meta \<and> mode meta AND 0x49 \<noteq> 0
      | None \<Rightarrow> False)"

definition release_is_complete :: "install \<Rightarrow> path \<Rightarrow> bool" where
  "release_is_complete st version_dir =
     list_all (staged_binary_is_runnable st version_dir) SWAP_BINARIES"

definition repoint_symlink :: "bool \<Rightarrow> string \<Rightarrow> path \<Rightarrow> install \<Rightarrow> bool \<times> install" where
  "repoint_symlink ok name target st =
     (if ok then (True, st\<lparr>links := (links st)(name \<mapsto> target)\<rparr>) else (False, st))"

text \<open>The loop over the binaries with its early return: the binary whose re-point failed, or none.\<close>

fun repoint_all ::
  "(string \<Rightarrow> bool) \<Rightarrow> path \<Rightarrow> string list \<Rightarrow> install \<Rightarrow> string option \<times> install" where
  "repoint_all ok version_dir [] st = (None, st)"
| "repoint_all ok version_dir (bin # bins) st =
     (case repoint_symlink (ok bin) bin (path_join version_dir bin) st of
        (True, st1) \<Rightarrow> repoint_all ok version_dir bins st1
      | (False, st1) \<Rightarrow> (Some bin, st1))"

definition read_version_file :: "install \<Rightarrow> VersionFile option" where
  "read_version_file st = version_file st"

definition write_version_file :: "bool \<Rightarrow> VersionFile \<Rightarrow> install \<Rightarrow> bool \<times> install" where
  "write_version_file ok vf st =
     (if ok then (True, st\<lparr>version_file := Some vf\<rparr>) else (False, st))"

text \<open>The restart trigger, whose result is only logged.\<close>

definition trigger_restart :: "install \<Rightarrow> install" where
  "trigger_restart st = st\<lparr>systemctl := systemctl st @ [[''restart'', SUPERVISOR_UNIT]]\<rparr>"

definition swap_to ::
  "swap_io \<Rightarrow> path \<Rightarrow> string \<Rightarrow> install \<Rightarrow> (update_error + unit) \<times> install" where
  "swap_to io version_dir version st =
     (case repoint_all (link_ok io) version_dir SWAP_BINARIES st of
        (Some bin, st1) \<Rightarrow> (Inl (RepointFailed bin), st1)
      | (None, st1) \<Rightarrow>
          let vf = (case read_version_file st1 of Some vf \<Rightarrow> vf | None \<Rightarrow> default_VersionFile);
              next_vf = push_version vf version KEEP_PREVIOUS
          in case write_version_file (version_ok io) next_vf st1 of
               (False, st2) \<Rightarrow> (Inl VersionWriteFailed, st2)
             | (True, st2) \<Rightarrow> (Inr (), trigger_restart st2))"

definition revert_to_previous ::
  "swap_io \<Rightarrow> (install \<Rightarrow> install) \<Rightarrow> path \<Rightarrow> install \<Rightarrow> (update_error + string) \<times> install" where
  "revert_to_previous io restart releases_dir st =
     (case read_version_file st of
        None \<Rightarrow> (Inl NoLedger, st)
      | Some vf \<Rightarrow>
          if previous vf = [] then (Inl NoPreviousRecorded, st)
          else case position (\<lambda>v. release_is_complete st (path_join releases_dir v)) (previous vf) of
                 None \<Rightarrow> (Inl NoCompletePrevious, st)
               | Some skipped \<Rightarrow>
                   let target = previous vf ! skipped in
                   case repoint_all (link_ok io) (path_join releases_dir target) SWAP_BINARIES st of
                     (Some bin, st1) \<Rightarrow> (Inl (RepointFailed bin), st1)
                   | (None, st1) \<Rightarrow>
                       let restored = \<lparr>current = target, previous = drop (Suc skipped) (previous vf),
                                       pending_confirm = None, quarantine = quarantine vf\<rparr>
                       in case write_version_file (version_ok io) restored st1 of
                            (False, st2) \<Rightarrow> (Inl VersionWriteFailed, st2)
                          | (True, st2) \<Rightarrow> (Inr target, restart st2))"

section \<open>The verified fetch\<close>

record LatestManifest =
  latest :: string
  versions :: "string list"
  sha256 :: "string \<rightharpoonup> string"
  ts :: string

definition sha256_for :: "LatestManifest \<Rightarrow> string \<Rightarrow> string option" where
  "sha256_for man binary = sha256 man binary"

text \<open>What the release server and the staging writes answer, and the digest.\<close>

record release_env =
  manifest :: "LatestManifest option"
  get_bytes :: "string \<Rightarrow> bytes option"
  dir_ok :: bool
  write_ok :: "string \<Rightarrow> bool"
  hex_sha256 :: "bytes \<Rightarrow> string"

record VersionFetcher =
  base_url :: string
  arch :: string
  releases_dir :: path

definition new_fetcher :: "string \<Rightarrow> string \<Rightarrow> path \<Rightarrow> VersionFetcher" where
  "new_fetcher url a dir =
     \<lparr>base_url = rev (dropWhile (\<lambda>c. c = CHR ''/'') (rev url)), arch = a, releases_dir = dir\<rparr>"

definition version_dir :: "VersionFetcher \<Rightarrow> string \<Rightarrow> path" where
  "version_dir f version = path_join (releases_dir f) version"

definition binary_url :: "VersionFetcher \<Rightarrow> string \<Rightarrow> string \<Rightarrow> string" where
  "binary_url f version bin =
     base_url f @ ''/supervisor/'' @ version @ ''/'' @ arch f @ ''/'' @ bin"

text \<open>The digest an architecture must match: its own key first, the plain key otherwise.\<close>

definition expected_sha :: "LatestManifest \<Rightarrow> string \<Rightarrow> string \<Rightarrow> string option" where
  "expected_sha man ar bin = opt_or (sha256_for man (bin @ ''_'' @ ar)) (sha256_for man bin)"

definition write_executable :: "bool \<Rightarrow> path \<Rightarrow> bytes \<Rightarrow> install \<Rightarrow> bool \<times> install" where
  "write_executable ok p bs st =
     (if ok then (True, st\<lparr>files := (files st)(p \<mapsto> \<lparr>contents = bs, regular = True, mode = 0x1ED\<rparr>)\<rparr>)
      else (False, st))"

fun fetch_bins ::
  "release_env \<Rightarrow> VersionFetcher \<Rightarrow> LatestManifest \<Rightarrow> string \<Rightarrow> path \<Rightarrow> string list \<Rightarrow> install \<Rightarrow>
   (update_error + path) \<times> install" where
  "fetch_bins env f man version dir [] st = (Inr dir, st)"
| "fetch_bins env f man version dir (bin # bins) st =
     (case get_bytes env (binary_url f version bin) of
        None \<Rightarrow> (Inl FetchFailed, st)
      | Some bs \<Rightarrow>
          (case expected_sha man (arch f) bin of
             None \<Rightarrow> (Inl (NoDigest bin), st)
           | Some expected \<Rightarrow>
               if hex_sha256 env bs \<noteq> expected then (Inl (DigestMismatch bin), st)
               else (case write_executable (write_ok env bin) (path_join dir bin) bs st of
                       (False, st1) \<Rightarrow> (Inl (StageWriteFailed bin), st1)
                     | (True, st1) \<Rightarrow> fetch_bins env f man version dir bins st1)))"

definition fetch_version ::
  "release_env \<Rightarrow> VersionFetcher \<Rightarrow> string \<Rightarrow> install \<Rightarrow> (update_error + path) \<times> install" where
  "fetch_version env f version st =
     (case manifest env of
        None \<Rightarrow> (Inl FetchFailed, st)
      | Some man \<Rightarrow>
          let dir = version_dir f version in
          if \<not> dir_ok env then (Inl FetchFailed, st)
          else fetch_bins env f man version dir SWAP_BINARIES st)"

section \<open>The candidate gate\<close>

record GateInputs =
  launched :: bool
  health_200 :: bool
  pong :: bool
  elapsed_secs :: u64

datatype gate_failure = TimedOut u64 | NotLaunched | HealthNot200 | LivenessNot200

datatype ProbeOutcome = Pass | Fail gate_failure

definition evaluate_gate :: "GateInputs \<Rightarrow> u64 \<Rightarrow> ProbeOutcome" where
  "evaluate_gate i timeout_secs =
     (if timeout_secs < elapsed_secs i then Fail (TimedOut (elapsed_secs i))
      else if \<not> launched i then Fail NotLaunched
      else if \<not> health_200 i then Fail HealthNot200
      else if \<not> pong i then Fail LivenessNot200
      else Pass)"

text \<open>How the spawned candidate ends: it cannot be spawned, it cannot be waited for, it runs over the
  gate timeout (and is killed), or it exits.\<close>

datatype candidate_end = SpawnError | WaitError | OverTimeout | Exited int

fun production_candidate_probe :: "candidate_end \<Rightarrow> bool option" where
  "production_candidate_probe SpawnError = None"
| "production_candidate_probe WaitError = None"
| "production_candidate_probe OverTimeout = Some False"
| "production_candidate_probe (Exited code) = Some (code = 0)"

section \<open>The update flow\<close>

datatype SelfUpdateOutcome = AlreadyCurrent string | Swapped string

definition cleanup_candidate_identity :: "bool \<Rightarrow> install \<Rightarrow> install" where
  "cleanup_candidate_identity ok st =
     (if candidate_identity st then (if ok then st\<lparr>candidate_identity := False\<rparr> else st) else st)"

text \<open>The seams of one update: the release server, the file operations, the candidate.\<close>

record update_env =
  release :: release_env
  swap :: swap_io
  candidate :: candidate_end
  leaves_identity :: bool
  cleanup_ok :: bool

definition self_update_to ::
  "update_env \<Rightarrow> VersionFetcher \<Rightarrow> string \<Rightarrow> install \<Rightarrow>
   (update_error + SelfUpdateOutcome) \<times> install" where
  "self_update_to env f version st =
     (if (case read_version_file st of Some vf \<Rightarrow> current vf = version \<or> is_quarantined vf version
                                     | None \<Rightarrow> False)
      then (Inr (AlreadyCurrent version), st)
      else case fetch_version (release env) f version st of
             (Inl e, st1) \<Rightarrow> (Inl e, st1)
           | (Inr dir, st1) \<Rightarrow>
               (case List.find (\<lambda>bin. \<not> (case files st1 (path_join dir bin) of
                                             Some meta \<Rightarrow> regular meta | None \<Rightarrow> False)) SWAP_BINARIES of
                  Some bin \<Rightarrow> (Inl (MissingBinary bin), st1)
                | None \<Rightarrow>
                    let st2 = (if leaves_identity env then st1\<lparr>candidate_identity := True\<rparr> else st1) in
                    (case production_candidate_probe (candidate env) of
                       None \<Rightarrow> (Inl ProbeError, st2)
                     | Some False \<Rightarrow> (Inl GateFailed, cleanup_candidate_identity (cleanup_ok env) st2)
                     | Some True \<Rightarrow>
                         (case repoint_all (link_ok (swap env)) dir SWAP_BINARIES st2 of
                            (Some bin, st3) \<Rightarrow> (Inl (RepointFailed bin), st3)
                          | (None, st3) \<Rightarrow>
                              let vf = (case read_version_file st3 of
                                          Some vf \<Rightarrow> vf | None \<Rightarrow> default_VersionFile);
                                  next_vf = mark_pending_confirm
                                              (push_version vf version KEEP_PREVIOUS) version
                              in case write_version_file (version_ok (swap env)) next_vf st3 of
                                   (False, st4) \<Rightarrow> (Inl VersionWriteFailed, st4)
                                 | (True, st4) \<Rightarrow>
                                     (Inr (Swapped version),
                                      trigger_restart
                                        (cleanup_candidate_identity (cleanup_ok env) st4))))))"

section \<open>The pieces of a swap\<close>

lemma repoint_all_frame:
  "repoint_all ok dir bins st = (res, st') \<Longrightarrow>
     version_file st' = version_file st \<and> files st' = files st \<and>
     candidate_identity st' = candidate_identity st \<and> systemctl st' = systemctl st"
  by (induction bins arbitrary: st) (auto simp: repoint_symlink_def split: if_splits)

lemma repoint_all_links:
  "repoint_all ok dir bins st = (None, st') \<Longrightarrow>
     links st' = (\<lambda>n. if n \<in> set bins then Some (path_join dir n) else links st n)"
proof (induction bins arbitrary: st)
  case (Cons b bins)
  then have "ok b" "repoint_all ok dir bins (st\<lparr>links := (links st)(b \<mapsto> path_join dir b)\<rparr>) = (None, st')"
    by (auto simp: repoint_symlink_def split: if_splits)
  from Cons.IH [OF this(2)] show ?case by (auto simp: fun_eq_iff)
qed simp

lemma repoint_all_ok: "list_all ok bins \<Longrightarrow> fst (repoint_all ok dir bins st) = None"
  by (induction bins arbitrary: st) (auto simp: repoint_symlink_def)

lemma complete_files: "files st' = files st \<Longrightarrow> release_is_complete st' d = release_is_complete st d"
  by (simp add: release_is_complete_def staged_binary_is_runnable_def SWAP_BINARIES_def)

text \<open>Every live binary resolves to a runnable file of the release it points into.\<close>

definition links_runnable :: "install \<Rightarrow> bool" where
  "links_runnable st =
     list_all (\<lambda>bin. case links st bin of
                 None \<Rightarrow> False
               | Some p \<Rightarrow> (case files st p of
                             Some meta \<Rightarrow> regular meta \<and> mode meta AND 0x49 \<noteq> 0 | None \<Rightarrow> False))
       SWAP_BINARIES"

lemma links_runnable_complete:
  assumes "links st = (\<lambda>n. if n \<in> set SWAP_BINARIES then Some (path_join d n) else l n)"
    and "release_is_complete st d"
  shows "links_runnable st"
  using assms by (simp add: links_runnable_def release_is_complete_def staged_binary_is_runnable_def
      SWAP_BINARIES_def split: option.splits)

section \<open>Rollback\<close>

lemma revert_success:
  assumes "revert_to_previous io id rd st = (Inr target, st')"
  obtains vf skipped st1 where
    "version_file st = Some vf" "skipped < length (previous vf)" "target = previous vf ! skipped"
    "release_is_complete st (path_join rd target)"
    "\<forall>j < skipped. \<not> release_is_complete st (path_join rd (previous vf ! j))"
    "repoint_all (link_ok io) (path_join rd target) SWAP_BINARIES st = (None, st1)"
    "st' = st1\<lparr>version_file := Some \<lparr>current = target, previous = drop (Suc skipped) (previous vf),
       pending_confirm = None, quarantine = quarantine vf\<rparr>\<rparr>"
proof -
  obtain vf where vf: "version_file st = Some vf" "previous vf \<noteq> []"
    using assms by (auto simp: revert_to_previous_def read_version_file_def split: option.splits if_splits)
  obtain skipped where sk:
    "position (\<lambda>v. release_is_complete st (path_join rd v)) (previous vf) = Some skipped"
    using assms vf by (auto simp: revert_to_previous_def read_version_file_def split: option.splits)
  let ?t = "previous vf ! skipped"
  obtain st1 where st1: "repoint_all (link_ok io) (path_join rd ?t) SWAP_BINARIES st = (None, st1)"
    and rest: "target = ?t" "st' = st1\<lparr>version_file := Some \<lparr>current = ?t,
       previous = drop (Suc skipped) (previous vf), pending_confirm = None, quarantine = quarantine vf\<rparr>\<rparr>"
    using assms vf sk
    by (auto simp: revert_to_previous_def read_version_file_def write_version_file_def Let_def
        split: option.splits prod.splits if_splits)
  show thesis
    using that [of vf skipped st1] vf st1 rest position_Some [OF sk] by simp
qed


text \<open>A concrete install: two staged releases, the newer one live.\<close>

definition demo_file :: staged_file where
  "demo_file = \<lparr>contents = [1], regular = True, mode = 0x1ED\<rparr>"

definition demo_install :: install where
  "demo_install =
     \<lparr>links = (\<lambda>n. if n \<in> set SWAP_BINARIES then Some (''/r/v2/'' @ n) else None),
      version_file = Some \<lparr>current = ''v2'', previous = [''v0'', ''v1''], pending_confirm = Some ''v2'',
                           quarantine = []\<rparr>,
      files = (\<lambda>p. if p \<in> {''/r/v1/supervisord'', ''/r/v1/tabbify-runner'', ''/r/v2/supervisord'',
                              ''/r/v2/tabbify-runner''} then Some demo_file else None),
      candidate_identity = False, systemctl = []\<rparr>"

lemmas demo_eval = demo_install_def demo_file_def SWAP_BINARIES_def release_is_complete_def
  staged_binary_is_runnable_def path_join_def

lemma demo_revert:
  "fst (revert_to_previous all_ok id ''/r'' demo_install) = Inr ''v1''"
  by (simp add: revert_to_previous_def read_version_file_def demo_eval all_ok_def repoint_symlink_def
      write_version_file_def Let_def)


text \<open>When none of the recorded previous versions is completely staged, whatever file operations would
  have done, the rollback is an error and the install directory is exactly as it was.\<close>

theorem revert_without_target_touches_nothing:
  assumes "\<And>vf v. version_file st = Some vf \<Longrightarrow> v \<in> set (previous vf) \<Longrightarrow>
             \<not> release_is_complete st (path_join rd v)"
  shows "\<exists>e \<in> {NoLedger, NoPreviousRecorded, NoCompletePrevious}.
           revert_to_previous io restart rd st = (Inl e, st)"
proof (cases "version_file st")
  case None
  then show ?thesis by (simp add: revert_to_previous_def read_version_file_def)
next
  case (Some vf)
  then have "position (\<lambda>v. release_is_complete st (path_join rd v)) (previous vf) = None"
    using assms by (simp add: position_None)
  with Some show ?thesis by (simp add: revert_to_previous_def read_version_file_def)
qed

theorem revert_without_target_touches_nothing_witness:
  "\<exists>e \<in> {NoLedger, NoPreviousRecorded, NoCompletePrevious}.
     revert_to_previous all_ok id ''/empty'' demo_install = (Inl e, demo_install)"
  by (rule revert_without_target_touches_nothing) (auto simp: demo_eval)

section \<open>Fetch\<close>

text \<open>A file of the release directory whose digest is the one the manifest gives the architecture.\<close>

definition verified_file ::
  "release_env \<Rightarrow> VersionFetcher \<Rightarrow> LatestManifest \<Rightarrow> string \<Rightarrow> staged_file option \<Rightarrow> bool" where
  "verified_file env f man bin file =
     (case file of
        None \<Rightarrow> False
      | Some meta \<Rightarrow> regular meta \<and> mode meta = 0x1ED \<and>
          expected_sha man (arch f) bin = Some (hex_sha256 env (contents meta)))"

lemma fetch_bins_cases:
  assumes "fetch_bins env f man version dir (bin # bins) st = (res, st')"
  shows "(\<exists>e. res = Inl e \<and> st' = st) \<or>
    (\<exists>bs. get_bytes env (binary_url f version bin) = Some bs \<and>
       expected_sha man (arch f) bin = Some (hex_sha256 env bs) \<and>
       fetch_bins env f man version dir bins
         (st\<lparr>files := (files st)(path_join dir bin \<mapsto> \<lparr>contents = bs, regular = True, mode = 0x1ED\<rparr>)\<rparr>) =
       (res, st'))"
  using assms by (auto simp: write_executable_def split: option.splits if_splits)

lemma path_join_binary:
  "path_join dir ''supervisord'' \<noteq> path_join dir ''tabbify-runner''"
  by (simp add: path_join_def)

lemma fetch_bins_frame:
  assumes "fetch_bins env f man version dir bins st = (res, st')"
  shows "links st' = links st \<and> version_file st' = version_file st \<and> systemctl st' = systemctl st \<and>
    candidate_identity st' = candidate_identity st \<and>
    (\<forall>p. files st' p \<noteq> files st p \<longrightarrow>
       (\<exists>bin \<in> set bins. p = path_join dir bin \<and> verified_file env f man bin (files st' p)))"
  using assms
proof (induction bins arbitrary: st)
  case (Cons bin bins)
  from fetch_bins_cases [OF Cons.prems] show ?case
  proof (elim disjE exE conjE)
    fix bs
    let ?st1 = "st\<lparr>files := (files st)(path_join dir bin \<mapsto> \<lparr>contents = bs, regular = True, mode = 0x1ED\<rparr>)\<rparr>"
    assume sha: "expected_sha man (arch f) bin = Some (hex_sha256 env bs)"
      and rest: "fetch_bins env f man version dir bins ?st1 = (res, st')"
    note ih = Cons.IH [OF rest]
    show ?thesis
    proof (intro conjI allI impI)
      fix p assume diff: "files st' p \<noteq> files st p"
      show "\<exists>b \<in> set (bin # bins). p = path_join dir b \<and> verified_file env f man b (files st' p)"
      proof (cases "files st' p = files ?st1 p")
        case True
        with diff have "p = path_join dir bin" by (auto split: if_splits)
        with True sha show ?thesis by (simp add: verified_file_def)
      next
        case False
        with ih show ?thesis by (meson list.set_intros(2))
      qed
    qed (use ih in auto)
  qed auto
qed simp

lemma fetch_version_frame:
  assumes "fetch_version env f version st = (res, st')"
  shows "links st' = links st \<and> version_file st' = version_file st \<and> systemctl st' = systemctl st \<and>
    candidate_identity st' = candidate_identity st"
  using assms fetch_bins_frame
  by (fastforce simp: fetch_version_def Let_def split: option.splits if_splits)

lemma fetch_version_Inr:
  assumes "fetch_version env f version st = (Inr dir, st')"
  obtains man where "manifest env = Some man" "dir = version_dir f version"
    "verified_file env f man ''supervisord'' (files st' (path_join dir ''supervisord''))"
    "verified_file env f man ''tabbify-runner'' (files st' (path_join dir ''tabbify-runner''))"
    "release_is_complete st' dir"
proof -
  obtain man where man: "manifest env = Some man"
    and run: "fetch_bins env f man version (version_dir f version) SWAP_BINARIES st = (Inr dir, st')"
    using assms by (auto simp: fetch_version_def Let_def split: option.splits if_splits)
  from run have dir: "dir = version_dir f version"
    by (auto simp: SWAP_BINARIES_def write_executable_def split: option.splits if_splits)
  from run have v: "verified_file env f man ''supervisord'' (files st' (path_join dir ''supervisord''))"
    "verified_file env f man ''tabbify-runner'' (files st' (path_join dir ''tabbify-runner''))"
    using path_join_binary [of dir]
    by (auto simp: SWAP_BINARIES_def write_executable_def verified_file_def split: option.splits if_splits)
  then have "release_is_complete st' dir"
    by (auto simp: release_is_complete_def staged_binary_is_runnable_def SWAP_BINARIES_def verified_file_def
        split: option.splits)
  with that man dir v show thesis by blast
qed

text \<open>No unverified binary is staged: every file a fetch changes, also one that fails half way, is one of
  the two release binaries with the digest the manifest lists for this architecture (its own key first,
  the plain key otherwise), and a fetch that succeeds has staged a complete release.\<close>

theorem fetch_stages_only_verified:
  assumes "fetch_version env f version st = (res, st')"
  shows "(\<forall>p. files st' p = files st p \<or>
            (\<exists>man bin. manifest env = Some man \<and> bin \<in> set SWAP_BINARIES \<and>
               p = path_join (version_dir f version) bin \<and> verified_file env f man bin (files st' p))) \<and>
         (\<forall>dir. res = Inr dir \<longrightarrow> dir = version_dir f version \<and> release_is_complete st' dir)"
proof
  show "\<forall>p. files st' p = files st p \<or>
            (\<exists>man bin. manifest env = Some man \<and> bin \<in> set SWAP_BINARIES \<and>
               p = path_join (version_dir f version) bin \<and> verified_file env f man bin (files st' p))"
    using assms fetch_bins_frame
    by (fastforce simp: fetch_version_def Let_def split: option.splits if_splits)
  show "\<forall>dir. res = Inr dir \<longrightarrow> dir = version_dir f version \<and> release_is_complete st' dir"
    using assms by (auto elim: fetch_version_Inr)
qed

text \<open>A release server for version v3 whose digest is the decimal length of a file.\<close>

definition demo_release :: release_env where
  "demo_release =
     \<lparr>manifest = Some \<lparr>latest = ''v3'', versions = [''v3''],
        sha256 = [''supervisord_x86'' \<mapsto> ''a'', ''supervisord'' \<mapsto> ''b'', ''tabbify-runner'' \<mapsto> ''a''], ts = ''t''\<rparr>,
      get_bytes = (\<lambda>_. Some [1]), dir_ok = True, write_ok = (\<lambda>_. True),
      hex_sha256 = (\<lambda>bs. if length bs = 1 then ''a'' else ''b'')\<rparr>"

definition demo_fetcher :: VersionFetcher where
  "demo_fetcher = \<lparr>base_url = ''u'', arch = ''x86'', releases_dir = ''/r''\<rparr>"

definition demo_staged :: install where
  "demo_staged = demo_install\<lparr>files := (files demo_install)
     (''/r/v3/supervisord'' \<mapsto> demo_file, ''/r/v3/tabbify-runner'' \<mapsto> demo_file)\<rparr>"

lemma demo_fetch:
  "fetch_version demo_release demo_fetcher ''v3'' demo_install = (Inr ''/r/v3'', demo_staged)"
  by (simp add: fetch_version_def demo_release_def demo_fetcher_def version_dir_def path_join_def
      SWAP_BINARIES_def expected_sha_def sha256_for_def write_executable_def demo_staged_def demo_file_def)

theorem fetch_stages_only_verified_witness:
  "release_is_complete demo_staged ''/r/v3''"
  using fetch_stages_only_verified [OF demo_fetch] by blast

section \<open>The update flow\<close>

text \<open>The stages of an update that was not short-circuited.\<close>

lemma self_update_cases:
  assumes "self_update_to env f version st = (res, st')"
  obtains (current) "res = Inr (AlreadyCurrent version)" "st' = st"
  | (fetch) e where "res = Inl e" "fetch_version (release env) f version st = (Inl e, st')"
      "\<And>b. e \<noteq> RepointFailed b" "e \<noteq> VersionWriteFailed"
  | (probe) e st1 i where "res = Inl e" "fst (fetch_version (release env) f version st) = Inr (version_dir f version)"
      "st1 = snd (fetch_version (release env) f version st)" "st' = st1\<lparr>candidate_identity := i\<rparr>"
      "e = ProbeError \<or> e = GateFailed"
  | (swap) st1 st2 fail st3 where
      "fetch_version (release env) f version st = (Inr (version_dir f version), st1)"
      "candidate env = Exited 0"
      "st2 = (if leaves_identity env then st1\<lparr>candidate_identity := True\<rparr> else st1)"
      "repoint_all (link_ok (swap env)) (version_dir f version) SWAP_BINARIES st2 = (fail, st3)"
      "(\<exists>b. fail = Some b \<and> res = Inl (RepointFailed b) \<and> st' = st3) \<or>
       (fail = None \<and> \<not> version_ok (swap env) \<and> res = Inl VersionWriteFailed \<and> st' = st3) \<or>
       (fail = None \<and> version_ok (swap env) \<and> res = Inr (Swapped version) \<and>
        st' = trigger_restart (cleanup_candidate_identity (cleanup_ok env)
          (st3\<lparr>version_file := Some (mark_pending_confirm
             (push_version (case version_file st of Some vf \<Rightarrow> vf | None \<Rightarrow> default_VersionFile)
                version KEEP_PREVIOUS) version)\<rparr>)))"
proof (cases "(case version_file st of Some vf \<Rightarrow> current vf = version \<or> is_quarantined vf version | None \<Rightarrow> False)")
  case True
  with assms current show thesis by (simp add: self_update_to_def read_version_file_def)
next
  case go: False
  obtain r st1 where fe: "fetch_version (release env) f version st = (r, st1)" by fastforce
  show thesis
  proof (cases r)
    case (Inl e)
    have "(\<forall>b. e \<noteq> RepointFailed b) \<and> e \<noteq> VersionWriteFailed"
      using fe Inl
      by (auto simp: fetch_version_def Let_def SWAP_BINARIES_def write_executable_def
          split: option.splits if_splits)
    moreover have "res = Inl e" "st' = st1"
      using assms go fe Inl by (simp_all add: self_update_to_def read_version_file_def)
    ultimately show thesis using fetch [of e] fe Inl by simp
  next
    case (Inr dir)
    note ok = fetch_version_Inr [OF fe [unfolded Inr]]
    have dir: "dir = version_dir f version" by (rule ok)
    have staged: "List.find (\<lambda>bin. \<not> (case files st1 (path_join dir bin) of
        Some meta \<Rightarrow> regular meta | None \<Rightarrow> False)) SWAP_BINARIES = None"
      by (rule ok) (auto simp: SWAP_BINARIES_def verified_file_def split: option.splits)
    have vf: "version_file st1 = version_file st" using fetch_version_frame [OF fe] by simp
    define st2 where "st2 = (if leaves_identity env then st1\<lparr>candidate_identity := True\<rparr> else st1)"
    have vf2: "version_file st2 = version_file st" using vf by (simp add: st2_def)
    obtain fail st3 where rp: "repoint_all (link_ok (swap env)) dir SWAP_BINARIES st2 = (fail, st3)" by fastforce
    have vf3: "version_file st3 = version_file st" using repoint_all_frame [OF rp] vf2 by simp
    have st2_id: "\<exists>i. st2 = st1\<lparr>candidate_identity := i\<rparr>" "\<exists>i. cleanup_candidate_identity c st2 = st1\<lparr>candidate_identity := i\<rparr>" for c
      by (cases st1; auto simp: st2_def cleanup_candidate_identity_def)+
    have run: "(res, st') =
       (case production_candidate_probe (candidate env) of
          None \<Rightarrow> (Inl ProbeError, st2)
        | Some False \<Rightarrow> (Inl GateFailed, cleanup_candidate_identity (cleanup_ok env) st2)
        | Some True \<Rightarrow>
            (case fail of Some b \<Rightarrow> (Inl (RepointFailed b), st3)
             | None \<Rightarrow> if version_ok (swap env) then (Inr (Swapped version),
                 trigger_restart (cleanup_candidate_identity (cleanup_ok env)
                  (st3\<lparr>version_file := Some (mark_pending_confirm
                     (push_version (case version_file st of Some vf \<Rightarrow> vf | None \<Rightarrow> default_VersionFile)
                        version KEEP_PREVIOUS) version)\<rparr>)))
                else (Inl VersionWriteFailed, st3)))"
      using assms [symmetric] go fe Inr staged rp
      by (auto simp: self_update_to_def read_version_file_def st2_def [symmetric] Let_def vf3
          write_version_file_def split: option.splits bool.splits)
    consider "production_candidate_probe (candidate env) = None"
      | "production_candidate_probe (candidate env) = Some False"
      | "production_candidate_probe (candidate env) = Some True" by (metis (full_types) not_None_eq)
    then show thesis
    proof cases
      case 1
      obtain i where i: "st2 = st1\<lparr>candidate_identity := i\<rparr>" using st2_id(1) by blast
      have "res = Inl ProbeError" "st' = st2" using run 1 by simp_all
      with i show thesis by (intro probe [of ProbeError st1 i]) (simp_all add: fe Inr dir)
    next
      case 2
      obtain i where i: "cleanup_candidate_identity (cleanup_ok env) st2 = st1\<lparr>candidate_identity := i\<rparr>"
        using st2_id(2) by blast
      have "res = Inl GateFailed" "st' = cleanup_candidate_identity (cleanup_ok env) st2"
        using run 2 by simp_all
      with i show thesis by (intro probe [of GateFailed st1 i]) (simp_all add: fe Inr dir)
    next
      case 3
      then have ex: "candidate env = Exited 0" by (cases "candidate env") auto
      show thesis
        by (rule swap [OF fe [unfolded Inr dir] ex st2_def rp [unfolded dir]])
           (use run 3 in \<open>auto split: option.splits if_splits\<close>)
    qed
  qed
qed

text \<open>A quarantined release, or the one already live, is never fetched, probed or swapped: as long as the
  ledger can be read the update leaves the install directory exactly as it was.\<close>

theorem quarantined_target_refused:
  assumes "version_file st = Some vf" "is_quarantined vf version \<or> current vf = version"
  shows "self_update_to env f version st = (Inr (AlreadyCurrent version), st)"
  using assms by (auto simp: self_update_to_def read_version_file_def)

definition demo_update :: update_env where
  "demo_update = \<lparr>release = demo_release, swap = all_ok, candidate = Exited 0,
                  leaves_identity = True, cleanup_ok = True\<rparr>"

theorem quarantined_target_refused_witness:
  "self_update_to demo_update demo_fetcher ''v2'' demo_install = (Inr (AlreadyCurrent ''v2''), demo_install)"
  by (rule quarantined_target_refused [of _ "the (version_file demo_install)"])
     (simp_all add: demo_install_def)

text \<open>A completed update installed what it verified. Its outcome is \<open>Swapped\<close> only after the candidate
  exited 0; then both live binaries resolve to runnable files of the fetched release, the ledger has
  the new version as current and as pending confirmation, the old version heads the at most three
  previous ones, the quarantine list is kept, and exactly one restart of the unit was requested.\<close>

theorem swapped_means_verified_and_recorded:
  assumes "self_update_to env f version st = (Inr (Swapped version), st')"
    and "version_file st = Some vf" "current vf \<noteq> []"
  shows "candidate env = Exited 0 \<and> links_runnable st' \<and>
    version_file st' = Some \<lparr>current = version, previous = take 3 (current vf # previous vf),
                             pending_confirm = Some version, quarantine = quarantine vf\<rparr> \<and>
    systemctl st' = systemctl st @ [[''restart'', SUPERVISOR_UNIT]]"
  using assms(1)
proof (cases rule: self_update_cases)
  case (swap st1 st2 fail st3)
  from swap(5) have fail: "fail = None"
    and st': "st' = trigger_restart (cleanup_candidate_identity (cleanup_ok env)
          (st3\<lparr>version_file := Some (mark_pending_confirm
             (push_version (case version_file st of Some vf \<Rightarrow> vf | None \<Rightarrow> default_VersionFile)
                version KEEP_PREVIOUS) version)\<rparr>))" by auto
  have ne: "current vf \<noteq> version"
  proof
    assume "current vf = version"
    then have "self_update_to env f version st = (Inr (AlreadyCurrent version), st)"
      using assms(2) by (simp add: self_update_to_def read_version_file_def)
    with assms(1) show False by simp
  qed
  have complete: "release_is_complete st1 (version_dir f version)"
    using fetch_version_Inr [OF swap(1)] by auto
  have files: "files st' = files st1" and sys: "systemctl st' = systemctl st @ [[''restart'', SUPERVISOR_UNIT]]"
    and links: "links st' = links st3"
    using repoint_all_frame [OF swap(4)] fetch_version_frame [OF swap(1)] swap(3) st'
    by (auto simp: trigger_restart_def cleanup_candidate_identity_def)
  have "links_runnable st'"
    by (rule links_runnable_complete [where d = "version_dir f version" and l = "links st2"])
       (use links repoint_all_links swap(4) fail complete complete_files [OF files] in auto)
  moreover have "version_file st' = Some \<lparr>current = version, previous = take 3 (current vf # previous vf),
                             pending_confirm = Some version, quarantine = quarantine vf\<rparr>"
    using assms(2,3) ne st'
    by (cases vf) (auto simp: trigger_restart_def cleanup_candidate_identity_def mark_pending_confirm_def
        push_version_def KEEP_PREVIOUS_def Let_def)
  ultimately show ?thesis using swap(2) sys by simp
qed auto

lemma demo_swapped:
  "fst (self_update_to demo_update demo_fetcher ''v3'' demo_install) = Inr (Swapped ''v3'')"
proof -
  have cur: "\<not> (case read_version_file demo_install of
      Some vf \<Rightarrow> current vf = ''v3'' \<or> is_quarantined vf ''v3'' | None \<Rightarrow> False)"
    by (simp add: read_version_file_def demo_install_def is_quarantined_def)
  have sel: "release demo_update = demo_release" "swap demo_update = all_ok" "candidate demo_update = Exited 0"
    "cleanup_ok demo_update"
    by (simp_all add: demo_update_def)
  have fs: "files demo_staged ''/r/v3/supervisord'' = Some demo_file"
    "files demo_staged ''/r/v3/tabbify-runner'' = Some demo_file"
    by (simp_all add: demo_staged_def)
  show ?thesis
    by (simp add: self_update_to_def cur sel demo_fetch fs SWAP_BINARIES_def path_join_def demo_file_def
        repoint_symlink_def all_ok_def write_version_file_def Let_def)
qed

theorem swapped_means_verified_and_recorded_witness:
  "links_runnable (snd (self_update_to demo_update demo_fetcher ''v3'' demo_install))"
proof -
  have "self_update_to demo_update demo_fetcher ''v3'' demo_install =
      (Inr (Swapped ''v3''), snd (self_update_to demo_update demo_fetcher ''v3'' demo_install))"
    using demo_swapped by (metis prod.collapse)
  from swapped_means_verified_and_recorded [OF this, of "the (version_file demo_install)"] show ?thesis
    by (simp add: demo_install_def)
qed

text \<open>A failed update never touches the ledger and never restarts the unit, and unless it failed in the
  swap itself (a re-point, or the ledger rewrite after both re-points) the live symlinks are untouched
  too. A failure of the second re-point does leave the two binaries on different releases.\<close>

theorem failed_update_effects:
  assumes "self_update_to env f version st = (Inl e, st')"
  shows "version_file st' = version_file st \<and> systemctl st' = systemctl st \<and>
    ((\<forall>bin. e \<noteq> RepointFailed bin) \<and> e \<noteq> VersionWriteFailed \<longrightarrow> links st' = links st) \<and>
    (e = RepointFailed ''tabbify-runner'' \<longrightarrow>
       links st' ''supervisord'' = Some (path_join (version_dir f version) ''supervisord'') \<and>
       links st' ''tabbify-runner'' = links st ''tabbify-runner'')"
  using assms
proof (cases rule: self_update_cases)
  case (fetch e')
  then show ?thesis using fetch_version_frame [OF fetch(2)] by auto
next
  case (probe e' st1 i)
  have "fetch_version (release env) f version st = (Inr (version_dir f version), st1)"
    using probe by (metis prod.collapse)
  from fetch_version_frame [OF this] probe show ?thesis by auto
next
  case (swap st1 st2 fail st3)
  from swap(5) have e: "(\<exists>b. fail = Some b \<and> e = RepointFailed b) \<or> e = VersionWriteFailed" "st' = st3"
    by auto
  have "version_file st' = version_file st \<and> systemctl st' = systemctl st"
    using e(2) repoint_all_frame [OF swap(4)] fetch_version_frame [OF swap(1)] swap(3) by auto
  moreover have "links st' ''supervisord'' = Some (path_join (version_dir f version) ''supervisord'') \<and>
       links st' ''tabbify-runner'' = links st ''tabbify-runner''"
    if "e = RepointFailed ''tabbify-runner''"
  proof -
    from that e swap(5) have "fail = Some ''tabbify-runner''" by auto
    with swap(4) have "links st3 = (links st2)(''supervisord'' \<mapsto> path_join (version_dir f version) ''supervisord'')"
      by (auto simp: SWAP_BINARIES_def repoint_symlink_def split: if_splits)
    with e(2) swap(3) fetch_version_frame [OF swap(1)] show ?thesis by auto
  qed
  ultimately show ?thesis using e(1) by auto
qed auto

definition demo_half_update :: update_env where
  "demo_half_update = demo_update\<lparr>swap := \<lparr>link_ok = (\<lambda>b. b = ''supervisord''), version_ok = True\<rparr>\<rparr>"

lemma demo_half:
  "fst (self_update_to demo_half_update demo_fetcher ''v3'' demo_install) = Inl (RepointFailed ''tabbify-runner'')"
proof -
  have cur: "\<not> (case read_version_file demo_install of
      Some vf \<Rightarrow> current vf = ''v3'' \<or> is_quarantined vf ''v3'' | None \<Rightarrow> False)"
    by (simp add: read_version_file_def demo_install_def is_quarantined_def)
  have sel: "release demo_half_update = demo_release" "candidate demo_half_update = Exited 0"
    "link_ok (swap demo_half_update) = (\<lambda>b. b = ''supervisord'')"
    by (simp_all add: demo_update_def demo_half_update_def)
  have fs: "files demo_staged ''/r/v3/supervisord'' = Some demo_file"
    "files demo_staged ''/r/v3/tabbify-runner'' = Some demo_file"
    by (simp_all add: demo_staged_def)
  show ?thesis
    by (simp add: self_update_to_def cur sel demo_fetch fs SWAP_BINARIES_def path_join_def demo_file_def
        repoint_symlink_def Let_def)
qed

theorem failed_update_effects_witness:
  "links (snd (self_update_to demo_half_update demo_fetcher ''v3'' demo_install)) ''supervisord'' =
     Some ''/r/v3/supervisord'' \<and>
   links (snd (self_update_to demo_half_update demo_fetcher ''v3'' demo_install)) ''tabbify-runner'' =
     Some ''/r/v2/tabbify-runner''"
proof -
  have "self_update_to demo_half_update demo_fetcher ''v3'' demo_install =
      (Inl (RepointFailed ''tabbify-runner''),
       snd (self_update_to demo_half_update demo_fetcher ''v3'' demo_install))"
    using demo_half by (metis prod.collapse)
  from failed_update_effects [OF this] show ?thesis
    by (simp add: demo_fetcher_def version_dir_def path_join_def demo_install_def SWAP_BINARIES_def)
qed

end
