(* ===== verification/SelfWatchdog.thy ===== *)
theory SelfWatchdog
  imports SelfUpdate
begin

text \<open>
  After the swap: the debounced watchdog over the new build (\<open>src/src/selfupdate/dataplane.rs\<close>,
  \<open>watchdog.rs\<close>), the confirm-or-revert boot task (\<open>confirm.rs\<close>, \<open>spawn_post_restart_watchdog\<close> in
  \<open>main.rs\<close>), the crash catch-net \<open>revert-to-previous\<close> (\<open>main.rs\<close>), and the reachable ledgers of an
  install directory under all of them.
\<close>

section \<open>The data-plane debounce\<close>

definition DATA_PLANE_REVERT_STREAK :: u32 where
  "DATA_PLANE_REVERT_STREAK = 3"

record DataPlaneDebounce =
  dead_polls :: u32

definition default_DataPlaneDebounce :: DataPlaneDebounce where
  "default_DataPlaneDebounce = \<lparr>dead_polls = 0\<rparr>"

definition armed :: "DataPlaneDebounce \<Rightarrow> bool" where
  "armed d \<longleftrightarrow> DATA_PLANE_REVERT_STREAK \<le> dead_polls d"

definition debounce_observe :: "bool \<Rightarrow> DataPlaneDebounce \<Rightarrow> bool \<times> DataPlaneDebounce" where
  "debounce_observe live d =
     (let d1 = (if live then d\<lparr>dead_polls := 0\<rparr> else d\<lparr>dead_polls := sat_add (dead_polls d) 1\<rparr>)
      in (armed d1, d1))"

interpretation polls: failure_streak dead_polls
  "\<lambda>d. snd (debounce_observe False d)" "\<lambda>d. snd (debounce_observe True d)"
  by unfold_locales (simp_all add: debounce_observe_def Let_def)

section \<open>The watchdog\<close>

definition DEFAULT_STABILITY_WINDOW :: duration where
  "DEFAULT_STABILITY_WINDOW = from_secs 45"
definition DEFAULT_DATA_PLANE_WINDOW :: duration where
  "DEFAULT_DATA_PLANE_WINDOW = from_secs 120"

record WatchdogObservations =
  obs_health_200 :: bool
  obs_pong :: bool
  window_elapsed :: bool
  obs_restart :: RestartState
  data_plane_live :: bool
  previous_good_had_tunnel :: bool

datatype revert_reason = CrashLoopSeen | HealthLost | NoPong | DataPlaneDead

datatype RevertDecision = KeepNewVersion | Watching | Revert revert_reason

definition decide_revert :: "WatchdogObservations \<Rightarrow> RevertDecision" where
  "decide_revert o1 =
     (if status (obs_restart o1) default_BackoffParams 0 = StCrashLoop then Revert CrashLoopSeen
      else if \<not> obs_health_200 o1 then Revert HealthLost
      else if \<not> obs_pong o1 then Revert NoPong
      else if \<not> data_plane_live o1 \<and> previous_good_had_tunnel o1 then Revert DataPlaneDead
      else if window_elapsed o1 then KeepNewVersion else Watching)"

text \<open>One poll: the observation and the two readings of the clock that follow it.\<close>

record poll =
  observed :: WatchdogObservations
  elapsed_window :: duration
  elapsed_dp :: duration

definition poll_decision ::
  "duration \<Rightarrow> duration \<Rightarrow> DataPlaneDebounce \<Rightarrow> poll \<Rightarrow> RevertDecision \<times> DataPlaneDebounce" where
  "poll_decision stability_window data_plane_window debounce p =
     (let snapshot = (observed p)\<lparr>window_elapsed := stability_window \<le> elapsed_window p\<rparr>;
          (arm, debounce') = debounce_observe (data_plane_live snapshot) debounce;
          within_dp_window = elapsed_dp p < data_plane_window;
          snapshot' = snapshot\<lparr>data_plane_live := data_plane_live snapshot \<or> \<not> (arm \<and> within_dp_window)\<rparr>
      in (decide_revert snapshot', debounce'))"

text \<open>The poll loop over the observations that come; \<open>None\<close> while it still watches.\<close>

fun watch_loop ::
  "swap_io \<Rightarrow> path \<Rightarrow> duration \<Rightarrow> duration \<Rightarrow> DataPlaneDebounce \<Rightarrow> poll list \<Rightarrow> install \<Rightarrow>
   (update_error + string option) option \<times> install" where
  "watch_loop io rd sw dpw debounce [] st = (None, st)"
| "watch_loop io rd sw dpw debounce (p # ps) st =
     (case poll_decision sw dpw debounce p of
        (KeepNewVersion, _) \<Rightarrow> (Some (Inr None), st)
      | (Watching, debounce') \<Rightarrow> watch_loop io rd sw dpw debounce' ps st
      | (Revert reason, _) \<Rightarrow>
          (case revert_to_previous io trigger_restart rd st of
             (Inl e, st1) \<Rightarrow> (Some (Inl e), st1)
           | (Inr rolled_back, st1) \<Rightarrow> (Some (Inr (Some rolled_back)), st1)))"

definition run_watchdog ::
  "swap_io \<Rightarrow> path \<Rightarrow> duration \<Rightarrow> duration \<Rightarrow> poll list \<Rightarrow> install \<Rightarrow>
   (update_error + string option) option \<times> install" where
  "run_watchdog io rd stability_window data_plane_window polls st =
     watch_loop io rd stability_window data_plane_window default_DataPlaneDebounce polls st"

definition pending_swap :: "install \<Rightarrow> string option" where
  "pending_swap st = (case read_version_file st of Some vf \<Rightarrow> pending_confirm_of vf | None \<Rightarrow> None)"

definition confirm_swap :: "bool \<Rightarrow> install \<Rightarrow> (update_error + unit) \<times> install" where
  "confirm_swap ok st =
     (case read_version_file st of
        None \<Rightarrow> (Inl NoLedger, st)
      | Some vf \<Rightarrow> (case write_version_file ok (clear_pending_confirm vf) st of
                      (False, st1) \<Rightarrow> (Inl VersionWriteFailed, st1)
                    | (True, st1) \<Rightarrow> (Inr (), st1)))"

definition confirm_or_revert ::
  "swap_io \<Rightarrow> path \<Rightarrow> duration \<Rightarrow> duration \<Rightarrow> poll list \<Rightarrow> install \<Rightarrow>
   (update_error + string option) option \<times> install" where
  "confirm_or_revert io rd sw dpw polls st =
     (case run_watchdog io rd sw dpw polls st of
        (None, st1) \<Rightarrow> (None, st1)
      | (Some (Inl e), st1) \<Rightarrow> (Some (Inl e), st1)
      | (Some (Inr None), st1) \<Rightarrow>
          (case confirm_swap (version_ok io) st1 of
             (Inl e, st2) \<Rightarrow> (Some (Inl e), st2) | (Inr _, st2) \<Rightarrow> (Some (Inr None), st2))
      | (Some (Inr (Some v)), st1) \<Rightarrow> (Some (Inr (Some v)), st1))"

text \<open>What the boot observes: the two HTTP probes, and the joiner's verdict when the boot joined the mesh.\<close>

definition live_local_observe :: "bool \<Rightarrow> bool \<Rightarrow> bool option \<Rightarrow> WatchdogObservations" where
  "live_local_observe health about data_plane =
     \<lparr>obs_health_200 = health, obs_pong = about, window_elapsed = False,
      obs_restart = default_RestartState,
      data_plane_live = (case data_plane of None \<Rightarrow> True | Some live \<Rightarrow> live),
      previous_good_had_tunnel = (data_plane \<noteq> None)\<rparr>"

definition spawn_post_restart_watchdog ::
  "swap_io \<Rightarrow> path \<Rightarrow> poll list \<Rightarrow> install \<Rightarrow> (update_error + string option) option \<times> install" where
  "spawn_post_restart_watchdog io rd polls st =
     (case pending_swap st of
        None \<Rightarrow> (None, st)
      | Some pending \<Rightarrow>
          confirm_or_revert io rd DEFAULT_STABILITY_WINDOW DEFAULT_DATA_PLANE_WINDOW polls st)"

section \<open>The crash catch-net\<close>

record host =
  inst :: install
  boot_file :: "BootAttempts option"
  reboots :: reboot_file

text \<open>What the flow's file operations answer: those of the rollback, the quarantine rewrite, the sidecar
  and the guard history.\<close>

record flow_io =
  rollback :: swap_io
  stamp_ok :: bool
  boot_ok :: bool
  guard_write :: plain_write

datatype RevertFlowOutcome =
  Performed string | NoPrevious | Rebooted | RebootParked | FlowFailed update_error

fun exit_code :: "RevertFlowOutcome \<Rightarrow> int" where
  "exit_code (Performed _) = 0"
| "exit_code Rebooted = 0"
| "exit_code NoPrevious = 2"
| "exit_code RebootParked = 4"
| "exit_code (FlowFailed _) = 3"

text \<open>The guarded reboot seam.\<close>

definition reboot_seam :: "plain_write \<Rightarrow> u64 \<Rightarrow> host \<Rightarrow> RevertFlowOutcome \<times> host" where
  "reboot_seam w now h =
     (case try_reboot now w (reboots h) of
        (granted, g) \<Rightarrow> (if granted then Rebooted else RebootParked, h\<lparr>reboots := g\<rparr>))"

text \<open>The flow recognises the no-target errors by their message; of the errors of
  \<open>revert_to_previous\<close> these are the two it raises itself.\<close>

definition is_no_previous :: "update_error \<Rightarrow> bool" where
  "is_no_previous e \<longleftrightarrow> e = NoPreviousRecorded \<or> e = NoCompletePrevious"

definition revert_to_previous_flow ::
  "flow_io \<Rightarrow> u64 \<Rightarrow> path \<Rightarrow> bool \<Rightarrow> host \<Rightarrow> RevertFlowOutcome \<times> host" where
  "revert_to_previous_flow io now rd reboot_on_exhausted h =
     (if reboot_on_exhausted \<and> reverted_to (load_boot (boot_file h)) \<noteq> None
      then reboot_seam (guard_write io) now h
      else
        let reverted_from = (case read_version_file (inst h) of
                               Some vf \<Rightarrow> if current vf \<noteq> [] then Some (current vf) else None
                             | None \<Rightarrow> None)
        in case revert_to_previous (rollback io) id rd (inst h) of
             (Inr rolled_back, st1) \<Rightarrow>
               (case reverted_from of
                  None \<Rightarrow> (Performed rolled_back, h\<lparr>inst := st1\<rparr>)
                | Some bad \<Rightarrow>
                    let st2 = (case read_version_file st1 of
                                 Some vf \<Rightarrow> snd (write_version_file (stamp_ok io) (quarantine_version vf bad) st1)
                               | None \<Rightarrow> st1)
                    in (Performed rolled_back,
                        h\<lparr>inst := st2, boot_file := mark_reverted rolled_back (boot_ok io) (boot_file h)\<rparr>))
           | (Inl e, st1) \<Rightarrow>
               let h1 = h\<lparr>inst := st1\<rparr> in
               if \<not> is_no_previous e then (FlowFailed e, h1)
               else if reboot_on_exhausted then reboot_seam (guard_write io) now h1
               else (NoPrevious, h1))"

section \<open>The watchdog decides, and when\<close>

lemma debounce_after:
  "snd (poll_decision sw dpw d p) = snd (debounce_observe (data_plane_live (observed p)) d)"
  by (simp add: poll_decision_def Let_def split: prod.splits)

lemma poll_decision_elapsed:
  assumes "sw \<le> elapsed_window p"
  shows "fst (poll_decision sw dpw d p) \<noteq> Watching"
  using assms by (simp add: poll_decision_def decide_revert_def Let_def split: prod.splits)

lemma watch_loop_cut:
  assumes "sw \<le> elapsed_window p"
  shows "watch_loop io rd sw dpw d (before @ p # after) st = watch_loop io rd sw dpw d (before @ [p]) st \<and>
         fst (watch_loop io rd sw dpw d (before @ [p]) st) \<noteq> None"
proof (induction before arbitrary: d)
  case Nil
  show ?case
    using poll_decision_elapsed [OF assms, of dpw d]
    by (cases "poll_decision sw dpw d p"; cases "fst (poll_decision sw dpw d p)")
       (auto split: prod.splits sum.splits)
next
  case (Cons q before)
  show ?case
    by (cases "poll_decision sw dpw d q"; cases "fst (poll_decision sw dpw d q)")
       (use Cons in \<open>auto split: prod.splits sum.splits\<close>)
qed

text \<open>The watchdog always decides, at the latest at its first poll past the stability window, and
  nothing observed later matters. The data-plane window cannot lengthen the soak: whatever its length,
  the build is confirmed or rolled back by that poll.\<close>

theorem watchdog_decides_by_stability_window:
  assumes "stability_window \<le> elapsed_window p"
  shows "\<exists>outcome st'. run_watchdog io rd stability_window data_plane_window (before @ p # after) st =
            (Some outcome, st') \<and>
         run_watchdog io rd stability_window data_plane_window (before @ [p]) st = (Some outcome, st')"
  using watch_loop_cut [OF assms, of io rd data_plane_window default_DataPlaneDebounce before after st]
  by (cases "watch_loop io rd stability_window data_plane_window default_DataPlaneDebounce (before @ [p]) st")
     (auto simp: run_watchdog_def)

definition demo_poll :: "bool \<Rightarrow> nat \<Rightarrow> poll" where
  "demo_poll live t = \<lparr>observed = live_local_observe True True (Some live),
                      elapsed_window = from_secs t, elapsed_dp = from_secs t\<rparr>"

theorem watchdog_decides_by_stability_window_witness:
  "\<exists>outcome st'. run_watchdog all_ok ''/r'' DEFAULT_STABILITY_WINDOW DEFAULT_DATA_PLANE_WINDOW
     ([demo_poll True 44] @ demo_poll False 46 # [demo_poll False 48, demo_poll False 50]) demo_install =
     (Some outcome, st')"
  using watchdog_decides_by_stability_window
    [of DEFAULT_STABILITY_WINDOW "demo_poll False 46" all_ok "''/r''" DEFAULT_DATA_PLANE_WINDOW
        "[demo_poll True 44]" "[demo_poll False 48, demo_poll False 50]" demo_install]
  by (auto simp: demo_poll_def DEFAULT_STABILITY_WINDOW_def from_secs_def)

section \<open>No rollback on a flap\<close>

definition control_healthy :: "poll \<Rightarrow> bool" where
  "control_healthy p \<longleftrightarrow> obs_health_200 (observed p) \<and> obs_pong (observed p) \<and>
     status (obs_restart (observed p)) default_BackoffParams 0 \<noteq> StCrashLoop"

definition dead_poll :: "poll \<Rightarrow> bool" where
  "dead_poll p \<longleftrightarrow> \<not> data_plane_live (observed p)"

text \<open>Three dead polls in a row somewhere.\<close>

fun three_dead :: "bool list \<Rightarrow> bool" where
  "three_dead (a # b # c # ds) = (a \<and> b \<and> c \<or> three_dead (b # c # ds))"
| "three_dead ds = False"

lemma three_dead_drop: "length ds = 3 \<Longrightarrow> list_all id ds \<Longrightarrow> three_dead (xs @ ds @ ys)"
proof (induction xs)
  case Nil
  then show ?case by (auto simp: length_Suc_conv numeral_3_eq_3)
next
  case (Cons x xs)
  then obtain a b c ds' where "xs @ ds @ ys = a # b # c # ds' \<or> xs @ ds @ ys = [a, b, c]"
    by (metis Suc_le_length_iff length_append numeral_3_eq_3 le_add1 add.left_commute)
  with Cons show ?case by auto
qed

definition debounced :: "poll list \<Rightarrow> DataPlaneDebounce" where
  "debounced ps = fold (\<lambda>b. if b then \<lambda>d. snd (debounce_observe False d) else (\<lambda>d. snd (debounce_observe True d)))
                    (map dead_poll ps) default_DataPlaneDebounce"

lemma debounced_snoc:
  "debounced (ps @ [p]) = snd (debounce_observe (data_plane_live (observed p)) (debounced ps))"
  by (simp add: debounced_def dead_poll_def)

lemma armed_three:
  assumes "armed (debounced ps)"
  shows "three_dead (map dead_poll (ps @ qs))"
proof -
  have "3 \<le> unat (dead_polls (debounced ps))"
    using assms by (simp add: armed_def DATA_PLANE_REVERT_STREAK_def word_le_nat_alt)
  then have "3 \<le> unat (dead_polls (fold (\<lambda>b. if b then \<lambda>d. snd (debounce_observe False d)
      else (\<lambda>d. snd (debounce_observe True d))) (map dead_poll ps) default_DataPlaneDebounce))"
    by (simp add: debounced_def)
  then have t: "3 \<le> length (map dead_poll ps) \<and>
      list_all id (drop (length (map dead_poll ps) - 3) (map dead_poll ps))"
    using polls.threshold_reached [of default_DataPlaneDebounce 3 "map dead_poll ps"]
    by (simp add: default_DataPlaneDebounce_def)
  let ?m = "map dead_poll ps"
  have "map dead_poll (ps @ qs) = take (length ?m - 3) ?m @ drop (length ?m - 3) ?m @ map dead_poll qs"
    by (metis append.assoc append_take_drop_id map_append)
  moreover have "length (drop (length ?m - 3) ?m) = 3" using t by simp
  ultimately show ?thesis using three_dead_drop t by metis
qed

lemma no_flap_step:
  assumes "control_healthy p" "\<not> armed (snd (debounce_observe (data_plane_live (observed p)) d))"
  shows "fst (poll_decision sw dpw d p) \<in> {Watching, KeepNewVersion}"
  using assms
  by (auto simp: poll_decision_def decide_revert_def control_healthy_def debounce_observe_def Let_def)

lemma no_flap_loop:
  assumes "list_all control_healthy ps" "\<not> three_dead (map dead_poll (seen @ ps))"
  shows "watch_loop io rd sw dpw (debounced seen) ps st \<in> {(None, st), (Some (Inr None), st)}"
  using assms
proof (induction ps arbitrary: seen)
  case (Cons p ps)
  have d: "snd (poll_decision sw dpw (debounced seen) p) = debounced (seen @ [p])"
    by (simp add: debounce_after debounced_snoc)
  have "\<not> armed (debounced (seen @ [p]))"
    using armed_three [of "seen @ [p]" ps] Cons.prems(2) by auto
  then have "fst (poll_decision sw dpw (debounced seen) p) \<in> {Watching, KeepNewVersion}"
    using no_flap_step Cons.prems(1) by (simp add: debounced_snoc)
  moreover have "watch_loop io rd sw dpw (debounced (seen @ [p])) ps st \<in> {(None, st), (Some (Inr None), st)}"
    by (rule Cons.IH) (use Cons.prems in auto)
  ultimately show ?case
    using d by (cases "poll_decision sw dpw (debounced seen) p") auto
qed simp

text \<open>A tunnel flap never rolls a healthy build back: while the control plane answers and no three
  consecutive polls find the data plane dead, the watchdog keeps watching or keeps the build, and the
  install directory stays as it is.\<close>

theorem flap_never_reverts:
  assumes "list_all control_healthy polls" "\<not> three_dead (map dead_poll polls)"
  shows "run_watchdog io rd sw dpw polls st \<in> {(None, st), (Some (Inr None), st)}"
  using no_flap_loop [of polls "[]"] assms by (simp add: run_watchdog_def debounced_def)

theorem flap_never_reverts_witness:
  "run_watchdog all_ok ''/r'' DEFAULT_STABILITY_WINDOW DEFAULT_DATA_PLANE_WINDOW
     [demo_poll False 2, demo_poll False 4, demo_poll True 6, demo_poll False 46] demo_install
   \<in> {(None, demo_install), (Some (Inr None), demo_install)}"
  by (rule flap_never_reverts)
     (simp_all add: demo_poll_def control_healthy_def dead_poll_def live_local_observe_def status_def
       default_RestartState_def)

section \<open>The catch-net\<close>

lemma revert_flow_performed:
  assumes "revert_to_previous_flow io now rd flag h = (Performed v, h')"
    and "version_file (inst h) = Some vf" "current vf \<noteq> []" "stamp_ok io"
  obtains st1 vf1 where "revert_to_previous (rollback io) id rd (inst h) = (Inr v, st1)"
    "version_file st1 = Some vf1"
    "h' = h\<lparr>inst := st1\<lparr>version_file := Some (quarantine_version vf1 (current vf))\<rparr>,
           boot_file := mark_reverted v (boot_ok io) (boot_file h)\<rparr>"
proof -
  obtain st1 where rev: "revert_to_previous (rollback io) id rd (inst h) = (Inr v, st1)"
    and out: "h' = h\<lparr>inst := (case version_file st1 of
                 Some vf1 \<Rightarrow> snd (write_version_file True (quarantine_version vf1 (current vf)) st1)
               | None \<Rightarrow> st1), boot_file := mark_reverted v (boot_ok io) (boot_file h)\<rparr>"
    using assms
    by (auto simp: revert_to_previous_flow_def reboot_seam_def read_version_file_def Let_def
        split: prod.splits sum.splits if_splits option.splits)
  obtain vf1 where "version_file st1 = Some vf1"
    by (rule revert_success [of "rollback io" rd "inst h" v "st1"])
       (use rev in \<open>auto simp: id_def\<close>)
  with that rev out show thesis by (simp add: write_version_file_def)
qed

text \<open>A crash revert is remembered twice over. After a performed revert the version it left is
  quarantined, so no update installs it again while the ledger is readable; and if the reverted-to build
  crashes too, the next escalation with \<open>--reboot-on-exhausted\<close>, any number of crashing boots later,
  reboots the host or parks and does not touch the install directory.\<close>

theorem crash_revert_is_remembered:
  assumes "revert_to_previous_flow io now rd flag h = (Performed v, h')"
    and "version_file (inst h) = Some vf" "current vf \<noteq> []" "stamp_ok io" "boot_ok io"
  shows "(\<forall>env f. self_update_to env f (current vf) (inst h') = (Inr (AlreadyCurrent (current vf)), inst h')) \<and>
    (\<forall>crashes io2 now2.
       let h2 = h'\<lparr>boot_file := fold (\<lambda>t. boot_cycle False t) crashes (boot_file h')\<rparr>;
           (outcome, h3) = revert_to_previous_flow io2 now2 rd True h2
       in outcome \<in> {Rebooted, RebootParked} \<and> inst h3 = inst h')"
proof (rule revert_flow_performed [OF assms(1-4)])
  fix st1 vf1
  assume h': "h' = h\<lparr>inst := st1\<lparr>version_file := Some (quarantine_version vf1 (current vf))\<rparr>,
           boot_file := mark_reverted v (boot_ok io) (boot_file h)\<rparr>"
  have "is_quarantined (quarantine_version vf1 (current vf)) (current vf)"
    by (auto simp: is_quarantined_def quarantine_version_def)
  then have upd: "self_update_to env f (current vf) (inst h') = (Inr (AlreadyCurrent (current vf)), inst h')"
    for env f
    using h' by (simp add: self_update_to_def read_version_file_def)
  have keep: "reverted_to (load_boot (fold (\<lambda>t. boot_cycle False t) crashes g)) = reverted_to (load_boot g)"
    for crashes g
    by (induction crashes arbitrary: g) (simp_all add: load_boot_cycle_crash)
  have "reverted_to (load_boot (boot_file h')) = Some v"
    using h' assms(5) by (simp add: mark_reverted_def save_boot_def rename_sidecar_def load_boot_def)
  then show ?thesis
    using upd by (auto simp: Let_def revert_to_previous_flow_def reboot_seam_def keep split: prod.splits)
qed

definition demo_host :: host where
  "demo_host = \<lparr>inst = demo_install, boot_file = None, reboots = None\<rparr>"

definition demo_flow_io :: flow_io where
  "demo_flow_io = \<lparr>rollback = all_ok, stamp_ok = True, boot_ok = True, guard_write = Written\<rparr>"

lemma demo_flow:
  "fst (revert_to_previous_flow demo_flow_io 0 ''/r'' False demo_host) = Performed ''v1''"
  using demo_revert
  by (auto simp: revert_to_previous_flow_def demo_flow_io_def demo_host_def Let_def
      split: prod.splits sum.splits option.splits)

theorem crash_revert_is_remembered_witness:
  "self_update_to demo_update demo_fetcher ''v2''
     (inst (snd (revert_to_previous_flow demo_flow_io 0 ''/r'' False demo_host))) =
   (Inr (AlreadyCurrent ''v2''), inst (snd (revert_to_previous_flow demo_flow_io 0 ''/r'' False demo_host)))"
proof -
  have "revert_to_previous_flow demo_flow_io 0 ''/r'' False demo_host =
      (Performed ''v1'', snd (revert_to_previous_flow demo_flow_io 0 ''/r'' False demo_host))"
    using demo_flow by (metis prod.collapse)
  from crash_revert_is_remembered [OF this, of "the (version_file demo_install)"] show ?thesis
    by (simp add: demo_host_def demo_install_def demo_flow_io_def)
qed

text \<open>A rollback by the watchdog is not remembered: the version it left is not put on the quarantine
  list, so the next update request for it is not refused, however often it was rolled back.\<close>

theorem watchdog_revert_not_quarantined:
  assumes "run_watchdog io rd sw dpw polls st = (Some (Inr (Some v)), st')"
    and "version_file st = Some vf" "\<not> is_quarantined vf (current vf)" "v \<noteq> current vf"
  shows "fst (self_update_to env f (current vf) st') \<noteq> Inr (AlreadyCurrent (current vf))"
proof -
  have "\<exists>st1. revert_to_previous io trigger_restart rd st = (Inr v, st1) \<and> st' = st1"
    if "watch_loop io rd sw dpw d polls st = (Some (Inr (Some v)), st')" for d
    using that
  proof (induction polls arbitrary: d)
    case (Cons p polls)
    then show ?case
      by (cases "poll_decision sw dpw d p"; cases "fst (poll_decision sw dpw d p)")
         (auto split: prod.splits sum.splits)
  qed simp
  then have rev: "revert_to_previous io trigger_restart rd st = (Inr v, st')"
    using assms(1) by (auto simp: run_watchdog_def)
  then have "\<exists>vf'. version_file st' = Some vf' \<and> current vf' = v \<and> quarantine vf' = quarantine vf"
    using assms(2)
    by (auto simp: revert_to_previous_def read_version_file_def write_version_file_def Let_def
        trigger_restart_def split: option.splits prod.splits if_splits)
  then obtain vf' where vf': "version_file st' = Some vf'" "current vf' = v" "quarantine vf' = quarantine vf"
    by blast
  show ?thesis
  proof
    assume "fst (self_update_to env f (current vf) st') = Inr (AlreadyCurrent (current vf))"
    then obtain st2 where "self_update_to env f (current vf) st' = (Inr (AlreadyCurrent (current vf)), st2)"
      by (metis prod.collapse)
    then show False
      using vf' assms(3,4)
      by (auto simp: self_update_to_def read_version_file_def is_quarantined_def Let_def
          split: sum.splits prod.splits option.splits bool.splits)
  qed
qed

lemma demo_watch:
  "fst (run_watchdog all_ok ''/r'' DEFAULT_STABILITY_WINDOW DEFAULT_DATA_PLANE_WINDOW
     [demo_poll False 2, demo_poll False 4, demo_poll False 6] demo_install) = Some (Inr (Some ''v1''))"
proof -
  have rev: "fst (revert_to_previous all_ok trigger_restart ''/r'' demo_install) = Inr ''v1''"
    by (simp add: revert_to_previous_def read_version_file_def demo_eval all_ok_def repoint_symlink_def
        write_version_file_def Let_def)
  have s1: "debounce_observe False \<lparr>dead_polls = 0\<rparr> = (False, \<lparr>dead_polls = 1\<rparr>)"
    and s2: "debounce_observe False \<lparr>dead_polls = 1\<rparr> = (False, \<lparr>dead_polls = 2\<rparr>)"
    and s3: "debounce_observe False \<lparr>dead_polls = 2\<rparr> = (True, \<lparr>dead_polls = 3\<rparr>)"
    by (simp_all add: debounce_observe_def armed_def DATA_PLANE_REVERT_STREAK_def sat_add_def word_le_nat_alt)
  have d: "poll_decision DEFAULT_STABILITY_WINDOW DEFAULT_DATA_PLANE_WINDOW \<lparr>dead_polls = 0\<rparr> (demo_poll False 2) =
      (Watching, \<lparr>dead_polls = 1\<rparr>)"
    "poll_decision DEFAULT_STABILITY_WINDOW DEFAULT_DATA_PLANE_WINDOW \<lparr>dead_polls = 1\<rparr> (demo_poll False 4) =
      (Watching, \<lparr>dead_polls = 2\<rparr>)"
    "poll_decision DEFAULT_STABILITY_WINDOW DEFAULT_DATA_PLANE_WINDOW \<lparr>dead_polls = 2\<rparr> (demo_poll False 6) =
      (Revert DataPlaneDead, \<lparr>dead_polls = 3\<rparr>)"
    by (simp_all add: poll_decision_def demo_poll_def live_local_observe_def s1 s2 s3 decide_revert_def
        status_def default_RestartState_def DEFAULT_STABILITY_WINDOW_def DEFAULT_DATA_PLANE_WINDOW_def from_secs_def)
  show ?thesis
    using rev by (auto simp: run_watchdog_def default_DataPlaneDebounce_def d split: prod.splits sum.splits)
qed

theorem watchdog_revert_not_quarantined_witness:
  "fst (self_update_to demo_update demo_fetcher ''v2''
     (snd (run_watchdog all_ok ''/r'' DEFAULT_STABILITY_WINDOW DEFAULT_DATA_PLANE_WINDOW
        [demo_poll False 2, demo_poll False 4, demo_poll False 6] demo_install))) \<noteq> Inr (AlreadyCurrent ''v2'')"
proof -
  let ?w = "run_watchdog all_ok ''/r'' DEFAULT_STABILITY_WINDOW DEFAULT_DATA_PLANE_WINDOW
        [demo_poll False 2, demo_poll False 4, demo_poll False 6] demo_install"
  have "?w = (Some (Inr (Some ''v1'')), snd ?w)" using demo_watch by (metis prod.collapse)
  from watchdog_revert_not_quarantined [OF this, of "the (version_file demo_install)"] show ?thesis
    by (simp add: demo_install_def is_quarantined_def)
qed

section \<open>Reachable ledgers\<close>

text \<open>Everything the program does to an install directory and its crash counter.\<close>

inductive host_step :: "host \<Rightarrow> host \<Rightarrow> bool" where
  update: "self_update_to env f v (inst h) = (r, st) \<Longrightarrow> host_step h (h\<lparr>inst := st\<rparr>)"
| watch: "spawn_post_restart_watchdog io rd polls (inst h) = (r, st) \<Longrightarrow> host_step h (h\<lparr>inst := st\<rparr>)"
| catch: "revert_to_previous_flow fio now rd flag h = (r, h') \<Longrightarrow> host_step h h'"
| boot: "host_step h (h\<lparr>boot_file := boot_cycle ready t (boot_file h)\<rparr>)"

definition ledger_wf :: "VersionFile \<Rightarrow> bool" where
  "ledger_wf vf \<longleftrightarrow> length (previous vf) \<le> 3 \<and> pending_confirm vf \<in> {None, Some (current vf)} \<and>
     distinct (quarantine vf)"

text \<open>One ledger may follow another: it is well formed and has lost no quarantined version.\<close>

definition ledger_next :: "VersionFile \<Rightarrow> VersionFile \<Rightarrow> bool" where
  "ledger_next vf vf' \<longleftrightarrow> (ledger_wf vf \<longrightarrow> ledger_wf vf') \<and> set (quarantine vf) \<subseteq> set (quarantine vf')"

lemma ledger_next_refl: "ledger_next vf vf"
  by (simp add: ledger_next_def)

lemma ledger_next_trans: "ledger_next a b \<Longrightarrow> ledger_next b c \<Longrightarrow> ledger_next a c"
  by (auto simp: ledger_next_def)

lemma ledger_next_push:
  "ledger_next vf (mark_pending_confirm (push_version vf v KEEP_PREVIOUS) v)"
  by (auto simp: ledger_next_def ledger_wf_def mark_pending_confirm_def push_version_def KEEP_PREVIOUS_def Let_def)

lemma ledger_next_clear: "ledger_next vf (clear_pending_confirm vf)"
  by (auto simp: ledger_next_def ledger_wf_def clear_pending_confirm_def)

lemma ledger_next_quarantine: "ledger_next vf (quarantine_version vf bad)"
  by (auto simp: ledger_next_def ledger_wf_def quarantine_version_def list_ex_iff)

lemma ledger_next_update:
  assumes "self_update_to env f v st = (r, st')" "version_file st = Some vf"
  shows "\<exists>vf'. version_file st' = Some vf' \<and> ledger_next vf vf'"
  using assms(1)
proof (cases rule: self_update_cases)
  case current
  then show ?thesis using assms(2) ledger_next_refl by auto
next
  case (fetch e)
  then show ?thesis using fetch_version_frame [OF fetch(2)] assms(2) ledger_next_refl by auto
next
  case (probe e st1 i)
  have "fetch_version (release env) f v st = (Inr (version_dir f v), st1)"
    using probe by (metis prod.collapse)
  from fetch_version_frame [OF this] show ?thesis using probe assms(2) ledger_next_refl by auto
next
  case (swap st1 st2 fail st3)
  have "version_file st3 = Some vf"
    using repoint_all_frame [OF swap(4)] swap(3) fetch_version_frame [OF swap(1)] assms(2) by auto
  then show ?thesis
    using swap(5) assms(2) ledger_next_refl ledger_next_push
    by (auto simp: trigger_restart_def cleanup_candidate_identity_def)
qed

lemma ledger_next_revert:
  assumes "revert_to_previous io restart rd st = (r, st')" "version_file st = Some vf"
    and "\<And>s. version_file (restart s) = version_file s"
  shows "\<exists>vf'. version_file st' = Some vf' \<and> ledger_next vf vf'"
proof (cases r)
  case (Inl e)
  then have "version_file st' = Some vf"
    using assms(1,2)
    by (auto simp: revert_to_previous_def read_version_file_def write_version_file_def Let_def
        dest: repoint_all_frame split: option.splits prod.splits if_splits)
  then show ?thesis using ledger_next_refl by auto
next
  case (Inr v)
  then have "\<exists>k. version_file st' = Some \<lparr>current = v, previous = drop (Suc k) (previous vf),
      pending_confirm = None, quarantine = quarantine vf\<rparr>"
    using assms
    by (auto simp: revert_to_previous_def read_version_file_def write_version_file_def Let_def
        split: option.splits prod.splits if_splits)
  then show ?thesis by (auto simp: ledger_next_def ledger_wf_def)
qed

lemma ledger_next_watch:
  assumes "watch_loop io rd sw dpw d polls st = (r, st')" "version_file st = Some vf"
  shows "\<exists>vf'. version_file st' = Some vf' \<and> ledger_next vf vf'"
  using assms(1)
proof (induction polls arbitrary: d)
  case Nil
  then show ?case using assms(2) ledger_next_refl by auto
next
  case (Cons p polls)
  show ?case
  proof (cases "fst (poll_decision sw dpw d p)")
    case KeepNewVersion
    then show ?thesis using Cons.prems assms(2) ledger_next_refl
      by (cases "poll_decision sw dpw d p") auto
  next
    case Watching
    then show ?thesis using Cons by (cases "poll_decision sw dpw d p") auto
  next
    case (Revert reason)
    obtain r1 st1 where rv: "revert_to_previous io trigger_restart rd st = (r1, st1)" by fastforce
    with Revert Cons.prems have "st' = st1"
      by (cases "poll_decision sw dpw d p") (auto split: sum.splits)
    with ledger_next_revert [OF rv assms(2)] show ?thesis by (simp add: trigger_restart_def)
  qed
qed

lemma ledger_next_spawn:
  assumes "spawn_post_restart_watchdog io rd polls st = (r, st')" "version_file st = Some vf"
  shows "\<exists>vf'. version_file st' = Some vf' \<and> ledger_next vf vf'"
proof (cases "pending_swap st")
  case None
  then show ?thesis using assms ledger_next_refl by (simp add: spawn_post_restart_watchdog_def)
next
  case (Some pending)
  obtain r1 st1 where w: "run_watchdog io rd DEFAULT_STABILITY_WINDOW DEFAULT_DATA_PLANE_WINDOW polls st = (r1, st1)"
    by fastforce
  obtain vf1 where vf1: "version_file st1 = Some vf1" "ledger_next vf vf1"
    using ledger_next_watch w assms(2) unfolding run_watchdog_def by blast
  obtain vf2 where "version_file st' = Some vf2" "vf2 = vf1 \<or> vf2 = clear_pending_confirm vf1"
    using assms(1) Some w vf1
    by (auto simp: spawn_post_restart_watchdog_def confirm_or_revert_def confirm_swap_def
        read_version_file_def write_version_file_def split: option.splits sum.splits if_splits prod.splits)
  then show ?thesis using vf1 ledger_next_clear ledger_next_trans by blast
qed

lemma ledger_next_flow:
  assumes "revert_to_previous_flow io now rd flag h = (r, h')" "version_file (inst h) = Some vf"
  shows "\<exists>vf'. version_file (inst h') = Some vf' \<and> ledger_next vf vf'"
proof (cases "flag \<and> reverted_to (load_boot (boot_file h)) \<noteq> None")
  case True
  then have "inst h' = inst h"
    using assms(1) by (auto simp: revert_to_previous_flow_def reboot_seam_def split: prod.splits)
  then show ?thesis using assms(2) ledger_next_refl by auto
next
  case False
  obtain r1 st1 where rv: "revert_to_previous (rollback io) id rd (inst h) = (r1, st1)" by fastforce
  obtain vf1 where vf1: "version_file st1 = Some vf1" "ledger_next vf vf1"
    using ledger_next_revert [OF rv assms(2)] by auto
  obtain vf2 where "version_file (inst h') = Some vf2" "vf2 = vf1 \<or> vf2 = quarantine_version vf1 (current vf)"
    using assms False rv vf1
    by (auto simp: revert_to_previous_flow_def reboot_seam_def read_version_file_def write_version_file_def Let_def
        split: prod.splits sum.splits if_splits option.splits)
  then show ?thesis using vf1 ledger_next_quarantine ledger_next_trans by blast
qed

lemma ledger_next_step:
  assumes "host_step h h'" "version_file (inst h) = Some vf"
  shows "\<exists>vf'. version_file (inst h') = Some vf' \<and> ledger_next vf vf'"
  using assms(1)
proof (cases rule: host_step.cases)
  case (update env f v r st)
  then show ?thesis using ledger_next_update assms(2) by auto
next
  case (watch io rd polls r st)
  then show ?thesis using ledger_next_spawn assms(2) by auto
next
  case (catch fio now rd flag r)
  then show ?thesis using ledger_next_flow assms(2) by blast
next
  case (boot ready t)
  then show ?thesis using assms(2) ledger_next_refl by auto
qed

text \<open>Whatever updates, watchdog runs, crash reverts and boots happen in whatever order, with whatever
  failures, the ledger stays well formed (at most three rollback targets, a pending confirmation only
  for the current version, no duplicate in the quarantine list) and a quarantined version stays
  quarantined.\<close>

theorem reachable_ledgers:
  assumes "host_step\<^sup>*\<^sup>* h h'" "version_file (inst h) = Some vf" "ledger_wf vf"
  shows "\<exists>vf'. version_file (inst h') = Some vf' \<and> ledger_wf vf' \<and>
           set (quarantine vf) \<subseteq> set (quarantine vf')"
proof -
  have "\<exists>vf'. version_file (inst h') = Some vf' \<and> ledger_next vf vf'"
    using assms(1)
  proof (induction rule: rtranclp_induct)
    case base
    then show ?case using assms(2) ledger_next_refl by auto
  next
    case (step y z)
    then obtain vf1 where vf1: "version_file (inst y) = Some vf1" "ledger_next vf vf1" by blast
    from ledger_next_step [OF step(2) vf1(1)] show ?case using vf1(2) ledger_next_trans by blast
  qed
  with assms(3) show ?thesis by (auto simp: ledger_next_def)
qed

theorem reachable_ledgers_witness:
  "\<exists>vf'. version_file (inst (snd (revert_to_previous_flow demo_flow_io 0 ''/r'' False demo_host))) = Some vf' \<and>
     ledger_wf vf' \<and> set [] \<subseteq> set (quarantine vf')"
proof -
  have "host_step\<^sup>*\<^sup>* demo_host (snd (revert_to_previous_flow demo_flow_io 0 ''/r'' False demo_host))"
    by (rule r_into_rtranclp, rule host_step.catch, rule prod.collapse [symmetric])
  from reachable_ledgers [OF this, of "the (version_file demo_install)"] show ?thesis
    by (simp add: demo_host_def demo_install_def ledger_wf_def)
qed

text \<open>A host whose operator updated from v1 to v2 and back to v1.\<close>

definition back_and_forth :: host where
  "back_and_forth = demo_host\<lparr>inst := demo_install\<lparr>version_file :=
     Some (push_version (push_version
       \<lparr>current = ''v1'', previous = [], pending_confirm = None, quarantine = []\<rparr> ''v2'' 3) ''v1'' 3)\<rparr>\<rparr>"


end
