(* ===== verification/Net.thy ===== *)
theory Net
  imports Prelude
begin

unbundle bit_operations_syntax

text \<open>
  The parsers and printers of the Rust standard library that the network code relies on: decimal and
  hexadecimal integers, dotted IPv4 addresses, lines and white space. Each printer is shown to be
  inverted by its parser.
\<close>

section \<open>Decimal numbers\<close>

definition digit_char :: "nat \<Rightarrow> char" where
  "digit_char n = char_of (48 + n)"

definition is_dec_digit :: "char \<Rightarrow> bool" where
  "is_dec_digit c \<longleftrightarrow> 48 \<le> (of_char c :: nat) \<and> (of_char c :: nat) \<le> 57"

definition digit_val :: "char \<Rightarrow> nat" where
  "digit_val c = of_char c - 48"

text \<open>\<open>Display\<close> of an unsigned integer.\<close>

fun show_dec :: "nat \<Rightarrow> string" where
  "show_dec n = (if n < 10 then [digit_char n] else show_dec (n div 10) @ [digit_char (n mod 10)])"

declare show_dec.simps [simp del]

definition dec_val :: "string \<Rightarrow> nat" where
  "dec_val s = foldl (\<lambda>a c. a * 10 + digit_val c) 0 s"

text \<open>\<open>str::parse\<close> of an unsigned integer up to \<open>limit\<close>: an optional plus sign and at least one digit.\<close>

definition parse_uint :: "nat \<Rightarrow> string \<Rightarrow> nat option" where
  "parse_uint limit s =
     (let ds = (case s of c # cs \<Rightarrow> if c = CHR ''+'' then cs else s | [] \<Rightarrow> [])
      in if ds \<noteq> [] \<and> list_all is_dec_digit ds \<and> dec_val ds \<le> limit then Some (dec_val ds) else None)"

lemma digit_char_digit [simp]:
  "n < 10 \<Longrightarrow> is_dec_digit (digit_char n)" "n < 10 \<Longrightarrow> digit_val (digit_char n) = n"
  by (simp_all add: is_dec_digit_def digit_char_def digit_val_def)

lemma digit_char_neq:
  "n < 10 \<Longrightarrow> digit_char n \<noteq> CHR ''.''" "n < 10 \<Longrightarrow> digit_char n \<noteq> CHR ''/''"
  "n < 10 \<Longrightarrow> digit_char n \<noteq> CHR ''+''"
proof -
  have sep: "\<not> is_dec_digit CHR ''.''" "\<not> is_dec_digit CHR ''/''" "\<not> is_dec_digit CHR ''+''"
    by (simp_all add: is_dec_digit_def)
  show "n < 10 \<Longrightarrow> digit_char n \<noteq> CHR ''.''" "n < 10 \<Longrightarrow> digit_char n \<noteq> CHR ''/''"
    "n < 10 \<Longrightarrow> digit_char n \<noteq> CHR ''+''"
    using sep digit_char_digit(1) by metis+
qed

lemma show_dec_digits: "list_all is_dec_digit (show_dec n)"
proof (induction n rule: show_dec.induct)
  case (1 n)
  then show ?case by (subst show_dec.simps) auto
qed

lemma show_dec_nonempty [simp]: "show_dec n \<noteq> []"
  by (subst show_dec.simps) simp

lemma dec_val_show_dec [simp]: "dec_val (show_dec n) = n"
proof (induction n rule: show_dec.induct)
  case (1 n)
  then show ?case by (subst show_dec.simps) (auto simp: dec_val_def)
qed

lemma show_dec_head: "show_dec n = c # cs \<Longrightarrow> c = CHR ''0'' \<Longrightarrow> n = 0 \<and> cs = []"
proof (induction n arbitrary: c cs rule: show_dec.induct)
  case (1 n)
  show ?case
  proof (cases "n < 10")
    case True
    then have v: "digit_val (digit_char n) = n" by simp
    have "show_dec n = [digit_char n]" using True by (subst show_dec.simps) simp
    then have c: "c = digit_char n" "cs = []" using "1.prems" by auto
    have "digit_val CHR ''0'' = 0" by (simp add: digit_val_def)
    with v c "1.prems" show ?thesis by metis
  next
    case False
    then have s: "show_dec n = show_dec (n div 10) @ [digit_char (n mod 10)]"
      by (subst show_dec.simps) simp
    obtain d ds where d: "show_dec (n div 10) = d # ds" by (cases "show_dec (n div 10)") auto
    with s "1.prems" have "d = CHR ''0''" by simp
    with "1.IH" [OF False d] have "n div 10 = 0" by simp
    with False show ?thesis by simp
  qed
qed

lemma show_dec_no_sep: "CHR ''.'' \<notin> set (show_dec n)" "CHR ''/'' \<notin> set (show_dec n)"
  using show_dec_digits [of n] by (auto simp: list_all_iff is_dec_digit_def)

lemma show_dec_length: "n < 10 ^ k \<Longrightarrow> 0 < k \<Longrightarrow> length (show_dec n) \<le> k"
proof (induction n arbitrary: k rule: show_dec.induct)
  case (1 n)
  show ?case
  proof (cases "n < 10")
    case True
    then show ?thesis using "1.prems" by (subst show_dec.simps) simp
  next
    case False
    then obtain j where k: "k = Suc j" "0 < j" using "1.prems" by (cases k; cases "k = 1") auto
    then have "n div 10 < 10 ^ j" using "1.prems" by (simp add: less_mult_imp_div_less mult.commute)
    from "1.IH" [OF False this k(2)] False k show ?thesis by (subst show_dec.simps) simp
  qed
qed

lemma parse_uint_show_dec: "n \<le> limit \<Longrightarrow> parse_uint limit (show_dec n) = Some n"
proof -
  assume n: "n \<le> limit"
  obtain c cs where s: "show_dec n = c # cs" by (cases "show_dec n") auto
  have "is_dec_digit c" using show_dec_digits [of n] s by simp
  then have "c \<noteq> CHR ''+''" by (auto simp: is_dec_digit_def)
  then show ?thesis using n show_dec_digits [of n] dec_val_show_dec [of n]
    by (simp add: parse_uint_def s)
qed

section \<open>IPv4 addresses\<close>

text \<open>An octet of \<open>Ipv4Addr::from_str\<close>: one to three digits without a leading zero.\<close>

definition parse_octet :: "string \<Rightarrow> nat option" where
  "parse_octet s =
     (if s \<noteq> [] \<and> length s \<le> 3 \<and> list_all is_dec_digit s \<and>
         (length s = 1 \<or> hd s \<noteq> CHR ''0'') \<and> dec_val s \<le> 255
      then Some (dec_val s) else None)"

definition octets :: "nat \<Rightarrow> nat \<Rightarrow> nat \<Rightarrow> nat \<Rightarrow> u32" where
  "octets a b c d = of_nat (a * 2 ^ 24 + b * 2 ^ 16 + c * 2 ^ 8 + d)"

definition parse_ipv4 :: "string \<Rightarrow> u32 option" where
  "parse_ipv4 s =
     (case split_on CHR ''.'' s of
        [a, b, c, d] \<Rightarrow>
          (case (parse_octet a, parse_octet b, parse_octet c, parse_octet d) of
             (Some w, Some x, Some y, Some z) \<Rightarrow> Some (octets w x y z)
           | _ \<Rightarrow> None)
      | _ \<Rightarrow> None)"

definition octet_of :: "nat \<Rightarrow> nat \<Rightarrow> nat" where
  "octet_of k n = n div 2 ^ (8 * k) mod 256"

definition show_ipv4 :: "u32 \<Rightarrow> string" where
  "show_ipv4 ip =
     (let n = unat ip in
      show_dec (octet_of 3 n) @ ''.'' @ show_dec (octet_of 2 n) @ ''.'' @
      show_dec (octet_of 1 n) @ ''.'' @ show_dec (octet_of 0 n))"

lemma parse_octet_show_dec: "n \<le> 255 \<Longrightarrow> parse_octet (show_dec n) = Some n"
proof -
  assume n: "n \<le> 255"
  then have "length (show_dec n) \<le> 3" by (intro show_dec_length) auto
  moreover have "length (show_dec n) = 1 \<or> hd (show_dec n) \<noteq> CHR ''0''"
    using show_dec_head [of n] by (cases "show_dec n") auto
  ultimately show ?thesis using n show_dec_digits by (simp add: parse_octet_def)
qed

lemma split_on_append:
  "c \<notin> set a \<Longrightarrow> split_on c (a @ c # b) = a # split_on c b"
  by (induction a) auto

lemma split_on_absent: "c \<notin> set a \<Longrightarrow> split_on c a = [a]"
  by (induction a) auto

lemma octet_sum: "n < 2 ^ 32 \<Longrightarrow>
    octet_of 3 n * 2 ^ 24 + octet_of 2 n * 2 ^ 16 + octet_of 1 n * 2 ^ 8 + octet_of 0 n = n"
proof -
  assume n: "n < 2 ^ 32"
  have "n div 65536 = n div 256 div 256" "n div 16777216 = n div 65536 div 256"
    by (simp_all add: div_mult2_eq [symmetric])
  then have "n = (n div 256) * 256 + n mod 256" "n div 256 = (n div 65536) * 256 + (n div 256) mod 256"
    "n div 65536 = (n div 16777216) * 256 + (n div 65536) mod 256"
    by (metis div_mult_mod_eq)+
  moreover have "n div 16777216 mod 256 = n div 16777216" using n by simp
  ultimately have "n div 16777216 * 16777216 + n div 65536 mod 256 * 65536 + n div 256 mod 256 * 256 +
      n mod 256 = n"
    by linarith
  then show ?thesis using n by (simp add: octet_of_def)
qed

lemma parse_show_ipv4 [simp]: "parse_ipv4 (show_ipv4 ip) = Some ip"
proof -
  have le: "octet_of k n \<le> 255" for k n
    using mod_less_divisor [of 256 "n div 2 ^ (8 * k)"] by (simp add: octet_of_def)
  have "unat ip < 2 ^ 32" using unat_le_max [of ip] by simp
  then have "octets (octet_of 3 (unat ip)) (octet_of 2 (unat ip)) (octet_of 1 (unat ip)) (octet_of 0 (unat ip)) = ip"
    unfolding octets_def by (subst octet_sum) simp_all
  then show ?thesis
    by (simp add: parse_ipv4_def show_ipv4_def Let_def split_on_append split_on_absent show_dec_no_sep
        parse_octet_show_dec le)
qed

lemma show_ipv4_no_slash: "CHR ''/'' \<notin> set (show_ipv4 ip)"
  by (simp add: show_ipv4_def Let_def show_dec_no_sep)

section \<open>Hexadecimal numbers\<close>

definition hex_char :: "nat \<Rightarrow> char" where
  "hex_char n = (if n < 10 then char_of (48 + n) else char_of (87 + n))"

fun show_hex :: "nat \<Rightarrow> string" where
  "show_hex n = (if n < 16 then [hex_char n] else show_hex (n div 16) @ [hex_char (n mod 16)])"

declare show_hex.simps [simp del]

text \<open>The format \<open>{:0kx}\<close>.\<close>

definition show_hex_padded :: "nat \<Rightarrow> nat \<Rightarrow> string" where
  "show_hex_padded k n = (let s = show_hex n in replicate (k - length s) CHR ''0'' @ s)"

lemma show_hex_length: "n < 16 ^ k \<Longrightarrow> 0 < k \<Longrightarrow> length (show_hex n) \<le> k"
proof (induction n arbitrary: k rule: show_hex.induct)
  case (1 n)
  show ?case
  proof (cases "n < 16")
    case True
    then show ?thesis using "1.prems" by (subst show_hex.simps) simp
  next
    case False
    then obtain j where k: "k = Suc j" "0 < j" using "1.prems" by (cases k; cases "k = 1") auto
    then have "n div 16 < 16 ^ j" using "1.prems" by (simp add: less_mult_imp_div_less mult.commute)
    from "1.IH" [OF False this k(2)] False k show ?thesis by (subst show_hex.simps) simp
  qed
qed

lemma show_hex_padded_length: "n < 16 ^ k \<Longrightarrow> 0 < k \<Longrightarrow> length (show_hex_padded k n) = k"
  using show_hex_length [of n k] by (simp add: show_hex_padded_def Let_def)

section \<open>Lines and words\<close>

definition is_whitespace :: "char \<Rightarrow> bool" where
  "is_whitespace c \<longleftrightarrow> (of_char c :: nat) \<in> {9, 10, 11, 12, 13, 32}"

text \<open>\<open>str::split_whitespace\<close> and \<open>str::lines\<close> on ASCII text.\<close>

fun words_acc :: "string \<Rightarrow> string \<Rightarrow> string list" where
  "words_acc w [] = (if w = [] then [] else [rev w])"
| "words_acc w (c # cs) =
     (if is_whitespace c then (if w = [] then words_acc [] cs else rev w # words_acc [] cs)
      else words_acc (c # w) cs)"

definition split_whitespace :: "string \<Rightarrow> string list" where
  "split_whitespace s = words_acc [] s"

definition lines_of :: "string \<Rightarrow> string list" where
  "lines_of s =
     (let ls = split_on (char_of (10 :: nat)) s;
          ls = (if last ls = [] then butlast ls else ls)
      in map (\<lambda>l. if l \<noteq> [] \<and> last l = char_of (13 :: nat) then butlast l else l) ls)"

end
