(* ===== verification/Snapshot.thy ===== *)
theory Snapshot
  imports Net
begin

text \<open>
  The warm-start snapshot of an app and the decisions around it: the cache directory
  (\<open>src/src/firecracker/snapshot.rs\<close>), the snapshot policy (\<open>snapshot_decision.rs\<close>), the readiness
  port (\<open>port_plan.rs\<close>, \<open>protocol.rs\<close>) and the persistent disk (\<open>stateful.rs\<close>). The state is the
  cache directory of one app.
\<close>

section \<open>The cache directory\<close>

record SnapshotLink =
  sl_slot :: u32
  sl_tap_subnet :: string
  sl_tap_name :: string

text \<open>The files of \<open>apps/<uuid>/cache\<close>; the link companion is what its JSON reader gets.\<close>

record cache_dir =
  snap_vmstate :: bool
  snap_mem :: bool
  snapshot_ref_file :: "string option"
  snapshot_env_file :: "string option"
  snapshot_link_file :: "SnapshotLink option"
  app_port_file :: "string option"
  restore_token_file :: "string option"
  no_snapshot :: bool

text \<open>How a plain \<open>fs::write\<close> of a small file ends: all of it, nothing, or a prefix of it.\<close>

datatype text_write = WriteAll | WriteNothing | WritePrefix nat

fun write_text :: "text_write \<Rightarrow> string \<Rightarrow> string option \<Rightarrow> string option" where
  "write_text WriteAll s f = Some s"
| "write_text WriteNothing s f = f"
| "write_text (WritePrefix n) s f = Some (take n s)"

definition files_present :: "cache_dir \<Rightarrow> bool" where
  "files_present c \<longleftrightarrow> snap_vmstate c \<and> snap_mem c"

definition write_ref :: "text_write \<Rightarrow> string \<Rightarrow> cache_dir \<Rightarrow> cache_dir" where
  "write_ref w image_ref c = c\<lparr>snapshot_ref_file := write_text w image_ref (snapshot_ref_file c)\<rparr>"

definition ref_matches :: "cache_dir \<Rightarrow> string \<Rightarrow> bool" where
  "ref_matches c image_ref =
     (if \<not> files_present c then False
      else case snapshot_ref_file c of Some stored \<Rightarrow> stored = image_ref | None \<Rightarrow> False)"

text \<open>A torn link companion does not parse.\<close>

definition write_link :: "text_write \<Rightarrow> SnapshotLink \<Rightarrow> cache_dir \<Rightarrow> cache_dir" where
  "write_link w link c =
     (case w of WriteAll \<Rightarrow> c\<lparr>snapshot_link_file := Some link\<rparr>
              | WriteNothing \<Rightarrow> c
              | WritePrefix _ \<Rightarrow> c\<lparr>snapshot_link_file := None\<rparr>)"

definition read_link :: "cache_dir \<Rightarrow> SnapshotLink option" where
  "read_link c = snapshot_link_file c"

definition link_matches :: "cache_dir \<Rightarrow> SnapshotLink \<Rightarrow> bool" where
  "link_matches c expected \<longleftrightarrow> read_link c = Some expected"

definition write_env :: "text_write \<Rightarrow> string \<Rightarrow> cache_dir \<Rightarrow> cache_dir" where
  "write_env w env_hash c = c\<lparr>snapshot_env_file := write_text w env_hash (snapshot_env_file c)\<rparr>"

definition env_matches :: "cache_dir \<Rightarrow> string \<Rightarrow> bool" where
  "env_matches c env_hash =
     (case snapshot_env_file c of Some stored \<Rightarrow> stored = env_hash | None \<Rightarrow> False)"

record RestoreDecision =
  rd_files_present :: bool
  rd_ref_matched :: bool
  rd_env_matched :: bool

definition warm_ok :: "RestoreDecision \<Rightarrow> bool" where
  "warm_ok d \<longleftrightarrow> rd_files_present d \<and> rd_ref_matched d \<and> rd_env_matched d"

definition restore_decision :: "cache_dir \<Rightarrow> string \<Rightarrow> string \<Rightarrow> RestoreDecision" where
  "restore_decision c image_ref env_hash =
     (let present = files_present c
      in \<lparr>rd_files_present = present, rd_ref_matched = ref_matches c image_ref,
          rd_env_matched = (present \<and> env_matches c env_hash)\<rparr>)"

text \<open>The six removals of \<open>clear\<close>, each of which may fail.\<close>

record clear_io =
  rm_vmstate :: bool
  rm_mem :: bool
  rm_ref :: bool
  rm_env :: bool
  rm_link :: bool
  rm_token :: bool

definition clear_all :: clear_io where
  "clear_all = \<lparr>rm_vmstate = True, rm_mem = True, rm_ref = True, rm_env = True, rm_link = True,
                rm_token = True\<rparr>"

definition clear :: "clear_io \<Rightarrow> cache_dir \<Rightarrow> cache_dir" where
  "clear io c = c\<lparr>snap_vmstate := (if rm_vmstate io then False else snap_vmstate c),
                  snap_mem := (if rm_mem io then False else snap_mem c),
                  snapshot_ref_file := (if rm_ref io then None else snapshot_ref_file c),
                  snapshot_env_file := (if rm_env io then None else snapshot_env_file c),
                  snapshot_link_file := (if rm_link io then None else snapshot_link_file c),
                  restore_token_file := (if rm_token io then None else restore_token_file c)\<rparr>"

definition write_app_port :: "bool \<Rightarrow> text_write \<Rightarrow> u16 \<Rightarrow> cache_dir \<Rightarrow> cache_dir" where
  "write_app_port mkdir_ok w port c =
     (if \<not> mkdir_ok then c
      else c\<lparr>app_port_file := write_text w (show_dec (unat port)) (app_port_file c)\<rparr>)"

definition trim :: "string \<Rightarrow> string" where
  "trim s = rev (dropWhile is_whitespace (rev (dropWhile is_whitespace s)))"

definition read_app_port :: "cache_dir \<Rightarrow> u16 option" where
  "read_app_port c =
     Option.bind (app_port_file c) (\<lambda>s. map_option of_nat (parse_uint 65535 (trim s)))"

definition suppress :: "bool \<Rightarrow> bool \<Rightarrow> cache_dir \<Rightarrow> cache_dir" where
  "suppress mkdir_ok write_ok c = (if \<not> mkdir_ok then c else if write_ok then c\<lparr>no_snapshot := True\<rparr> else c)"

definition is_suppressed :: "cache_dir \<Rightarrow> bool" where
  "is_suppressed c \<longleftrightarrow> no_snapshot c"

section \<open>Snapshot policy\<close>

definition should_snapshot_on_cold_boot :: "bool \<Rightarrow> bool \<Rightarrow> bool \<Rightarrow> bool" where
  "should_snapshot_on_cold_boot present suppressed stateful =
     (if stateful then False else \<not> present \<and> \<not> suppressed)"

definition snapshot_forbidden_env_keys :: "string list" where
  "snapshot_forbidden_env_keys = [''TABBIFY_GIT_REMOTE'', ''TABBIFY_GIT_TOKEN'', ''TABBIFY_BROKER_TOKEN'']"

fun extra_env_is_snapshot_safe :: "string list \<Rightarrow> string + unit" where
  "extra_env_is_snapshot_safe [] = Inr ()"
| "extra_env_is_snapshot_safe (k # ks) =
     (case List.find (\<lambda>f. f = k) snapshot_forbidden_env_keys of
        Some hit \<Rightarrow> Inl hit | None \<Rightarrow> extra_env_is_snapshot_safe ks)"

record StatefulLaunchGate =
  block_warm_restore :: bool
  clear_legacy_snapshot :: bool

definition stateful_launch_gate :: "bool \<Rightarrow> bool \<Rightarrow> StatefulLaunchGate" where
  "stateful_launch_gate stateful present =
     \<lparr>block_warm_restore = stateful, clear_legacy_snapshot = (stateful \<and> present)\<rparr>"

definition must_scrub_before_snapshot :: "bool \<Rightarrow> bool" where
  "must_scrub_before_snapshot is_workspace = is_workspace"

definition needs_cred_restore :: "bool \<Rightarrow> bool \<Rightarrow> bool" where
  "needs_cred_restore is_workspace has_cap_files \<longleftrightarrow> is_workspace \<and> has_cap_files"

section \<open>Readiness port and disk\<close>

record Runtime =
  rt_port :: "u16 option"
  rt_vcpus :: "u32 option"
  rt_stateful :: bool
  rt_data_mount :: "string option"

record FcConfig =
  app_port :: u16
  cfg_vcpus :: u32

datatype PortPlan = Fixed u16 | Probe "u16 list"

datatype PortSource = PsWorkspace | PsManifest | PsImage | PsPersisted | PsDefault

record PortDecision =
  plan :: PortPlan
  source :: PortSource

definition resolve_vcpus :: "Runtime \<Rightarrow> FcConfig \<Rightarrow> u32" where
  "resolve_vcpus rt cfg = (case rt_vcpus rt of Some v \<Rightarrow> v | None \<Rightarrow> cfg_vcpus cfg)"

definition resolve_port :: "Runtime \<Rightarrow> u16 option \<Rightarrow> FcConfig \<Rightarrow> u16" where
  "resolve_port rt image_port cfg =
     (case opt_or (rt_port rt) image_port of Some p \<Rightarrow> p | None \<Rightarrow> app_port cfg)"

definition workspace_or_resolved_port :: "bool \<Rightarrow> Runtime \<Rightarrow> u16 option \<Rightarrow> FcConfig \<Rightarrow> u16" where
  "workspace_or_resolved_port is_workspace rt image_port cfg =
     (if is_workspace then app_port cfg else resolve_port rt image_port cfg)"

definition resolve_port_plan ::
  "bool \<Rightarrow> Runtime \<Rightarrow> u16 list \<Rightarrow> u16 option \<Rightarrow> FcConfig \<Rightarrow> PortDecision" where
  "resolve_port_plan is_workspace rt exposed persisted cfg =
     (if is_workspace then \<lparr>plan = Fixed (app_port cfg), source = PsWorkspace\<rparr>
      else case rt_port rt of
        Some p \<Rightarrow> \<lparr>plan = Fixed p, source = PsManifest\<rparr>
      | None \<Rightarrow>
          (case exposed of
             [only] \<Rightarrow> \<lparr>plan = Fixed only, source = PsImage\<rparr>
           | _ # _ # _ \<Rightarrow> \<lparr>plan = Probe exposed, source = PsImage\<rparr>
           | [] \<Rightarrow>
               (case persisted of
                  Some p \<Rightarrow> \<lparr>plan = Fixed p, source = PsPersisted\<rparr>
                | None \<Rightarrow> \<lparr>plan = Fixed (app_port cfg), source = PsDefault\<rparr>)))"

definition restore_port_source :: "bool \<Rightarrow> Runtime \<Rightarrow> u16 list \<Rightarrow> u16 option \<Rightarrow> PortSource" where
  "restore_port_source is_workspace rt exposed persisted =
     (if is_workspace then PsWorkspace
      else if rt_port rt \<noteq> None then PsManifest
      else if persisted \<noteq> None then PsPersisted
      else if exposed = [] then PsDefault else PsImage)"

definition stateful_data_disk :: "string \<Rightarrow> string \<Rightarrow> Runtime \<Rightarrow> string option" where
  "stateful_data_disk data_dir uuid rt =
     (if rt_stateful rt then Some (data_dir @ ''/apps/'' @ uuid @ ''/data.ext4'') else None)"

definition stateful_data_mount :: "Runtime \<Rightarrow> unit + string option" where
  "stateful_data_mount rt =
     (if \<not> rt_stateful rt then Inr None
      else case rt_data_mount rt of
        Some m \<Rightarrow> if trim m \<noteq> [] then Inr (Some m) else Inl ()
      | None \<Rightarrow> Inl ())"

end
