(* ===== verification/LinkAllocator.thy ===== *)
theory LinkAllocator
  imports Snapshot SlotPool "HOL-Library.AList"
begin

unbundle bit_operations_syntax

text \<open>
  The host-wide Firecracker link allocator (\<open>src/src/firecracker/link_allocator.rs\<close> and
  \<open>link_allocator_store.rs\<close>, the TAP names of \<open>firecracker/mod.rs\<close>): subnets and slot addresses, the
  durable slot assignments under their file lock, launch claims, garbage collection and the parse of
  the host's live interfaces. The hash is a parameter; the snapshot and record files that keep an
  assignment alive are what their readers get from them.
\<close>

section \<open>Subnets and addresses\<close>

definition SERVING_LINK_SLOTS :: u32 where "SERVING_LINK_SLOTS = 16382"
definition RESERVATION_TTL_SECS :: u64 where "RESERVATION_TTL_SECS = 15 * 60"
definition LAUNCH_RESERVATION_SECS :: u64 where "LAUNCH_RESERVATION_SECS = 2 * 60"

datatype link_error =
    InvalidSubnet
  | PrefixTooLong nat
  | SlotOutOfRange
  | SubnetExhausted
  | SubnetTooSmall
  | StateUnreadable
  | StateUnwritable
  | LockFailed
  | LiveLinksUnavailable
  | TapStillLive
  | LaunchReserved
  | LegacySlotTaken
  | SlotsExhausted
  | AssignmentGone
  | OwnerChanged

definition prefix_mask :: "nat \<Rightarrow> u32" where
  "prefix_mask prefix = (if prefix = 0 then 0 else push_bit (32 - prefix) word_max)"

text \<open>The address and the prefix of a CIDR, as \<open>normalize_subnet\<close> reads them.\<close>

definition parse_subnet :: "string \<Rightarrow> link_error + (u32 \<times> nat)" where
  "parse_subnet subnet =
     (case split_once CHR ''/'' subnet of
        None \<Rightarrow> Inl InvalidSubnet
      | Some (ip, prefix) \<Rightarrow>
          (case parse_ipv4 ip of
             None \<Rightarrow> Inl InvalidSubnet
           | Some a \<Rightarrow>
               (case parse_uint 255 prefix of
                  None \<Rightarrow> Inl InvalidSubnet
                | Some p \<Rightarrow> if 30 < p then Inl (PrefixTooLong p) else Inr (a AND prefix_mask p, p))))"

definition normalize_subnet :: "string \<Rightarrow> link_error + string" where
  "normalize_subnet subnet =
     (case parse_subnet subnet of
        Inl e \<Rightarrow> Inl e
      | Inr (ip, prefix) \<Rightarrow> Inr (show_ipv4 ip @ ''/'' @ show_dec prefix))"

definition subnet_slot_capacity :: "string \<Rightarrow> link_error + u64" where
  "subnet_slot_capacity subnet =
     (case normalize_subnet subnet of
        Inl e \<Rightarrow> Inl e
      | Inr normalized \<Rightarrow>
          (case Option.bind (split_once CHR ''/'' normalized) (\<lambda>(_, p). parse_uint 255 p) of
             None \<Rightarrow> Inl InvalidSubnet
           | Some prefix \<Rightarrow> Inr (push_bit (30 - prefix) 1)))"

definition validate_subnet_capacity :: "string \<Rightarrow> link_error + unit" where
  "validate_subnet_capacity subnet =
     (case normalize_subnet subnet of
        Inl e \<Rightarrow> Inl e
      | Inr normalized \<Rightarrow>
          (case subnet_slot_capacity normalized of
             Inl e \<Rightarrow> Inl e
           | Inr capacity \<Rightarrow>
               if capacity < ucast SERVING_LINK_SLOTS + 1 then Inl SubnetTooSmall else Inr ()))"

definition link_ips :: "string \<Rightarrow> u32 \<Rightarrow> link_error + (u32 \<times> u32)" where
  "link_ips subnet slot =
     (case normalize_subnet subnet of
        Inl e \<Rightarrow> Inl e
      | Inr normalized \<Rightarrow>
          (case subnet_slot_capacity normalized of
             Inl e \<Rightarrow> Inl e
           | Inr capacity \<Rightarrow>
               if capacity \<le> ucast slot then Inl SlotOutOfRange
               else (case parse_ipv4 (hd (split_on CHR ''/'' normalized)) of
                       None \<Rightarrow> Inl InvalidSubnet
                     | Some base \<Rightarrow>
                         (case checked_add base (slot * 4 + 1) of
                            None \<Rightarrow> Inl SubnetExhausted
                          | Some host \<Rightarrow> Inr (host, host + 1)))))"

lemma parse_show_subnet:
  assumes "p \<le> 30"
  shows "split_once CHR ''/'' (show_ipv4 ip @ CHR ''/'' # show_dec p) = Some (show_ipv4 ip, show_dec p)"
    and "parse_uint 255 (show_dec p) = Some p"
    and "hd (split_on CHR ''/'' (show_ipv4 ip @ CHR ''/'' # show_dec p)) = show_ipv4 ip"
  using assms show_ipv4_no_slash [of ip]
  by (simp_all add: split_once_append parse_uint_show_dec split_on_append)

lemma parse_subnet_Inr: "parse_subnet s = Inr (ip, p) \<Longrightarrow> p \<le> 30 \<and> ip AND prefix_mask p = ip"
  by (auto simp: parse_subnet_def word_bw_assocs split: option.splits if_splits)

lemma normalize_Inr:
  assumes "normalize_subnet s = Inr n"
  obtains ip p where "parse_subnet s = Inr (ip, p)" "n = show_ipv4 ip @ ''/'' @ show_dec p" "p \<le> 30"
    "parse_subnet n = Inr (ip, p)"
proof -
  obtain ip p where ip: "parse_subnet s = Inr (ip, p)" "n = show_ipv4 ip @ ''/'' @ show_dec p"
    using assms by (auto simp: normalize_subnet_def split: sum.splits)
  note w = parse_subnet_Inr [OF ip(1)]
  then have "parse_subnet n = Inr (ip, p)"
    by (simp add: ip(2) parse_subnet_def parse_show_subnet)
  with that ip w show thesis by blast
qed

lemma capacity_normalized:
  assumes "parse_subnet s = Inr (ip, p)"
  shows "subnet_slot_capacity s = Inr (push_bit (30 - p) 1)"
  using parse_subnet_Inr [OF assms] assms
  by (simp add: subnet_slot_capacity_def normalize_subnet_def parse_show_subnet)

text \<open>The network address of a normalized subnet leaves room for its hosts.\<close>

lemma masked_base_room:
  fixes ip :: u32
  assumes "p \<le> 30" "ip AND prefix_mask p = ip"
  shows "unat ip + 2 ^ (32 - p) \<le> 2 ^ 32"
proof (cases "p = 0")
  case True
  then show ?thesis using assms(2) by (simp add: prefix_mask_def)
next
  case False
  have "2 ^ (32 - p) dvd unat ip"
  proof -
    have "take_bit (32 - p) ip = 0"
    proof (rule bit_word_eqI)
      fix n assume n: "n < LENGTH(32)"
      have "bit ip n \<longleftrightarrow> bit (ip AND prefix_mask p) n" by (simp only: assms(2))
      also have "\<dots> \<longrightarrow> 32 - p \<le> n" using False by (simp add: bit_and_iff prefix_mask_def bit_push_bit_iff)
      finally show "bit (take_bit (32 - p) ip) n = bit 0 n" by (auto simp: bit_take_bit_iff)
    qed
    then have "unat (take_bit (32 - p) ip) = 0" by simp
    then have "take_bit (32 - p) (unat ip) = 0" by (simp add: unsigned_take_bit_eq)
    then show ?thesis by (simp add: take_bit_eq_mod mod_eq_0_iff_dvd)
  qed
  then obtain q where q: "unat ip = 2 ^ (32 - p) * q" by blast
  have "(2::nat) ^ (32 - p) * 2 ^ p = 2 ^ 32" using assms(1) by (simp flip: power_add)
  moreover have "unat ip < 2 ^ 32" using unat_le_max [of ip] by simp
  ultimately have "q < 2 ^ p" using q by (metis mult_less_cancel1)
  then have "2 ^ (32 - p) * (q + 1) \<le> 2 ^ (32 - p) * (2::nat) ^ p" by (intro mult_le_mono2) simp
  with q \<open>(2::nat) ^ (32 - p) * 2 ^ p = 2 ^ 32\<close> show ?thesis by (simp add: algebra_simps)
qed

text \<open>Slot addresses never wrap and never leave the subnet: for a subnet that parses, \<open>link_ips\<close> answers
  exactly for the slots below the capacity 2^(30 - prefix), with the host address base + 4 slot + 1 and
  the guest address one above it, both below the end of the subnet.\<close>

theorem link_ips_in_subnet:
  assumes "parse_subnet subnet = Inr (base, prefix)"
  shows "(case link_ips subnet slot of
            Inl e \<Rightarrow> e = SlotOutOfRange \<and> 2 ^ (30 - prefix) \<le> unat slot
          | Inr (host, guest) \<Rightarrow>
              unat slot < 2 ^ (30 - prefix) \<and> unat host = unat base + 4 * unat slot + 1 \<and>
              unat guest = unat host + 1 \<and> unat guest < unat base + 2 ^ (32 - prefix))"
proof -
  note w = parse_subnet_Inr [OF assms]
  have room: "unat base + 2 ^ (32 - prefix) \<le> 2 ^ 32" using masked_base_room w by blast
  have norm: "normalize_subnet subnet = Inr (show_ipv4 base @ ''/'' @ show_dec prefix)"
    using assms by (simp add: normalize_subnet_def)
  have cap: "subnet_slot_capacity (show_ipv4 base @ CHR ''/'' # show_dec prefix) = Inr (push_bit (30 - prefix) 1)"
    by (rule capacity_normalized [of _ base])
       (use w in \<open>simp add: parse_subnet_def parse_show_subnet\<close>)
  have four: "(2::nat) ^ (32 - prefix) = 4 * 2 ^ (30 - prefix)"
  proof -
    have "32 - prefix = Suc (Suc (30 - prefix))" using w by arith
    then show ?thesis by simp
  qed
  have small: "(2::nat) ^ (30 - prefix) \<le> 2 ^ 30" by (intro power_increasing) auto
  have c: "unat (push_bit (30 - prefix) (1 :: u64)) = 2 ^ (30 - prefix)" by (simp add: unat_two_power)
  have u: "unat (ucast slot :: u64) = unat slot" 
    using unat_le_max [of slot] by (simp add: unsigned_ucast_eq take_bit_nat_eq_self)
  show ?thesis
  proof (cases "2 ^ (30 - prefix) \<le> unat slot")
    case True
    then have "push_bit (30 - prefix) (1 :: u64) \<le> ucast slot" by (simp only: word_le_nat_alt c u)
    then show ?thesis using True by (simp add: link_ips_def norm cap)
  next
    case False
    then have nle: "\<not> push_bit (30 - prefix) (1 :: u64) \<le> ucast slot"
      by (simp only: word_le_nat_alt c u not_False_eq_True)
    have s: "unat (slot * 4 + 1) = 4 * unat slot + 1"
      using False small by (subst unat_add_lem [THEN iffD1] | simp add: unat_word_ariths)+
    have lt: "unat base + (4 * unat slot + 1) < 2 ^ 32" using room four False by linarith
    then obtain host where host: "checked_add base (slot * 4 + 1) = Some host"
      by (simp add: checked_add_def s)
    from checked_add_Some [OF host] have h: "unat host = unat base + 4 * unat slot + 1" by (simp add: s)
    then have g: "unat (host + 1) = unat host + 1"
      using room four False by (simp add: unat_word_ariths)
    show ?thesis
      using nle host h g room four False
      by (simp add: link_ips_def norm cap parse_show_subnet w)
  qed
qed

theorem link_ips_in_subnet_witness:
  "case link_ips ''172.31.7.9/16'' 5 of Inl e \<Rightarrow> False
   | Inr (host, guest) \<Rightarrow> unat host = 2887712768 + 4 * 5 + 1 \<and> unat guest = unat host + 1"
proof -
  have p: "parse_subnet ''172.31.7.9/16'' = Inr (2887712768, 16)"
    by (simp add: parse_subnet_def parse_ipv4_def parse_octet_def is_dec_digit_def dec_val_def digit_val_def
        octets_def parse_uint_def prefix_mask_def word_max_def mask_eq_exp_minus_1)
  show ?thesis
    using link_ips_in_subnet [OF p, of 5] by (simp split: sum.splits prod.splits)
qed

section \<open>TAP names\<close>

type_synonym blake3 = "string \<Rightarrow> u8 list"

definition hash48 :: "blake3 \<Rightarrow> string \<Rightarrow> u64" where
  "hash48 b3 key =
     (let b = b3 key; byte = (\<lambda>i. ucast (b ! i) :: u64)
      in push_bit 40 (byte 0) OR push_bit 32 (byte 1) OR push_bit 24 (byte 2) OR push_bit 16 (byte 3) OR
         push_bit 8 (byte 4) OR byte 5)"

definition fc_tap_name_for_key :: "blake3 \<Rightarrow> string \<Rightarrow> string" where
  "fc_tap_name_for_key b3 key = ''fc-'' @ show_hex_padded 12 (unat (hash48 b3 key))"

definition fc_api_sock_for_key :: "blake3 \<Rightarrow> string \<Rightarrow> string" where
  "fc_api_sock_for_key b3 key = ''/tmp/firecracker-'' @ fc_tap_name_for_key b3 key @ ''.sock''"

definition vm_uuid :: "string \<Rightarrow> string" where
  "vm_uuid vm_key = hd (split_on CHR '':'' vm_key)"

section \<open>Assignments\<close>

record StoredAssignment =
  slot :: u32
  updated_at_unix :: u64
  launch_reserved_until_unix :: u64
  launch_owner :: "string option"

type_synonym assignments = "(string \<times> StoredAssignment) list"

text \<open>The assignments file: absent (read as empty), unreadable or unparsable, or parsed.\<close>

datatype assign_file = NoFile | BadFile | Stored assignments

record LinkAllocation =
  la_slot :: u32
  la_tap_name :: string
  la_tap_subnet :: string

record LiveLinks =
  by_tap :: "(string \<times> u32) list"
  live_slots :: "u32 list"

definition no_links :: LiveLinks where
  "no_links = \<lparr>by_tap = [], live_slots = []\<rparr>"

datatype AllocationMode = Reserve | Acquire

text \<open>What one locked operation meets: the hash, the clock at each place it is read, the caches and
  runner records that own assignments, and the file operations. A runner record is \<open>None\<close> when it
  cannot be read or parsed, otherwise the \<open>image_ref\<close> string it has, if any.\<close>

record link_env =
  b3 :: blake3
  tap_subnet :: string
  t_gc :: u64
  t_check :: u64
  t_set :: u64
  t_launch :: u64
  caches :: "string \<Rightarrow> cache_dir"
  runner_image :: "string \<Rightarrow> string option option"
  root_ok :: bool
  lock_ok :: bool
  write_ok :: bool

definition allocation :: "link_env \<Rightarrow> string \<Rightarrow> u32 \<Rightarrow> LinkAllocation" where
  "allocation env vm_key s =
     \<lparr>la_slot = s, la_tap_name = fc_tap_name_for_key (b3 env) vm_key,
      la_tap_subnet = (case normalize_subnet (tap_subnet env) of Inr n \<Rightarrow> n | Inl _ \<Rightarrow> tap_subnet env)\<rparr>"

definition snapshot_owns :: "link_env \<Rightarrow> string \<Rightarrow> u32 \<Rightarrow> bool" where
  "snapshot_owns env vm_key s =
     (let cache = caches env (vm_uuid vm_key)
      in files_present cache \<and>
         (case read_link cache of
            None \<Rightarrow> False
          | Some meta \<Rightarrow> sl_slot meta = s \<and> sl_tap_name meta = fc_tap_name_for_key (b3 env) vm_key \<and>
              sl_tap_subnet meta = (case normalize_subnet (tap_subnet env) of Inr n \<Rightarrow> n | Inl _ \<Rightarrow> [])))"

definition runner_record_owns :: "link_env \<Rightarrow> string \<Rightarrow> bool" where
  "runner_record_owns env vm_key =
     (case runner_image env (vm_uuid vm_key) of
        None \<Rightarrow> False
      | Some (Some reff) \<Rightarrow> vm_key = vm_uuid vm_key @ '':'' @ reff
      | Some None \<Rightarrow> vm_key = vm_uuid vm_key)"

definition gc :: "link_env \<Rightarrow> LiveLinks \<Rightarrow> string option \<Rightarrow> assignments \<Rightarrow> assignments" where
  "gc env live preserve st =
     filter (\<lambda>(vm_key, a).
        vm_key = (case preserve of Some k \<Rightarrow> k | None \<Rightarrow> []) \<or>
        map_of (by_tap live) (fc_tap_name_for_key (b3 env) vm_key) = Some (slot a) \<or>
        snapshot_owns env vm_key (slot a) \<or>
        runner_record_owns env vm_key \<or>
        sat_sub (t_gc env) (updated_at_unix a) \<le> RESERVATION_TTL_SECS) st"

definition preferred_slot :: "blake3 \<Rightarrow> string \<Rightarrow> u32" where
  "preferred_slot b vm_key = of_nat (unat (hash48 b vm_key) mod unat SERVING_LINK_SLOTS)"

text \<open>The probe order from the preferred slot, and the first slot neither assigned nor live.\<close>

definition slot_order :: "u32 \<Rightarrow> u32 list" where
  "slot_order preferred =
     map (\<lambda>offset. (preferred + of_nat offset) mod SERVING_LINK_SLOTS) [0 ..< unat SERVING_LINK_SLOTS]"

definition first_free_slot :: "u32 \<Rightarrow> u32 list \<Rightarrow> u32 list \<Rightarrow> link_error + u32" where
  "first_free_slot preferred assigned live =
     (case List.find (\<lambda>s. s \<notin> set assigned \<and> s \<notin> set live) (slot_order preferred) of
        Some s \<Rightarrow> Inr s | None \<Rightarrow> Inl SlotsExhausted)"

text \<open>The closure of \<open>allocate\<close>: the state it leaves and its answer.\<close>

definition allocate_in ::
  "link_env \<Rightarrow> string \<Rightarrow> AllocationMode \<Rightarrow> string option \<Rightarrow> LiveLinks \<Rightarrow> assignments \<Rightarrow>
   link_error + (assignments \<times> LinkAllocation)" where
  "allocate_in env vm_key alloc_mode owner live st0 =
     (let st = gc env live (Some vm_key) st0;
          tap = fc_tap_name_for_key (b3 env) vm_key;
          live_expected = map_of (by_tap live) tap
      in if alloc_mode = Acquire \<and> live_expected \<noteq> None then Inl TapStillLive
         else if alloc_mode = Acquire \<and>
                 (case map_of st vm_key of
                    Some stored \<Rightarrow> t_check env < launch_reserved_until_unix stored | None \<Rightarrow> False)
         then Inl LaunchReserved
         else case live_expected of
           Some actual_slot \<Rightarrow>
             if list_ex (\<lambda>(key, a). key \<noteq> vm_key \<and> slot a = actual_slot) st then Inl LegacySlotTaken
             else
               let (until, own) = (case map_of st vm_key of
                      Some stored \<Rightarrow> (launch_reserved_until_unix stored, launch_owner stored)
                    | None \<Rightarrow> (0, None))
               in Inr (AList.update vm_key
                         \<lparr>slot = actual_slot, updated_at_unix = t_set env,
                          launch_reserved_until_unix = until, launch_owner = own\<rparr> st,
                       allocation env vm_key actual_slot)
         | None \<Rightarrow>
             let fresh =
               (case first_free_slot (preferred_slot (b3 env) vm_key) (map (\<lambda>(_, a). slot a) st)
                       (live_slots live) of
                  Inl e \<Rightarrow> Inl e
                | Inr s \<Rightarrow>
                    Inr (AList.update vm_key
                           \<lparr>slot = s, updated_at_unix = t_set env,
                            launch_reserved_until_unix =
                              (if alloc_mode = Acquire
                               then sat_add (t_launch env) LAUNCH_RESERVATION_SECS else 0),
                            launch_owner = owner\<rparr> st,
                         allocation env vm_key s))
             in case map_of st vm_key of
                  None \<Rightarrow> fresh
                | Some existing \<Rightarrow>
                    if slot existing \<notin> set (live_slots live)
                    then let refreshed = existing\<lparr>updated_at_unix := t_set env\<rparr>;
                             claimed = (if alloc_mode = Acquire
                               then refreshed\<lparr>launch_reserved_until_unix :=
                                                sat_add (t_launch env) LAUNCH_RESERVATION_SECS,
                                              launch_owner := owner\<rparr>
                               else refreshed)
                         in Inr (AList.update vm_key claimed st, allocation env vm_key (slot existing))
                    else fresh)"

text \<open>An operation under the lock: read, run, and write back only when it succeeded.\<close>

definition with_locked_state ::
  "link_env \<Rightarrow> (assignments \<Rightarrow> link_error + (assignments \<times> 'r)) \<Rightarrow> assign_file \<Rightarrow>
   (link_error + 'r) \<times> assign_file" where
  "with_locked_state env f disk =
     (if \<not> root_ok env then (Inl StateUnwritable, disk)
      else if \<not> lock_ok env then (Inl LockFailed, disk)
      else case (case disk of NoFile \<Rightarrow> Some [] | BadFile \<Rightarrow> None | Stored st \<Rightarrow> Some st) of
        None \<Rightarrow> (Inl StateUnreadable, disk)
      | Some st \<Rightarrow>
          (case f st of
             Inl e \<Rightarrow> (Inl e, disk)
           | Inr (st', r) \<Rightarrow> if write_ok env then (Inr r, Stored st') else (Inl StateUnwritable, disk)))"

text \<open>\<open>live\<close> is what \<open>ip -o -4 addr show\<close> lists, \<open>None\<close> when the command fails.\<close>

definition allocate ::
  "link_env \<Rightarrow> string \<Rightarrow> AllocationMode \<Rightarrow> string option \<Rightarrow> LiveLinks option \<Rightarrow> assign_file \<Rightarrow>
   (link_error + LinkAllocation) \<times> assign_file" where
  "allocate env vm_key alloc_mode owner live disk =
     (case validate_subnet_capacity (tap_subnet env) of
        Inl e \<Rightarrow> (Inl e, disk)
      | Inr _ \<Rightarrow>
          (case live of
             None \<Rightarrow> (Inl LiveLinksUnavailable, disk)
           | Some l \<Rightarrow> with_locked_state env (allocate_in env vm_key alloc_mode owner l) disk))"

definition reserve where
  "reserve env vm_key live disk = allocate env vm_key Reserve None live disk"

definition acquire where
  "acquire env vm_key owner live disk = allocate env vm_key Acquire (Some owner) live disk"

definition clear_launch_owner_in :: "string \<Rightarrow> string \<Rightarrow> assignments \<Rightarrow> link_error + (assignments \<times> unit)" where
  "clear_launch_owner_in vm_key owner st =
     (case map_of st vm_key of
        None \<Rightarrow> Inl AssignmentGone
      | Some stored \<Rightarrow>
          if launch_owner stored \<noteq> Some owner then Inl OwnerChanged
          else Inr (AList.update vm_key
                      (stored\<lparr>launch_owner := None, launch_reserved_until_unix := 0\<rparr>) st, ()))"

text \<open>Confirming and dropping a claim both release the owner token; dropping ignores the result.\<close>

definition clear_launch_owner :: "link_env \<Rightarrow> string \<Rightarrow> string \<Rightarrow> assign_file \<Rightarrow> (link_error + unit) \<times> assign_file"
  where "clear_launch_owner env vm_key owner disk = with_locked_state env (clear_launch_owner_in vm_key owner) disk"

definition release_uuid_in :: "link_env \<Rightarrow> string \<Rightarrow> LiveLinks \<Rightarrow> assignments \<Rightarrow> link_error + (assignments \<times> nat)"
  where "release_uuid_in env uuid live st =
     (let st' = filter (\<lambda>(key, a).
            if key = uuid \<or> starts_with (uuid @ '':'') key
            then map_of (by_tap live) (fc_tap_name_for_key (b3 env) key) = Some (slot a)
            else True) st
      in Inr (st', length st - length st'))"

definition release_uuid ::
  "link_env \<Rightarrow> bool \<Rightarrow> string \<Rightarrow> LiveLinks option \<Rightarrow> assign_file \<Rightarrow> (link_error + nat) \<times> assign_file" where
  "release_uuid env root_exists uuid live disk =
     (case validate_subnet_capacity (tap_subnet env) of
        Inl e \<Rightarrow> (Inl e, disk)
      | Inr _ \<Rightarrow>
          if \<not> root_exists then (Inr 0, disk)
          else case live of
                 None \<Rightarrow> (Inl LiveLinksUnavailable, disk)
               | Some l \<Rightarrow> with_locked_state env (release_uuid_in env uuid l) disk)"

section \<open>The host's live interfaces\<close>

definition trim_colons :: "string \<Rightarrow> string" where
  "trim_colons s = rev (dropWhile (\<lambda>c. c = CHR '':'') (rev s))"

definition get :: "'a list \<Rightarrow> nat \<Rightarrow> 'a option" where
  "get xs i = (if i < length xs then Some (xs ! i) else None)"

definition live_line :: "u32 \<Rightarrow> string \<Rightarrow> (string \<times> u32) option" where
  "live_line base line =
     (let fields = split_whitespace line in
      case get fields 1 of
        None \<Rightarrow> None
      | Some name \<Rightarrow>
          (case Option.bind (position (\<lambda>v. v = ''inet'') fields)
                  (\<lambda>i. Option.bind (get fields (i + 1)) (\<lambda>v. parse_ipv4 (hd (split_on CHR ''/'' v)))) of
             None \<Rightarrow> None
           | Some ip \<Rightarrow>
               (case checked_sub ip base of
                  None \<Rightarrow> None
                | Some offset \<Rightarrow>
                    if unat offset mod 4 \<noteq> 1 then None
                    else let s = of_nat (unat offset div 4) in
                         if s < SERVING_LINK_SLOTS then Some (trim_colons name, s) else None)))"

definition parse_live_links :: "string \<Rightarrow> string \<Rightarrow> LiveLinks" where
  "parse_live_links subnet out =
     (case (case normalize_subnet subnet of
              Inl _ \<Rightarrow> None | Inr n \<Rightarrow> parse_ipv4 (hd (split_on CHR ''/'' n))) of
        None \<Rightarrow> no_links
      | Some base \<Rightarrow>
          fold (\<lambda>line links. case live_line base line of
                  None \<Rightarrow> links
                | Some (tap, s) \<Rightarrow> \<lparr>by_tap = AList.update tap s (by_tap links),
                                   live_slots = List.insert s (live_slots links)\<rparr>)
            (lines_of out) no_links)"

section \<open>TAP names fit an interface name\<close>

lemma byte_bit: "bit (ucast (x :: u8) :: u64) n \<Longrightarrow> n < 8"
  by (auto simp: bit_ucast_iff dest: bit_imp_le_length)

lemma hash48_bit: "bit (hash48 b key) n \<Longrightarrow> n < 48"
  unfolding hash48_def Let_def bit_or_iff bit_push_bit_iff
  by (elim disjE conjE) (drule byte_bit, linarith)+

lemma hash48_bound: "unat (hash48 b key) < 2 ^ 48"
proof -
  have "take_bit 48 (hash48 b key) = hash48 b key"
    by (rule bit_word_eqI) (use hash48_bit in \<open>auto simp: bit_take_bit_iff\<close>)
  then have "take_bit 48 (unat (hash48 b key)) = unat (hash48 b key)"
    by (metis unsigned_take_bit_eq)
  then show ?thesis by (metis take_bit_nat_less_exp)
qed

text \<open>Every TAP name is exactly 15 characters, the longest name Linux takes for an interface, whatever
  the key and its digest, and the API socket path contains it between the fixed prefix and suffix the
  orphan sweep looks for.\<close>

theorem tap_name_is_ifnamsiz:
  "length (fc_tap_name_for_key b key) = 15 \<and>
   starts_with ''/tmp/firecracker-'' (fc_api_sock_for_key b key) \<and>
   ends_with ''.sock'' (fc_api_sock_for_key b key)"
proof -
  have "unat (hash48 b key) < 16 ^ 12" using hash48_bound [of b key] by simp
  then have "length (show_hex_padded 12 (unat (hash48 b key))) = 12"
    by (intro show_hex_padded_length) auto
  then have "length (fc_tap_name_for_key b key) = 15" by (simp add: fc_tap_name_for_key_def)
  moreover have "starts_with ''/tmp/firecracker-'' (fc_api_sock_for_key b key)"
    unfolding fc_api_sock_for_key_def by (rule starts_with_append)
  moreover have "ends_with ''.sock'' (fc_api_sock_for_key b key)"
    unfolding fc_api_sock_for_key_def append_assoc [symmetric] by (rule ends_with_append)
  ultimately show ?thesis by blast
qed

section \<open>The slot pool\<close>

definition serving_pool :: "u32 set" where
  "serving_pool = {s. unat s < 16382}"

lemma slots_nat: "unat SERVING_LINK_SLOTS = 16382"
  by (simp add: SERVING_LINK_SLOTS_def)

lemma slot_order_unat:
  assumes "unat p < 16382" "i < 16382"
  shows "unat ((p + of_nat i) mod SERVING_LINK_SLOTS) = (unat p + i) mod 16382"
proof -
  have "unat (of_nat i :: u32) = i" using assms(2) by (simp add: unat_of_nat)
  then have "unat (p + of_nat i) = unat p + i"
    using assms by (simp add: unat_word_ariths)
  then show ?thesis by (simp add: unat_mod slots_nat)
qed

lemma set_slot_order:
  assumes "unat p < 16382"
  shows "set (slot_order p) = serving_pool"
proof
  show "set (slot_order p) \<subseteq> serving_pool"
    using assms by (auto simp: slot_order_def serving_pool_def slots_nat slot_order_unat simp del: upt_rec_numeral)
  show "serving_pool \<subseteq> set (slot_order p)"
  proof
    fix s :: u32 assume "s \<in> serving_pool"
    then have s: "unat s < 16382" by (simp add: serving_pool_def)
    define i where "i = (unat s + (16382 - unat p)) mod 16382"
    have i: "i < 16382" by (simp add: i_def)
    have "(unat p + i) mod 16382 = (unat p + (unat s + (16382 - unat p))) mod 16382"
      by (simp add: i_def mod_add_right_eq)
    also have "\<dots> = unat s" using assms s by simp
    finally have "unat ((p + of_nat i) mod SERVING_LINK_SLOTS) = unat s"
      using slot_order_unat [OF assms i] by simp
    then have "s = (p + of_nat i) mod SERVING_LINK_SLOTS" by (simp add: word_unat_eq_iff)
    then show "s \<in> set (slot_order p)"
      unfolding slot_order_def slots_nat set_map by (rule image_eqI) (use i in simp)
  qed
qed

lemma preferred_slot_bound: "unat (preferred_slot b key) < 16382"
  using mod_less_divisor [of 16382 "unat (hash48 b key)"]
  by (simp add: preferred_slot_def slots_nat unat_of_nat)

interpretation links: slot_pool
  "\<lambda>taken. List.find (\<lambda>s. s \<notin> taken) (slot_order (preferred_slot b key))" serving_pool for b key
proof unfold_locales
  fix taken x
  assume "List.find (\<lambda>s. s \<notin> taken) (slot_order (preferred_slot b key)) = Some x"
  from find_SomeD [OF this] show "x \<in> serving_pool \<and> x \<notin> taken"
    using set_slot_order [OF preferred_slot_bound] by auto
next
  fix taken
  assume "List.find (\<lambda>s. s \<notin> taken) (slot_order (preferred_slot b key)) = None"
  then show "serving_pool \<subseteq> taken"
    using find_NoneD set_slot_order [OF preferred_slot_bound, of b key] by fastforce
qed

lemma first_free_slot_find:
  "first_free_slot p assigned live =
     (case List.find (\<lambda>s. s \<notin> set assigned \<union> set live) (slot_order p) of
        Some s \<Rightarrow> Inr s | None \<Rightarrow> Inl SlotsExhausted)"
  by (simp add: first_free_slot_def)

section \<open>Well-formed assignments\<close>

definition slot_map :: "assignments \<Rightarrow> string \<Rightarrow> u32 option" where
  "slot_map st k = map_option slot (map_of st k)"

text \<open>Distinct keys hold distinct slots of the serving range.\<close>

definition link_wf :: "assignments \<Rightarrow> bool" where
  "link_wf st \<longleftrightarrow> distinct (map fst st) \<and> inj_on (slot_map st) (dom (slot_map st)) \<and>
     ran (slot_map st) \<subseteq> serving_pool"

definition live_wf :: "LiveLinks \<Rightarrow> bool" where
  "live_wf l \<longleftrightarrow> set (live_slots l) \<subseteq> serving_pool \<and> ran (map_of (by_tap l)) \<subseteq> set (live_slots l)"

lemma map_of_filter_pair:
  "distinct (map fst xs) \<Longrightarrow>
   map_of (filter P xs) k = (case map_of xs k of Some v \<Rightarrow> if P (k, v) then Some v else None | None \<Rightarrow> None)"
proof (induction xs)
  case (Cons x xs)
  then show ?case
    by (cases x) (auto simp: map_of_eq_None_iff split: option.splits)
qed simp

lemma distinct_fst_filter: "distinct (map fst xs) \<Longrightarrow> distinct (map fst (filter P xs))"
  by (metis distinct_map_filter)

lemma slot_map_filter:
  assumes "distinct (map fst st)"
  shows "slot_map (filter P st) \<subseteq>\<^sub>m slot_map st"
  using assms by (auto simp: map_le_def slot_map_def map_of_filter_pair dom_def split: option.splits if_splits)

lemma link_wf_filter:
  assumes "link_wf st"
  shows "link_wf (filter P st)"
proof -
  have le: "slot_map (filter P st) \<subseteq>\<^sub>m slot_map st"
    using assms slot_map_filter by (auto simp: link_wf_def)
  have sub: "slot_map (filter P st) k = Some s \<Longrightarrow> slot_map st k = Some s" for k s
    using le by (metis domI map_le_def)
  have "inj_on (slot_map (filter P st)) (dom (slot_map (filter P st)))"
  proof (rule inj_onI)
    fix x y
    assume a: "x \<in> dom (slot_map (filter P st))" "y \<in> dom (slot_map (filter P st))"
      "slot_map (filter P st) x = slot_map (filter P st) y"
    then obtain s where "slot_map (filter P st) x = Some s" "slot_map (filter P st) y = Some s" by auto
    then have "slot_map st x = Some s" "slot_map st y = Some s" using sub by auto
    then show "x = y" using assms by (auto simp: link_wf_def inj_on_def dom_def)
  qed
  moreover have "ran (slot_map (filter P st)) \<subseteq> ran (slot_map st)" using sub by (auto simp: ran_def)
  ultimately show ?thesis using assms distinct_fst_filter by (auto simp: link_wf_def)
qed

lemma slot_map_update: "slot_map (AList.update k a st) = (slot_map st)(k \<mapsto> slot a)"
  by (auto simp: slot_map_def fun_eq_iff update_conv')

lemma ran_slot_map: "distinct (map fst st) \<Longrightarrow> ran (slot_map st) = set (map (\<lambda>(_, a). slot a) st)"
  by (force simp: slot_map_def ran_def)

lemma link_wf_update:
  assumes "link_wf st" "unat (slot a) < 16382"
    and "\<And>k'. k' \<noteq> k \<Longrightarrow> slot_map st k' \<noteq> Some (slot a)"
  shows "link_wf (AList.update k a st)"
proof -
  have "inj_on ((slot_map st)(k \<mapsto> slot a)) (dom ((slot_map st)(k \<mapsto> slot a)))"
    using assms(1,3) by (auto simp: link_wf_def inj_on_def dom_def split: if_splits)
  moreover have "ran ((slot_map st)(k \<mapsto> slot a)) \<subseteq> serving_pool"
    using assms(1,2) by (auto simp: link_wf_def ran_def serving_pool_def split: if_splits)
  ultimately show ?thesis
    using assms(1) by (simp add: link_wf_def slot_map_update distinct_update)
qed

lemma allocate_in_stages:
  assumes "allocate_in env k m owner live st0 = Inr (st', a)"
  obtains (adopted) s x where "m = Reserve" "map_of (by_tap live) (fc_tap_name_for_key (b3 env) k) = Some s"
      "\<forall>(key, y) \<in> set (gc env live (Some k) st0). key \<noteq> k \<longrightarrow> slot y \<noteq> s"
      "slot x = s" "st' = AList.update k x (gc env live (Some k) st0)" "a = allocation env k s"
  | (kept) old x where "map_of (by_tap live) (fc_tap_name_for_key (b3 env) k) = None"
      "map_of (gc env live (Some k) st0) k = Some old" "slot old \<notin> set (live_slots live)" "slot x = slot old"
      "m = Acquire \<Longrightarrow> launch_reserved_until_unix old \<le> t_check env \<and> launch_owner x = owner \<and>
         launch_reserved_until_unix x = sat_add (t_launch env) LAUNCH_RESERVATION_SECS"
      "st' = AList.update k x (gc env live (Some k) st0)" "a = allocation env k (slot old)"
  | (fresh) s x where "map_of (by_tap live) (fc_tap_name_for_key (b3 env) k) = None"
      "first_free_slot (preferred_slot (b3 env) k) (map (\<lambda>(_, a). slot a) (gc env live (Some k) st0))
         (live_slots live) = Inr s" "slot x = s"
      "m = Acquire \<Longrightarrow> launch_owner x = owner \<and>
         launch_reserved_until_unix x = sat_add (t_launch env) LAUNCH_RESERVATION_SECS"
      "st' = AList.update k x (gc env live (Some k) st0)" "a = allocation env k s"
proof -
  let ?st = "gc env live (Some k) st0"
  let ?live = "map_of (by_tap live) (fc_tap_name_for_key (b3 env) k)"
  have go: "\<not> (m = Acquire \<and> ?live \<noteq> None)"
    "\<not> (m = Acquire \<and> (case map_of ?st k of
        Some stored \<Rightarrow> t_check env < launch_reserved_until_unix stored | None \<Rightarrow> False))"
    using assms by (auto simp: allocate_in_def Let_def split: if_splits)
  show thesis
  proof (cases ?live)
    case (Some s)
    with go(1) have m: "m = Reserve" by (cases m) auto
    from Some m assms have "\<not> list_ex (\<lambda>(key, y). key \<noteq> k \<and> slot y = s) ?st"
      by (auto simp: allocate_in_def Let_def split: if_splits)
    then have free: "\<forall>(key, y) \<in> set ?st. key \<noteq> k \<longrightarrow> slot y \<noteq> s" by (auto simp: list_ex_iff)
    with Some m assms show thesis
      by (auto simp: allocate_in_def Let_def list_ex_iff split: if_splits prod.splits intro!: adopted)
  next
    case None
    show thesis
    proof (cases "\<exists>old. map_of ?st k = Some old \<and> slot old \<notin> set (live_slots live)")
      case True
      then obtain old where old: "map_of ?st k = Some old" "slot old \<notin> set (live_slots live)" by blast
      show thesis
      proof (cases m)
        case Acquire
        show thesis
          by (rule kept [OF None old, where x = "old\<lparr>updated_at_unix := t_set env,
               launch_reserved_until_unix := sat_add (t_launch env) LAUNCH_RESERVATION_SECS,
               launch_owner := owner\<rparr>"])
             (use assms go old None Acquire in \<open>simp_all add: allocate_in_def Let_def\<close>)
      next
        case Reserve
        show thesis
          by (rule kept [OF None old, where x = "old\<lparr>updated_at_unix := t_set env\<rparr>"])
             (use assms go old None Reserve in \<open>simp_all add: allocate_in_def Let_def\<close>)
      qed
    next
      case False
      then obtain s where s: "first_free_slot (preferred_slot (b3 env) k) (map (\<lambda>(_, a). slot a) ?st)
         (live_slots live) = Inr s"
        using assms go None
        by (auto simp: allocate_in_def Let_def split: option.splits sum.splits if_splits)
      have run: "Inr (st', a) = (Inr (AList.update k
           \<lparr>slot = s, updated_at_unix = t_set env,
            launch_reserved_until_unix =
              (if m = Acquire then sat_add (t_launch env) LAUNCH_RESERVATION_SECS else 0),
            launch_owner = owner\<rparr> ?st, allocation env k s) :: link_error + _)"
        unfolding assms [symmetric] using go None False s
        by (auto simp: allocate_in_def Let_def split: option.splits)
      show thesis
        by (rule fresh [OF None s]) (use run in auto)
    qed
  qed
qed

lemma fresh_slot:
  assumes "first_free_slot (preferred_slot b k) assigned live = Inr s"
  shows "s \<in> serving_pool" "s \<notin> set assigned" "s \<notin> set live"
  using assms links.alloc_Some [where b = b and key = k and taken = "set assigned \<union> set live" and x = s]
  by (auto simp: first_free_slot_find split: option.splits)

text \<open>C36: Two VMs never share a link. In a state where distinct keys hold distinct slots, a successful
  allocation (a reservation or a launch claim, whatever was collected, adopted, kept or newly chosen)
  gives the key the slot it answers, keeps all slots distinct and inside the serving range, and never
  answers a slot that is live on another interface; a launch claim never answers a live slot at all.\<close>

theorem allocation_keeps_links_distinct:
  assumes "allocate_in env k m owner live st = Inr (st', a)" "link_wf st" "live_wf live"
  shows "link_wf st' \<and> slot_map st' k = Some (la_slot a) \<and> unat (la_slot a) < 16382 \<and>
    (la_slot a \<in> set (live_slots live) \<longrightarrow>
       m = Reserve \<and> map_of (by_tap live) (la_tap_name a) = Some (la_slot a))"
proof -
  let ?g = "gc env live (Some k) st"
  have g: "link_wf ?g" using link_wf_filter [OF assms(2)] by (simp add: gc_def)
  then have others: "slot_map ?g k' = Some s \<Longrightarrow> s \<in> set (map (\<lambda>(_, a). slot a) ?g)" for k' s
    using ran_slot_map [of ?g] by (auto simp: link_wf_def ran_def)
  show ?thesis
    using assms(1)
  proof (cases rule: allocate_in_stages)
    case (adopted s x)
    have live: "s \<in> serving_pool" using adopted(2) assms(3) by (auto simp: live_wf_def ran_def)
    have "slot_map ?g k' \<noteq> Some s" if "k' \<noteq> k" for k'
      using adopted(3) that by (auto simp: slot_map_def dest: map_of_SomeD)
    with live adopted have "link_wf st'"
      by (auto intro!: link_wf_update [OF g] simp: serving_pool_def)
    with adopted live show ?thesis by (simp add: slot_map_update allocation_def serving_pool_def)
  next
    case (kept old x)
    have old: "slot_map ?g k = Some (slot old)" using kept(2) by (simp add: slot_map_def)
    then have pool: "slot old \<in> serving_pool" using g by (auto simp: link_wf_def ran_def)
    have "slot_map ?g k' \<noteq> Some (slot old)" if "k' \<noteq> k" for k'
      using g old that by (auto simp: link_wf_def inj_on_def dom_def)
    with pool kept have "link_wf st'"
      by (auto intro!: link_wf_update [OF g] simp: serving_pool_def)
    with kept pool show ?thesis by (simp add: slot_map_update allocation_def serving_pool_def)
  next
    case (fresh s x)
    note f = fresh_slot [OF fresh(2)]
    have "slot_map ?g k' \<noteq> Some s" for k' using f(2) others by blast
    with f fresh have "link_wf st'"
      by (auto intro!: link_wf_update [OF g] simp: serving_pool_def)
    with fresh f show ?thesis by (simp add: slot_map_update allocation_def serving_pool_def)
  qed
qed

text \<open>A host with no live interface, one reserved key and a constant digest.\<close>

definition demo_env :: link_env where
  "demo_env = \<lparr>b3 = (\<lambda>_. replicate 32 0), tap_subnet = ''172.31.0.0/16'', t_gc = 1000, t_check = 1000,
     t_set = 1000, t_launch = 1000,
     caches = (\<lambda>_. \<lparr>snap_vmstate = False, snap_mem = False, snapshot_ref_file = None, snapshot_env_file = None,
       snapshot_link_file = None, app_port_file = None, restore_token_file = None, no_snapshot = False\<rparr>),
     runner_image = (\<lambda>_. None), root_ok = True, lock_ok = True, write_ok = True\<rparr>"

definition demo_assignment :: "u32 \<Rightarrow> StoredAssignment" where
  "demo_assignment s = \<lparr>slot = s, updated_at_unix = 900, launch_reserved_until_unix = 0, launch_owner = None\<rparr>"

lemma demo_gc: "gc demo_env no_links (Some k) [(''a:1'', demo_assignment 7)] = [(''a:1'', demo_assignment 7)]"
  by (simp add: gc_def demo_env_def demo_assignment_def RESERVATION_TTL_SECS_def sat_sub_def word_le_nat_alt)

lemma demo_acquire:
  "allocate_in demo_env ''a:1'' Acquire (Some ''o'') no_links [(''a:1'', demo_assignment 7)] =
     Inr ([(''a:1'', \<lparr>slot = 7, updated_at_unix = 1000, launch_reserved_until_unix = 1120,
                      launch_owner = Some ''o''\<rparr>)], allocation demo_env ''a:1'' 7)"
  unfolding allocate_in_def demo_gc
  by (simp add: no_links_def demo_assignment_def demo_env_def LAUNCH_RESERVATION_SECS_def sat_add_def
      word_less_nat_alt)

lemma demo_wf: "link_wf [(''a:1'', demo_assignment 7)]" "live_wf no_links"
  by (simp_all add: link_wf_def slot_map_def inj_on_def dom_def demo_assignment_def serving_pool_def ran_def
      live_wf_def no_links_def)

theorem allocation_keeps_links_distinct_witness:
  "unat (la_slot (allocation demo_env ''a:1'' 7)) < 16382"
  using allocation_keeps_links_distinct [OF demo_acquire demo_wf] by blast

section \<open>Collection\<close>

lemma slot_map_gc:
  assumes "distinct (map fst st)" "map_of st k' = Some x"
  shows "map_of (gc env live p st) k' =
    (if k' = (case p of Some k \<Rightarrow> k | None \<Rightarrow> []) \<or>
        map_of (by_tap live) (fc_tap_name_for_key (b3 env) k') = Some (slot x) \<or>
        snapshot_owns env k' (slot x) \<or> runner_record_owns env k' \<or>
        sat_sub (t_gc env) (updated_at_unix x) \<le> RESERVATION_TTL_SECS
     then Some x else None)"
  unfolding gc_def using assms by (simp add: map_of_filter_pair)

lemma allocate_in_other:
  assumes "allocate_in env k m owner live st = Inr (st', a)" "k' \<noteq> k"
  shows "map_of st' k' = map_of (gc env live (Some k) st) k'"
  using assms(1) by (cases rule: allocate_in_stages) (simp_all add: assms(2) update_conv')

text \<open>Allocating for one key loses another key's assignment only when nothing owns it: an entry whose
  TAP is live at its slot, whose snapshot was taken on it, whose runner record names its key, or that was
  touched within the last 15 minutes is untouched, in every field.\<close>

theorem collection_is_safe:
  assumes "allocate_in env k m owner live st = Inr (st', a)" "link_wf st"
    and "map_of st k' = Some x" "k' \<noteq> k"
  shows "map_of st' k' = Some x \<or>
    (map_of st' k' = None \<and> 900 < unat (t_gc env) - unat (updated_at_unix x) \<and>
     \<not> runner_record_owns env k' \<and> \<not> snapshot_owns env k' (slot x) \<and>
     map_of (by_tap live) (fc_tap_name_for_key (b3 env) k') \<noteq> Some (slot x))"
proof -
  have "distinct (map fst st)" using assms(2) by (simp add: link_wf_def)
  from slot_map_gc [OF this assms(3), of env live "Some k"] show ?thesis
    using assms(4)
    by (auto simp: allocate_in_other [OF assms(1,4)] word_le_nat_alt wordnat RESERVATION_TTL_SECS_def
        split: if_splits)
qed

theorem collection_is_safe_witness:
  "map_of [(''a:1'', demo_assignment 7), (''b:1'', demo_assignment 0)] ''a:1'' = Some (demo_assignment 7)"
proof -
  have wf: "link_wf [(''a:1'', demo_assignment 7)]" by (rule demo_wf)
  have g: "gc demo_env no_links (Some ''b:1'') [(''a:1'', demo_assignment 7)] = [(''a:1'', demo_assignment 7)]"
    by (rule demo_gc)
  obtain st' a where run:
    "allocate_in demo_env ''b:1'' Reserve None no_links [(''a:1'', demo_assignment 7)] = Inr (st', a)"
  proof -
    have fin: "\<exists>x. List.find (\<lambda>s. s \<notin> {7 :: u32} \<union> {}) (slot_order (preferred_slot (b3 demo_env) ''b:1'')) = Some x"
    proof (rule ccontr)
      assume "\<not> ?thesis"
      then have "serving_pool \<subseteq> {7 :: u32} \<union> {}"
        using links.alloc_None [where taken = "{7 :: u32} \<union> {}"] by blast
      moreover have "(3 :: u32) \<in> serving_pool" by (simp add: serving_pool_def)
      ultimately show False by auto
    qed
    then obtain x where "List.find (\<lambda>s. s \<notin> {7 :: u32} \<union> {}) (slot_order (preferred_slot (b3 demo_env) ''b:1'')) = Some x"
      by blast
    then have "first_free_slot (preferred_slot (b3 demo_env) ''b:1'') [7] [] = Inr x"
      by (simp add: first_free_slot_def)
    then show thesis
      using that unfolding allocate_in_def g
      by (simp add: no_links_def demo_assignment_def)
  qed
  from collection_is_safe [OF run wf, of "''a:1''" "demo_assignment 7"] show ?thesis
    by simp
qed

section \<open>Launch claims\<close>

lemma with_locked_state_Inl:
  "(\<And>st. disk = Stored st \<Longrightarrow> \<exists>e. f st = Inl e) \<Longrightarrow> disk \<noteq> NoFile \<Longrightarrow>
     \<exists>e. with_locked_state env f disk = (Inl e, disk)"
  by (cases disk) (fastforce simp: with_locked_state_def split: sum.splits prod.splits)+

lemma acquire_Inr:
  assumes "acquire env k owner live disk = (Inr a, disk')"
  obtains l st st' where "live = Some l" "allocate_in env k Acquire (Some owner) l st = Inr (st', a)"
    "disk' = Stored st'"
  using assms
  by (auto simp: acquire_def allocate_def with_locked_state_def split: sum.splits option.splits if_splits
      assign_file.splits prod.splits)

lemma acquired_entry:
  assumes "allocate_in env k Acquire owner l st = Inr (st', a)"
  obtains x where "map_of st' k = Some x" "launch_owner x = owner"
    "launch_reserved_until_unix x = sat_add (t_launch env) LAUNCH_RESERVATION_SECS"
  using assms
proof (cases rule: allocate_in_stages)
  case (adopted s x)
  then show ?thesis by simp
next
  case (kept old x)
  show ?thesis by (rule that [of x]) (simp_all add: kept(5,6) update_conv')
next
  case (fresh s x)
  show ?thesis by (rule that [of x]) (simp_all add: fresh(4,5) update_conv')
qed

text \<open>A launch claim is exclusive. Once a runner has acquired the link of a VM key, no second claim for
  the key succeeds in the two minutes after it, whatever else the second runner sees, and the
  assignments file is left as it was; when the owner releases its token the file keeps the slot with no
  claim on it.\<close>

theorem acquire_is_exclusive:
  assumes "acquire env k owner live disk = (Inr a, disk1)"
    and "t_check env2 < sat_add (t_launch env) LAUNCH_RESERVATION_SECS"
  shows "(\<exists>e. acquire env2 k owner2 live2 disk1 = (Inl e, disk1)) \<and>
    (\<forall>env3 disk2. clear_launch_owner env3 k owner disk1 = (Inr (), disk2) \<longrightarrow>
       (\<exists>st x. disk2 = Stored st \<and> map_of st k = Some x \<and> launch_owner x = None \<and>
          launch_reserved_until_unix x = 0))"
proof -
  obtain l st st' where run: "allocate_in env k Acquire (Some owner) l st = Inr (st', a)"
    and disk1: "disk1 = Stored st'"
    using assms(1) by (rule acquire_Inr)
  obtain x where x: "map_of st' k = Some x" "launch_owner x = Some owner"
    "launch_reserved_until_unix x = sat_add (t_launch env) LAUNCH_RESERVATION_SECS"
    using run by (rule acquired_entry)
  have refused: "\<exists>e. allocate_in env2 k Acquire (Some owner2) l2 st' = Inl e" for l2
  proof -
    have "map_of (gc env2 l2 (Some k) st') k = Some x"
    proof -
      have P: "(case (k, x) of (vm_key, a) \<Rightarrow>
        vm_key = (case Some k of Some k \<Rightarrow> k | None \<Rightarrow> []) \<or>
        map_of (by_tap l2) (fc_tap_name_for_key (b3 env2) vm_key) = Some (slot a) \<or>
        snapshot_owns env2 vm_key (slot a) \<or> runner_record_owns env2 vm_key \<or>
        sat_sub (t_gc env2) (updated_at_unix a) \<le> RESERVATION_TTL_SECS)" by simp
      show ?thesis
        unfolding gc_def using x(1)
        by (induction st') (auto split: if_splits)
    qed
    then show ?thesis using x(3) assms(2) by (simp add: allocate_in_def Let_def)
  qed
  have "\<exists>e. acquire env2 k owner2 live2 disk1 = (Inl e, disk1)"
  proof (cases "validate_subnet_capacity (tap_subnet env2)")
    case (Inr u)
    show ?thesis
    proof (cases live2)
      case None
      with Inr show ?thesis by (simp add: acquire_def allocate_def)
    next
      case (Some l2)
      have "\<exists>e. with_locked_state env2 (allocate_in env2 k Acquire (Some owner2) l2) disk1 = (Inl e, disk1)"
        by (rule with_locked_state_Inl) (use refused [of l2] disk1 in auto)
      with Some Inr show ?thesis by (simp add: acquire_def allocate_def)
    qed
  qed (simp add: acquire_def allocate_def)
  moreover have "\<exists>st x. disk2 = Stored st \<and> map_of st k = Some x \<and> launch_owner x = None \<and>
          launch_reserved_until_unix x = 0"
    if "clear_launch_owner env3 k owner disk1 = (Inr (), disk2)" for env3 disk2
    using that x disk1
    by (auto simp: clear_launch_owner_def with_locked_state_def clear_launch_owner_in_def update_conv'
        split: if_splits)
  ultimately show ?thesis by blast
qed

lemma demo_subnet: "validate_subnet_capacity ''172.31.0.0/16'' = Inr ()"
proof -
  have p: "parse_subnet ''172.31.0.0/16'' = Inr (2887712768, 16)"
    by (simp add: parse_subnet_def parse_ipv4_def parse_octet_def is_dec_digit_def dec_val_def digit_val_def
        octets_def parse_uint_def prefix_mask_def word_max_def mask_eq_exp_minus_1)
  have n: "parse_subnet (show_ipv4 2887712768 @ CHR ''/'' # show_dec 16) = Inr (2887712768, 16)"
    using p parse_subnet_Inr [OF p] by (simp add: parse_subnet_def parse_show_subnet)
  show ?thesis
    using capacity_normalized [OF n] p
    by (simp add: validate_subnet_capacity_def normalize_subnet_def SERVING_LINK_SLOTS_def word_less_nat_alt)
qed

theorem acquire_is_exclusive_witness:
  "\<exists>e. acquire demo_env ''a:1'' ''p'' (Some no_links)
        (snd (acquire demo_env ''a:1'' ''o'' (Some no_links) (Stored [(''a:1'', demo_assignment 7)]))) =
       (Inl e, snd (acquire demo_env ''a:1'' ''o'' (Some no_links) (Stored [(''a:1'', demo_assignment 7)])))"
proof -
  have sub: "tap_subnet demo_env = ''172.31.0.0/16''" "root_ok demo_env" "lock_ok demo_env" "write_ok demo_env"
    by (simp_all add: demo_env_def)
  have run: "acquire demo_env ''a:1'' ''o'' (Some no_links) (Stored [(''a:1'', demo_assignment 7)]) =
     (Inr (allocation demo_env ''a:1'' 7),
      snd (acquire demo_env ''a:1'' ''o'' (Some no_links) (Stored [(''a:1'', demo_assignment 7)])))"
    by (simp add: acquire_def allocate_def sub demo_subnet with_locked_state_def demo_acquire)
  show ?thesis
    using acquire_is_exclusive [OF run, of demo_env "''p''" "Some no_links"]
    by (simp add: demo_env_def LAUNCH_RESERVATION_SECS_def sat_add_def word_less_nat_alt)
qed

section \<open>Release\<close>

text \<open>A purge releases the links of its app and no others: the keys equal to the uuid or starting with
  it and a colon lose their assignment unless their TAP is live at that slot, every other key keeps its
  own, and slots stay distinct.\<close>

theorem release_only_own_links:
  assumes "release_uuid_in env uuid live st = Inr (st', n)" "link_wf st"
  shows "link_wf st' \<and> n = length st - length st' \<and>
    (\<forall>key. map_of st' key =
      (case map_of st key of
         None \<Rightarrow> None
       | Some x \<Rightarrow>
           if (key = uuid \<or> starts_with (uuid @ '':'') key) \<and>
              map_of (by_tap live) (fc_tap_name_for_key (b3 env) key) \<noteq> Some (slot x)
           then None else Some x))"
proof -
  have "distinct (map fst st)" using assms(2) by (simp add: link_wf_def)
  with assms show ?thesis
    by (auto simp: release_uuid_in_def Let_def link_wf_filter map_of_filter_pair split: option.splits)
qed

theorem release_only_own_links_witness:
  "\<exists>st'. release_uuid_in demo_env ''a'' no_links [(''a:1'', demo_assignment 7)] = Inr (st', 1) \<and>
     link_wf st' \<and> map_of st' ''a:1'' = None"
proof -
  have run: "release_uuid_in demo_env ''a'' no_links [(''a:1'', demo_assignment 7)] = Inr ([], 1)"
    by (simp add: release_uuid_in_def no_links_def starts_with_def)
  show ?thesis using release_only_own_links [OF run demo_wf(1)] run by simp
qed

section \<open>Discovery\<close>

lemma live_line_slot: "live_line base line = Some (tap, s) \<Longrightarrow> unat s < 16382"
  by (auto simp: live_line_def Let_def SERVING_LINK_SLOTS_def word_less_nat_alt
      split: option.splits if_splits)

lemma parse_live_links_wf: "live_wf (parse_live_links subnet out)"
proof -
  have step: "live_wf (case live_line base line of None \<Rightarrow> l
      | Some (tap, s) \<Rightarrow> \<lparr>by_tap = AList.update tap s (by_tap l), live_slots = List.insert s (live_slots l)\<rparr>)"
    if "live_wf l" for base line l
    using that live_line_slot [of base line]
    by (auto simp: live_wf_def serving_pool_def ran_def update_conv' split: option.splits if_splits)
  have "live_wf (fold (\<lambda>line l. case live_line base line of None \<Rightarrow> l
      | Some (tap, s) \<Rightarrow> \<lparr>by_tap = AList.update tap s (by_tap l), live_slots = List.insert s (live_slots l)\<rparr>)
      lines l)" if "live_wf l" for base lines l
    using that by (induction lines arbitrary: l) (use step in auto)
  then show ?thesis
    by (auto simp: parse_live_links_def demo_wf(2) split: option.splits sum.splits)
qed

definition is_word :: "string \<Rightarrow> bool" where
  "is_word w \<longleftrightarrow> w \<noteq> [] \<and> list_all (\<lambda>c. \<not> is_whitespace c) w"

lemma words_acc_word:
  "list_all (\<lambda>c. \<not> is_whitespace c) w \<Longrightarrow> w' @ w \<noteq> [] \<Longrightarrow>
   words_acc (rev w') (w @ CHR '' '' # rest) = (w' @ w) # words_acc [] rest"
proof (induction w arbitrary: w')
  case Nil
  then show ?case by (simp add: is_whitespace_def)
next
  case (Cons c w)
  from Cons.IH [of "w' @ [c]"] Cons.prems show ?case by simp
qed

lemma split_whitespace_word:
  "is_word w \<Longrightarrow> split_whitespace (w @ CHR '' '' # rest) = w # split_whitespace rest"
  using words_acc_word [of w "[]" rest] by (simp add: split_whitespace_def is_word_def)

lemma hex_char_plain: "n < 16 \<Longrightarrow> \<not> is_whitespace (hex_char n) \<and> hex_char n \<noteq> CHR '':''"
proof -
  assume n: "n < 16"
  have "(of_char (hex_char n) :: nat) = (if n < 10 then 48 + n else 87 + n)"
    using n by (simp add: hex_char_def)
  then have "(of_char (hex_char n) :: nat) \<notin> {9, 10, 11, 12, 13, 32, 58}" using n by (auto split: if_splits)
  moreover have "(of_char CHR '':'' :: nat) = 58" by simp
  ultimately show ?thesis by (auto simp: is_whitespace_def)
qed

lemma show_hex_plain: "list_all (\<lambda>c. \<not> is_whitespace c \<and> c \<noteq> CHR '':'') (show_hex n)"
proof (induction n rule: show_hex.induct)
  case (1 n)
  then show ?case using hex_char_plain by (subst show_hex.simps) auto
qed

lemma tap_plain: "list_all (\<lambda>c. \<not> is_whitespace c \<and> c \<noteq> CHR '':'') (fc_tap_name_for_key b key)"
proof -
  have "\<not> is_whitespace CHR ''f''" "\<not> is_whitespace CHR ''c''" "\<not> is_whitespace CHR ''-''"
    "\<not> is_whitespace CHR ''0''"
    by (simp_all add: is_whitespace_def)
  moreover have "list_all (\<lambda>c. \<not> is_whitespace c \<and> c \<noteq> CHR '':'') (replicate n CHR ''0'')" for n
    using calculation(4) by (simp add: list_all_iff)
  ultimately show ?thesis
    using show_hex_plain [of "unat (hash48 b key)"]
    by (simp add: fc_tap_name_for_key_def show_hex_padded_def Let_def)
qed

lemma tap_word: "is_word (fc_tap_name_for_key b key)" "fc_tap_name_for_key b key \<noteq> ''inet''"
  "trim_colons (fc_tap_name_for_key b key) = fc_tap_name_for_key b key"
proof -
  have plain: "\<forall>c \<in> set (fc_tap_name_for_key b key). \<not> is_whitespace c \<and> c \<noteq> CHR '':''"
    using tap_plain [of b key] by (simp add: list_all_iff)
  show "is_word (fc_tap_name_for_key b key)"
    unfolding is_word_def list_all_iff using plain by (auto simp: fc_tap_name_for_key_def)
  show "fc_tap_name_for_key b key \<noteq> ''inet''" by (simp add: fc_tap_name_for_key_def)
  have ne: "fc_tap_name_for_key b key \<noteq> []" by (simp add: fc_tap_name_for_key_def)
  define xs x where "xs = butlast (fc_tap_name_for_key b key)" and "x = last (fc_tap_name_for_key b key)"
  have t: "fc_tap_name_for_key b key = xs @ [x]" using ne by (simp add: xs_def x_def)
  then have "x \<in> set (fc_tap_name_for_key b key)" by simp
  with plain have "x \<noteq> CHR '':''" by blast
  with t show "trim_colons (fc_tap_name_for_key b key) = fc_tap_name_for_key b key"
    by (simp add: trim_colons_def)
qed

lemma show_ipv4_word: "list_all (\<lambda>c. \<not> is_whitespace c) (show_ipv4 ip)"
proof -
  have "\<not> is_whitespace c" if "is_dec_digit c" for c
    using that by (auto simp: is_dec_digit_def is_whitespace_def)
  then have "list_all (\<lambda>c. \<not> is_whitespace c) (show_dec n)" for n
    using show_dec_digits [of n] by (auto simp: list_all_iff)
  moreover have "\<not> is_whitespace CHR ''.''" by (simp add: is_whitespace_def)
  ultimately show ?thesis by (simp add: show_ipv4_def Let_def)
qed

text \<open>Discovery inverts addressing: when a TAP of the allocator carries the host address \<open>link_ips\<close> gives
  a serving slot, the line \<open>ip -o -4 addr show\<close> prints for it is read back as that TAP at that slot, so
  a VM that runs is recognised whatever the assignments file says.\<close>

theorem discovery_inverts_addressing:
  assumes "parse_subnet subnet = Inr (base, prefix)" "link_ips subnet s = Inr (host, guest)"
    and "unat s < 16382"
  shows "live_line base (''7: '' @ fc_tap_name_for_key b key @ '' inet '' @ show_ipv4 host @ ''/30 scope global'') =
    Some (fc_tap_name_for_key b key, s)"
proof -
  let ?tap = "fc_tap_name_for_key b key"
  have host: "unat host = unat base + 4 * unat s + 1" "unat s < 2 ^ (30 - prefix)"
    using link_ips_in_subnet [OF assms(1), of s] assms(2) by simp_all
  have sep: "is_word ''7:''" "is_word ''inet''" "is_word (show_ipv4 host @ ''/30'')"
    using show_ipv4_word [of host] by (auto simp: is_word_def is_whitespace_def)
  have split: "split_whitespace (''7: '' @ ?tap @ '' inet '' @ show_ipv4 host @ ''/30 scope global'') =
      ''7:'' # ?tap # ''inet'' # (show_ipv4 host @ ''/30'') # split_whitespace ''scope global''"
    using split_whitespace_word [OF sep(1), of "?tap @ '' inet '' @ show_ipv4 host @ ''/30 scope global''"]
      split_whitespace_word [OF tap_word(1) [of b key], of "''inet '' @ show_ipv4 host @ ''/30 scope global''"]
      split_whitespace_word [OF sep(2), of "show_ipv4 host @ ''/30 scope global''"]
      split_whitespace_word [OF sep(3), of "''scope global''"]
    by simp
  have pos: "position (\<lambda>v. v = ''inet'')
      (''7:'' # ?tap # ''inet'' # (show_ipv4 host @ ''/30'') # split_whitespace ''scope global'') = Some 2"
    using tap_word(2) [of b key] by (simp add: numeral_2_eq_2)
  have ip: "parse_ipv4 (hd (split_on CHR ''/'' (show_ipv4 host @ ''/30''))) = Some host"
    using show_ipv4_no_slash [of host] by (simp add: split_on_append)
  have le: "base \<le> host" using host by (simp add: word_le_nat_alt)
  then have off: "checked_sub host base = Some (host - base)" by (simp add: checked_sub_def)
  have u: "unat (host - base) = 4 * unat s + 1" using checked_sub_Some [OF off] host by simp
  have small: "s < SERVING_LINK_SLOTS" using assms(3) by (simp add: SERVING_LINK_SLOTS_def word_less_nat_alt)
  have d: "Suc (4 * unat s) div 4 = unat s" by simp
  show ?thesis
    unfolding live_line_def split Let_def pos
    by (simp add: d get_def ip off u small tap_word(3) del: split_on.simps append_Cons)
qed

theorem discovery_inverts_addressing_witness:
  "\<exists>host. live_line 2887712768 (''7: '' @ fc_tap_name_for_key (b3 demo_env) ''a:1'' @ '' inet '' @ show_ipv4 host @
       ''/30 scope global'') = Some (fc_tap_name_for_key (b3 demo_env) ''a:1'', 5)"
proof -
  have p: "parse_subnet ''172.31.0.0/16'' = Inr (2887712768, 16)"
    by (simp add: parse_subnet_def parse_ipv4_def parse_octet_def is_dec_digit_def dec_val_def digit_val_def
        octets_def parse_uint_def prefix_mask_def word_max_def mask_eq_exp_minus_1)
  obtain host guest where "link_ips ''172.31.0.0/16'' 5 = Inr (host, guest)"
    using link_ips_in_subnet [OF p, of 5] by (auto split: sum.splits)
  from discovery_inverts_addressing [OF p this] show ?thesis by auto
qed

text \<open>Serving slots run out only when all 16382 are in use: with fewer assigned and live slots
  together, a key that holds no usable slot gets one.\<close>

theorem slots_run_out_only_when_full:
  "first_free_slot (preferred_slot b key) assigned live = Inl SlotsExhausted \<longleftrightarrow>
     serving_pool \<subseteq> set assigned \<union> set live"
  using links.alloc_iff_free [where b = b and key = key and taken = "set assigned \<union> set live"]
  by (auto simp: first_free_slot_find split: option.splits)

end
