(* ===== verification/Process.thy ===== *)
theory Process
  imports Handle LinkAllocator
begin

text \<open>
  The host as the orchestrator sees it, and the primitives it acts with: the process table of
  \<open>/proc\<close>, the runners' control sockets (\<open>src/src/control_proto.rs\<close>,
  \<open>src/src/orchestrator/client.rs\<close>), the Firecracker pidfiles (\<open>src/src/firecracker/pidfile.rs\<close>), the
  systemd scopes (\<open>src/src/firecracker/cpu_scope.rs\<close>), and the process identity checks at the top of
  \<open>src/src/orchestrator/monitor.rs\<close>. Bytes are characters; decoding them lossily is the identity on
  the ASCII paths and argument lists the program builds.
\<close>

section \<open>The control protocol\<close>

datatype Cmd = Ping | HealthCmd | Stop | Purge | Shutdown | Deploy string | SnapshotCmd

text \<open>\<open>Health state app_ula app_uuid pid image_ref app_health app_health_reason\<close>.\<close>

datatype Reply =
    Pong
  | Health string string string u32 "string option" string "string option"
  | OkReply
  | ErrReply string

section \<open>The host\<close>

text \<open>Reading a file of \<open>/proc/<pid>\<close>.\<close>

datatype proc_file = Bytes string | FileGone | Denied

text \<open>What \<open>waitpid(pid, WNOHANG)\<close> says of a process: it has exited and is reaped, it is a running
  child, or it is not a child of the supervisor.\<close>

datatype wait_state = WExited | WRunning | WNotChild

text \<open>\<open>unkillable\<close>: a SIGKILL has not ended it when the program looks again. \<open>leaving\<close>: told to shut
  down; \<open>leaves_in\<close>: how many polls it then takes to exit, \<open>None\<close> when it never does.\<close>

record proc =
  cmdline :: proc_file
  environ :: proc_file
  status_text :: "string option"
  waited :: wait_state
  signalable :: bool
  unkillable :: bool
  leaving :: bool
  leaves_in :: "nat option"
  in_scope :: "string option"

datatype probe = ProbeConnects | ProbeRefused | ProbeError | ProbeTimeout

text \<open>A control socket: the process behind it, how it answers, after how many seconds, what it
  answers to a command, and whether a \<open>Shutdown\<close> makes its process leave.\<close>

record endpoint =
  ep_owner :: u32
  ep_health :: "Reply option"
  ep_delay :: nat
  ep_reply :: "Cmd \<Rightarrow> Reply option"
  ep_obeys :: bool
  ep_probe :: probe

datatype fsnode = FsFile u64 | FsDir "fsnode list" | FsUnreadableDir | FsOther | FsNoMeta

text \<open>The outcome of executing a runner: refused, started without a pid, or a new process.\<close>

record newborn =
  nb_pid :: u32
  nb_status :: "string option"
  nb_unkillable :: bool
  nb_leaves_in :: "nat option"

datatype birth = NoExec | NoPid | Born newborn

record PullProgress =
  pp_bytes :: u64
  pp_last_progress_secs :: u64

record host =
  procs :: "(u32 \<times> proc) list"
  proc_listable :: bool
  endpoints :: "string \<Rightarrow> endpoint option"
  pidfiles :: "string \<Rightarrow> string option"
  has_systemd :: bool
  stuck_scopes :: "string list"
  taps :: "string list"
  fs_dirs :: "string \<Rightarrow> fsnode option"
  log_lens :: "string \<Rightarrow> u64 option"
  log_rename_ok :: bool
  reap_polls :: nat
  records :: rundir
  save_script :: "save_io list"
  births :: "birth list"
  clock :: u64
  deploying :: "string list"
  locked :: "string list"
  pull_progress :: "(string \<times> PullProgress) list"

section \<open>Control-socket client\<close>

definition find_proc :: "host \<Rightarrow> u32 \<Rightarrow> proc option" where
  "find_proc h pd = map_of (procs h) pd"

definition listening :: "host \<Rightarrow> string \<Rightarrow> endpoint option" where
  "listening h sock =
     (case endpoints h sock of
        None \<Rightarrow> None
      | Some e \<Rightarrow> (case find_proc h (ep_owner e) of
                    Some p \<Rightarrow> if waited p = WExited then None else Some e
                  | None \<Rightarrow> None))"

definition TIMEOUT :: nat where "TIMEOUT = 5"
definition DEPLOY_TIMEOUT :: nat where "DEPLOY_TIMEOUT = 420"

definition health_with_timeout :: "nat \<Rightarrow> host \<Rightarrow> string \<Rightarrow> Reply option" where
  "health_with_timeout deadline h sock =
     Option.bind (listening h sock) (\<lambda>e. if ep_delay e < deadline then ep_health e else None)"

definition health :: "host \<Rightarrow> string \<Rightarrow> Reply option" where
  "health = health_with_timeout TIMEOUT"

definition socket_reachable :: "host \<Rightarrow> string \<Rightarrow> unit + bool" where
  "socket_reachable h sock =
     (case listening h sock of
        None \<Rightarrow> Inr False
      | Some e \<Rightarrow> (case ep_probe e of
            ProbeConnects \<Rightarrow> Inr True
          | ProbeRefused \<Rightarrow> Inr False
          | ProbeError \<Rightarrow> Inl ()
          | ProbeTimeout \<Rightarrow> Inr True))"

text \<open>\<open>socket_reachable(..).unwrap_or(true)\<close>.\<close>

definition reachable_or_true :: "host \<Rightarrow> string \<Rightarrow> bool" where
  "reachable_or_true h sock = (case socket_reachable h sock of Inl _ \<Rightarrow> True | Inr b \<Rightarrow> b)"

definition update_proc :: "u32 \<Rightarrow> (proc \<Rightarrow> proc) \<Rightarrow> host \<Rightarrow> host" where
  "update_proc pd f h = h\<lparr>procs := map (\<lambda>(q, p). (q, if q = pd then f p else p)) (procs h)\<rparr>"

definition shutdown_cmd :: "host \<Rightarrow> string \<Rightarrow> Reply option \<times> host" where
  "shutdown_cmd h sock =
     (case listening h sock of
        None \<Rightarrow> (None, h)
      | Some e \<Rightarrow>
          (if ep_delay e < TIMEOUT then ep_reply e Shutdown else None,
           if ep_obeys e then update_proc (ep_owner e) (\<lambda>p. p\<lparr>leaving := True\<rparr>) h else h))"

section \<open>Process identity\<close>

definition NUL :: char where "NUL = CHR 0x00"

definition nul_tokens :: "string \<Rightarrow> string list" where
  "nul_tokens bytes = filter (\<lambda>t. t \<noteq> []) (split_on NUL bytes)"

definition cmdline_is_runner :: "string list \<Rightarrow> bool" where
  "cmdline_is_runner argv =
     (case argv of [] \<Rightarrow> False | exe # _ \<Rightarrow> last (split_on CHR ''/'' exe) = ''tabbify-runner'')"

fun has_pair :: "'a \<Rightarrow> 'a \<Rightarrow> 'a list \<Rightarrow> bool" where
  "has_pair a b (x # y # rest) = (x = a \<and> y = b \<or> has_pair a b (y # rest))"
| "has_pair a b _ = False"

definition argv_has_exact_uuid :: "string list \<Rightarrow> string \<Rightarrow> bool" where
  "argv_has_exact_uuid argv u =
     (has_pair ''--uuid'' u argv \<or>
      list_ex (\<lambda>arg. strip_prefix ''--uuid='' arg = Some u) argv)"

definition environ_has_exact_uuid :: "string \<Rightarrow> string \<Rightarrow> bool" where
  "environ_has_exact_uuid env u =
     list_ex (\<lambda>entry. strip_prefix ''RUNNER_UUID='' entry = Some u) (nul_tokens env)"

definition process_bytes_match_runner_uuid :: "string \<Rightarrow> string \<Rightarrow> string \<Rightarrow> bool" where
  "process_bytes_match_runner_uuid cmd env u =
     (let argv = nul_tokens cmd
      in cmdline_is_runner argv \<and> (argv_has_exact_uuid argv u \<or> environ_has_exact_uuid env u))"

definition select_matching_runner_pids :: "(u32 \<times> string \<times> string) list \<Rightarrow> string \<Rightarrow> u32 list" where
  "select_matching_runner_pids ps u =
     sort (map fst (filter (\<lambda>(_, cmd, env). process_bytes_match_runner_uuid cmd env u) ps))"

definition runner_is_alive :: "host \<Rightarrow> u32 \<Rightarrow> bool" where
  "runner_is_alive h pd =
     (if pd = 0 then False
      else case find_proc h pd of
        None \<Rightarrow> False
      | Some p \<Rightarrow> (case waited p of
            WExited \<Rightarrow> False
          | WRunning \<Rightarrow> True
          | WNotChild \<Rightarrow> signalable p))"

datatype RunnerPidIdentity = Gone | Matches | Mismatch | Unknown

definition runner_pid_identity :: "host \<Rightarrow> u32 \<Rightarrow> string \<Rightarrow> RunnerPidIdentity" where
  "runner_pid_identity h pd u =
     (if \<not> runner_is_alive h pd then Gone
      else case find_proc h pd of
        None \<Rightarrow> Gone
      | Some p \<Rightarrow>
          (case cmdline p of
             FileGone \<Rightarrow> Gone
           | Denied \<Rightarrow> Unknown
           | Bytes cmd \<Rightarrow>
               (let argv = nul_tokens cmd in
                if \<not> cmdline_is_runner argv then Mismatch
                else if argv_has_exact_uuid argv u then Matches
                else case environ p of
                  Bytes env \<Rightarrow> if environ_has_exact_uuid env u then Matches else Mismatch
                | FileGone \<Rightarrow> Gone
                | Denied \<Rightarrow> Unknown)))"

fun readable :: "(u32 \<times> proc) list \<Rightarrow> (u32 \<times> string \<times> string) list" where
  "readable [] = []"
| "readable ((pd, p) # ps) =
     (case cmdline p of
        Bytes cmd \<Rightarrow> (pd, cmd, case environ p of Bytes env \<Rightarrow> env | _ \<Rightarrow> []) # readable ps
      | _ \<Rightarrow> readable ps)"

definition runner_pids_for_uuid :: "host \<Rightarrow> string \<Rightarrow> u32 list" where
  "runner_pids_for_uuid h u =
     (if \<not> proc_listable h then [] else select_matching_runner_pids (readable (procs h)) u)"

section \<open>Killing\<close>

definition remove_pid :: "u32 \<Rightarrow> host \<Rightarrow> host" where
  "remove_pid pd h = h\<lparr>procs := filter (\<lambda>(q, p). q \<noteq> pd \<or> unkillable p) (procs h)\<rparr>"

definition kill_pid :: "u32 \<Rightarrow> host \<Rightarrow> host" where
  "kill_pid pd h = (if pd = 0 then h else remove_pid pd h)"

definition process_is_alive :: "host \<Rightarrow> u32 \<Rightarrow> bool" where
  "process_is_alive h pd =
     (if pd = 0 then False
      else case find_proc h pd of None \<Rightarrow> False | Some p \<Rightarrow> signalable p)"

definition kill_stale_if_alive :: "u32 \<Rightarrow> (u32 \<Rightarrow> bool) \<Rightarrow> host \<Rightarrow> host" where
  "kill_stale_if_alive pd is_alive h =
     (if pd = 0 then h else if \<not> is_alive pd then h else remove_pid pd h)"

section \<open>Pidfiles, scopes, taps\<close>

definition ascii_lower :: "char \<Rightarrow> char" where
  "ascii_lower c = (let n = of_char c :: nat in if 65 \<le> n \<and> n \<le> 90 then char_of (n + 32) else c)"

definition is_alnum :: "char \<Rightarrow> bool" where
  "is_alnum c = (let n = of_char c :: nat in
     48 \<le> n \<and> n \<le> 57 \<or> 65 \<le> n \<and> n \<le> 90 \<or> 97 \<le> n \<and> n \<le> 122)"

definition sanitize :: "string \<Rightarrow> string" where
  "sanitize i = map (\<lambda>c. let c = ascii_lower c in if is_alnum c \<or> c = CHR ''-'' then c else CHR ''-'') i"

definition join_path :: "string \<Rightarrow> string \<Rightarrow> string" where
  "join_path d name = d @ ''/'' @ name"

definition pidfile_path :: "string \<Rightarrow> string \<Rightarrow> string" where
  "pidfile_path d u = join_path d (''tabbify-fc-'' @ sanitize u @ ''.pid'')"

definition console_log_path :: "string \<Rightarrow> string \<Rightarrow> string" where
  "console_log_path d u = join_path (join_path d ''fc'') (sanitize u @ ''.console.log'')"

definition pidfile_write :: "bool \<Rightarrow> string \<Rightarrow> string \<Rightarrow> u32 \<Rightarrow> host \<Rightarrow> host" where
  "pidfile_write io_ok d u pd h =
     (if io_ok then h\<lparr>pidfiles := (pidfiles h)(pidfile_path d u \<mapsto> show_dec (unat pd))\<rparr> else h)"

definition pidfile_read :: "host \<Rightarrow> string \<Rightarrow> string \<Rightarrow> u32 option" where
  "pidfile_read h d u =
     Option.bind (pidfiles h (pidfile_path d u))
       (\<lambda>text. map_option of_nat (parse_uint (2 ^ 32 - 1) (trim text)))"

definition pidfile_remove :: "string \<Rightarrow> string \<Rightarrow> host \<Rightarrow> host" where
  "pidfile_remove d u h = h\<lparr>pidfiles := (pidfiles h)(pidfile_path d u := None)\<rparr>"

definition pidfile_take :: "string \<Rightarrow> string \<Rightarrow> host \<Rightarrow> u32 option \<times> host" where
  "pidfile_take d u h =
     (case pidfile_read h d u of None \<Rightarrow> (None, h) | Some pd \<Rightarrow> (Some pd, pidfile_remove d u h))"

text \<open>\<open>Path::file_name\<close>: the last component, none after a trailing \<open>..\<close>.\<close>

definition path_file_name :: "string \<Rightarrow> string option" where
  "path_file_name s =
     (let comps = filter (\<lambda>c. c \<noteq> [] \<and> c \<noteq> ''.'') (split_on CHR ''/'' s)
      in if comps = [] \<or> last comps = ''..'' then None else Some (last comps))"

definition parse_firecracker_api_sock :: "string \<Rightarrow> string option" where
  "parse_firecracker_api_sock cmd =
     (let argv = nul_tokens cmd in
      if \<not> list_ex (\<lambda>t. path_file_name t = Some ''firecracker'') argv then None
      else Option.bind (position (\<lambda>t. t = ''--api-sock'') argv)
             (\<lambda>i. Option.bind (get argv (i + 1))
               (\<lambda>s. if starts_with ''/tmp/firecracker-'' s \<and> ends_with ''.sock'' s
                    then Some s else None)))"

definition scope_name :: "string \<Rightarrow> string" where
  "scope_name i = ''tabbify-fc-'' @ sanitize i @ ''.scope''"

definition stop_fc_scope :: "string \<Rightarrow> host \<Rightarrow> bool \<times> host" where
  "stop_fc_scope sc h =
     (if \<not> has_systemd h then (True, h)
      else if sc \<in> set (stuck_scopes h) then (False, h)
      else let h' = h\<lparr>procs := filter (\<lambda>(_, p). in_scope p \<noteq> Some sc \<or> unkillable p) (procs h)\<rparr>
           in (list_all (\<lambda>(_, p). in_scope p \<noteq> Some sc) (procs h'), h'))"

definition delete_fc_tap :: "string \<Rightarrow> host \<Rightarrow> host" where
  "delete_fc_tap tap h = h\<lparr>taps := removeAll tap (taps h)\<rparr>"

end
