(* ===== verification/Teardown.thy ===== *)
theory Teardown
  imports Process
begin

text \<open>
  Taking one app's processes down: the Firecracker child, its scopes, taps and image pulls
  (\<open>kill_fc_child_for_uuid\<close> of \<open>src/src/orchestrator/monitor.rs\<close>), and the runner itself
  (\<open>shutdown_runner_definitive\<close> of \<open>src/src/orchestrator/api.rs\<close>). The lemmas show that only the
  app's own processes are killed, and what a confirmed teardown guarantees.
\<close>

section \<open>The supervisor's configuration\<close>

record SharedRunnerConfig =
  sh_runner_bin :: string
  sh_s3_base_url :: string
  sh_data_dir :: string
  sh_parent :: "string option"
  sh_no_mesh :: bool
  sh_relay_url :: "string option"
  sh_relay_only :: bool

text \<open>The orchestrator: its configuration, its record directory and the environment it inherited, with
  the third-party functions it calls as parameters: the BLAKE3 digest, the uuid parser (\<open>None\<close> for a
  malformed uuid, else the sixteen bytes) and the two JSON encodings of \<open>serde_json\<close>.\<close>

record orch =
  shared :: SharedRunnerConfig
  runner_dir :: string
  digest :: blake3
  parse_uuid :: "string \<Rightarrow> string option"
  json_env :: "(string, string) mapping \<Rightarrow> string"
  json_list :: "string list \<Rightarrow> string"
  ambient :: "(string \<times> string) list"

definition data_dir :: "orch \<Rightarrow> string" where
  "data_dir orc = sh_data_dir (shared orc)"

definition control_sock_for :: "orch \<Rightarrow> string \<Rightarrow> string" where
  "control_sock_for orc u = join_path (runner_dir orc) (u @ ''.sock'')"

section \<open>The Firecracker footprint of an app\<close>

definition deploy_key :: "string \<Rightarrow> string \<Rightarrow> string" where
  "deploy_key u reff = u @ '':'' @ reff"

definition fc_scope_names_for_uuid :: "string \<Rightarrow> string option \<Rightarrow> string list" where
  "fc_scope_names_for_uuid u img =
     (case img of Some reff \<Rightarrow> [scope_name (deploy_key u reff)] | None \<Rightarrow> []) @ [scope_name u]"

definition fc_tap_names_for_uuid :: "orch \<Rightarrow> string \<Rightarrow> string option \<Rightarrow> string list" where
  "fc_tap_names_for_uuid orc u img =
     (case img of Some reff \<Rightarrow> [fc_tap_name_for_key (digest orc) (deploy_key u reff)] | None \<Rightarrow> []) @
     [fc_tap_name_for_key (digest orc) u]"

definition expected_sockets :: "orch \<Rightarrow> string \<Rightarrow> string option \<Rightarrow> string set" where
  "expected_sockets orc u img =
     insert (fc_api_sock_for_key (digest orc) u)
       (case img of Some reff \<Rightarrow> {fc_api_sock_for_key (digest orc) (deploy_key u reff)} | None \<Rightarrow> {})"

section \<open>Image pulls\<close>

definition pull_stage_dir :: "string \<Rightarrow> string \<Rightarrow> string" where
  "pull_stage_dir d u = join_path (join_path (join_path (join_path d ''apps'') u) ''fc'') ''.pull''"

definition pull_path_needle :: "string \<Rightarrow> string \<Rightarrow> string" where
  "pull_path_needle d u = pull_stage_dir d u"

fun contains :: "string \<Rightarrow> string \<Rightarrow> bool" where
  "contains p [] = (p = [])"
| "contains p (c # cs) = (starts_with p (c # cs) \<or> contains p cs)"

definition cmdline_matches_pull :: "string \<Rightarrow> string \<Rightarrow> bool" where
  "cmdline_matches_pull cmd needle \<longleftrightarrow> needle \<noteq> [] \<and> contains needle cmd"

definition is_pull_proc :: "string \<Rightarrow> string \<Rightarrow> proc \<Rightarrow> bool" where
  "is_pull_proc d u p =
     (case cmdline p of Bytes cmd \<Rightarrow> cmdline_matches_pull cmd (pull_path_needle d u) | _ \<Rightarrow> False)"

definition pull_pids_for_uuid :: "host \<Rightarrow> string \<Rightarrow> string \<Rightarrow> u32 list" where
  "pull_pids_for_uuid h d u =
     (if \<not> proc_listable h then []
      else map fst (filter (\<lambda>(_, p). is_pull_proc d u p) (procs h)))"

definition kill_pull_procs_for_uuid :: "string \<Rightarrow> string \<Rightarrow> host \<Rightarrow> host" where
  "kill_pull_procs_for_uuid d u h = fold kill_pid (pull_pids_for_uuid h d u) h"

section \<open>The Firecracker child\<close>

text \<open>The pidfile step of \<open>kill_fc_child_for_uuid\<close>. The poll of up to two seconds after the SIGKILL
  waits for what \<open>unkillable\<close> says.\<close>

definition kill_pidfile_process :: "orch \<Rightarrow> string \<Rightarrow> string option \<Rightarrow> host \<Rightarrow> bool \<times> host" where
  "kill_pidfile_process orc u img h =
     (case pidfile_read h (data_dir orc) u of
        None \<Rightarrow> (True, h)
      | Some fc_pid \<Rightarrow>
          if \<not> process_is_alive h fc_pid then (True, pidfile_remove (data_dir orc) u h)
          else case find_proc h fc_pid of
            None \<Rightarrow> (True, pidfile_remove (data_dir orc) u h)
          | Some p \<Rightarrow>
              (case cmdline p of
                 FileGone \<Rightarrow> (True, pidfile_remove (data_dir orc) u h)
               | Denied \<Rightarrow> (False, h)
               | Bytes cmd \<Rightarrow>
                   (case parse_firecracker_api_sock cmd of
                      Some socket \<Rightarrow>
                        if socket \<in> expected_sockets orc u img
                        then let h' = kill_stale_if_alive fc_pid (process_is_alive h) h
                             in if process_is_alive h' fc_pid then (False, h')
                                else (True, pidfile_remove (data_dir orc) u h')
                        else (True, pidfile_remove (data_dir orc) u h)
                    | None \<Rightarrow> (True, pidfile_remove (data_dir orc) u h))))"

fun stop_scopes :: "string list \<Rightarrow> bool \<Rightarrow> host \<Rightarrow> bool \<times> host" where
  "stop_scopes [] complete h = (complete, h)"
| "stop_scopes (sc # scs) complete h =
     (let (ok, h') = stop_fc_scope sc h in stop_scopes scs (complete \<and> ok) h')"

definition kill_fc_child_for_uuid :: "orch \<Rightarrow> string \<Rightarrow> string option \<Rightarrow> host \<Rightarrow> bool \<times> host" where
  "kill_fc_child_for_uuid orc u img h =
     (let h1 = kill_pull_procs_for_uuid (data_dir orc) u h;
          (complete, h2) = kill_pidfile_process orc u img h1;
          (complete', h3) = stop_scopes (fc_scope_names_for_uuid u img) complete h2
      in (complete', fold delete_fc_tap (fc_tap_names_for_uuid orc u img) h3))"

section \<open>The runner\<close>

datatype lifecycle_error =
    InvalidUuid | RecordUnreadable | RecordIdentityMismatch | SocketIdentityMismatch string
  | SurvivedShutdown | TeardownUnconfirmed | RecordNotSaved | RecordNotDeleted | SpawnFailed
  | CleanupIncomplete

definition runner_identity_allows_sigkill :: "RunnerPidIdentity \<Rightarrow> bool" where
  "runner_identity_allows_sigkill i \<longleftrightarrow> i = Matches"

definition runner_pid_may_still_match :: "host \<Rightarrow> string \<Rightarrow> u32 \<Rightarrow> bool" where
  "runner_pid_may_still_match h u pd \<longleftrightarrow> runner_pid_identity h pd u \<in> {Matches, Unknown}"

definition runner_gone :: "orch \<Rightarrow> string \<Rightarrow> u32 list \<Rightarrow> u32 option \<Rightarrow> host \<Rightarrow> bool" where
  "runner_gone orc u known uncertain h =
     (let process_alive = list_ex (runner_pid_may_still_match h u) known \<or>
            (case uncertain of Some pd \<Rightarrow> runner_pid_may_still_match h u pd | None \<Rightarrow> False) \<or>
            runner_pids_for_uuid h u \<noteq> [];
          sock_reachable = reachable_or_true h (control_sock_for orc u)
      in \<not> process_alive \<and> \<not> sock_reachable)"

text \<open>The host between two polls: processes that were told to leave come closer to their exit.\<close>

fun leave_step :: "(u32 \<times> proc) list \<Rightarrow> (u32 \<times> proc) list" where
  "leave_step [] = []"
| "leave_step ((pd, p) # ps) =
     (if \<not> leaving p then (pd, p) # leave_step ps
      else case leaves_in p of
        None \<Rightarrow> (pd, p) # leave_step ps
      | Some 0 \<Rightarrow> leave_step ps
      | Some (Suc k) \<Rightarrow> (pd, p\<lparr>leaves_in := Some k\<rparr>) # leave_step ps)"

definition advance :: "host \<Rightarrow> host" where
  "advance h = h\<lparr>procs := leave_step (procs h)\<rparr>"

fun wait_runner_exit :: "orch \<Rightarrow> string \<Rightarrow> u32 list \<Rightarrow> u32 option \<Rightarrow> nat \<Rightarrow> host \<Rightarrow> bool \<times> host" where
  "wait_runner_exit orc u known uncertain 0 h = (runner_gone orc u known uncertain h, h)"
| "wait_runner_exit orc u known uncertain (Suc n) h =
     (if runner_gone orc u known uncertain h then (True, h)
      else wait_runner_exit orc u known uncertain n (advance h))"

text \<open>The SIGKILL fallback: every pid is checked again right before its own signal.\<close>

definition kill_validated :: "string \<Rightarrow> u32 \<Rightarrow> host \<Rightarrow> host" where
  "kill_validated u pd h =
     (if runner_identity_allows_sigkill (runner_pid_identity h pd u) then kill_pid pd h else h)"

definition recovered_pids :: "orch \<Rightarrow> string \<Rightarrow> host \<Rightarrow> lifecycle_error + u32 list" where
  "recovered_pids orc u h =
     (case health_with_timeout 1 h (control_sock_for orc u) of
        Some (Health _ _ app_u pd _ _ _) \<Rightarrow>
          if app_u \<noteq> u then Inl (SocketIdentityMismatch app_u)
          else Inr (if pd \<noteq> 0 then [pd] else [])
      | _ \<Rightarrow> Inr [])"

definition shutdown_runner_definitive ::
  "orch \<Rightarrow> string \<Rightarrow> u32 \<Rightarrow> host \<Rightarrow> (lifecycle_error + unit) \<times> host" where
  "shutdown_runner_definitive orc u recorded_pid h =
     (case recovered_pids orc u h of
        Inl e \<Rightarrow> (Inl e, h)
      | Inr healthy \<Rightarrow>
          (let ident = runner_pid_identity h recorded_pid u;
               uncertain = (if ident = Unknown then Some recorded_pid else None);
               known = remdups (healthy @ (if ident = Matches then [recorded_pid] else []) @
                                runner_pids_for_uuid h u);
               (_, h1) = shutdown_cmd h (control_sock_for orc u);
               (gone, h2) = wait_runner_exit orc u known uncertain (reap_polls h1) h1
           in if gone then (Inr (), h2)
              else
                let known' = remdups (known @ runner_pids_for_uuid h2 u);
                    live = filter (\<lambda>pd. runner_identity_allows_sigkill (runner_pid_identity h2 pd u))
                             (known' @ (case uncertain of Some pd \<Rightarrow> [pd] | None \<Rightarrow> []));
                    h3 = fold (kill_validated u) live h2;
                    (gone', h4) = wait_runner_exit orc u known' uncertain (reap_polls h3) h3
                in (if gone' then Inr () else Inl SurvivedShutdown, h4)))"

section \<open>Frame\<close>

text \<open>Every primitive here changes only the processes, the pidfiles and the taps.\<close>

definition only_procs :: "host \<Rightarrow> host \<Rightarrow> bool" where
  "only_procs h h' \<longleftrightarrow> (\<exists>ps pf tp. h' = h\<lparr>procs := ps, pidfiles := pf, taps := tp\<rparr>)"

definition wf_procs :: "host \<Rightarrow> bool" where
  "wf_procs h \<longleftrightarrow> distinct (map fst (procs h))"

text \<open>\<open>h'\<close> is \<open>h\<close> with some processes gone.\<close>

definition fewer_procs :: "host \<Rightarrow> host \<Rightarrow> bool" where
  "fewer_procs h h' \<longleftrightarrow> only_procs h h' \<and> (\<exists>Q. procs h' = filter Q (procs h))"

named_theorems frame

lemma only_procsI: "h' = h\<lparr>procs := procs h', pidfiles := pidfiles h', taps := taps h'\<rparr> \<Longrightarrow> only_procs h h'"
  unfolding only_procs_def by blast

lemma only_procs_refl [frame]: "only_procs h h"
  by (rule only_procsI) simp

lemma only_procs_trans: "only_procs h h' \<Longrightarrow> only_procs h' h'' \<Longrightarrow> only_procs h h''"
  unfolding only_procs_def by fastforce

lemma only_procs_fields:
  assumes "only_procs h h'"
  shows "proc_listable h' = proc_listable h" "endpoints h' = endpoints h"
    "records h' = records h" "births h' = births h" "save_script h' = save_script h"
    "clock h' = clock h" "deploying h' = deploying h" "locked h' = locked h"
    "pull_progress h' = pull_progress h" "fs_dirs h' = fs_dirs h" "reap_polls h' = reap_polls h"
    "has_systemd h' = has_systemd h" "stuck_scopes h' = stuck_scopes h"
    "log_lens h' = log_lens h" "log_rename_ok h' = log_rename_ok h"
  using assms unfolding only_procs_def by auto

lemma fewer_procsI: "only_procs h h' \<Longrightarrow> procs h' = filter Q (procs h) \<Longrightarrow> fewer_procs h h'"
  unfolding fewer_procs_def by blast

lemma fewer_procs_same: "only_procs h h' \<Longrightarrow> procs h' = procs h \<Longrightarrow> fewer_procs h h'"
  by (rule fewer_procsI [where Q = "\<lambda>_. True"]) simp_all

lemma fewer_procs_refl [frame]: "fewer_procs h h"
  by (rule fewer_procs_same) (simp_all add: only_procs_refl)

lemma fewer_procs_trans: "fewer_procs h h' \<Longrightarrow> fewer_procs h' h'' \<Longrightarrow> fewer_procs h h''"
  by (auto simp: fewer_procs_def dest: only_procs_trans)

lemma fewer_procs_only: "fewer_procs h h' \<Longrightarrow> only_procs h h'"
  by (simp add: fewer_procs_def)

lemma fewer_procs_wf: "fewer_procs h h' \<Longrightarrow> wf_procs h \<Longrightarrow> wf_procs h'"
  by (auto simp: fewer_procs_def wf_procs_def distinct_map_filter)

lemma fewer_remove_pid [frame]: "fewer_procs h (remove_pid pd h)"
  by (rule fewer_procsI, rule only_procsI) (simp_all add: remove_pid_def)

lemma fewer_kill_pid [frame]: "fewer_procs h (kill_pid pd h)"
  by (simp add: kill_pid_def frame)

lemma fewer_kill_stale [frame]: "fewer_procs h (kill_stale_if_alive pd P h)"
  by (simp add: kill_stale_if_alive_def frame)

lemma fewer_pidfile_remove [frame]: "fewer_procs h (pidfile_remove d u h)"
  by (rule fewer_procs_same, rule only_procsI) (simp_all add: pidfile_remove_def)

lemma fewer_delete_tap [frame]: "fewer_procs h (delete_fc_tap t h)"
  by (rule fewer_procs_same, rule only_procsI) (simp_all add: delete_fc_tap_def)

lemma fewer_stop_scope [frame]: "fewer_procs h (snd (stop_fc_scope sc h))"
proof -
  have "fewer_procs h (h\<lparr>procs := filter (\<lambda>(_, p). in_scope p \<noteq> Some sc \<or> unkillable p) (procs h)\<rparr>)"
    by (rule fewer_procsI, rule only_procsI) simp_all
  then show ?thesis by (simp add: stop_fc_scope_def Let_def frame)
qed

lemma fewer_fold: "(\<And>x h. fewer_procs h (f x h)) \<Longrightarrow> fewer_procs h (fold f xs h)"
  by (induction xs arbitrary: h) (auto simp: fewer_procs_refl intro: fewer_procs_trans)

lemma fewer_kill_validated [frame]: "fewer_procs h (kill_validated u pd h)"
  by (simp add: kill_validated_def frame)

lemma fewer_stop_scopes [frame]: "fewer_procs h (snd (stop_scopes scs c h))"
proof (induction scs arbitrary: c h)
  case (Cons sc scs)
  show ?case
    using fewer_procs_trans [OF fewer_stop_scope Cons.IH] by (simp add: case_prod_unfold Let_def)
qed (simp add: frame)

lemma fewer_kill_pulls [frame]: "fewer_procs h (kill_pull_procs_for_uuid d u h)"
  unfolding kill_pull_procs_for_uuid_def by (intro fewer_fold frame)

lemma fewer_kill_pidfile [frame]: "fewer_procs h (snd (kill_pidfile_process orc u img h))"
  by (auto simp: kill_pidfile_process_def Let_def frame
      intro: fewer_procs_trans [OF fewer_kill_stale fewer_pidfile_remove]
      split: option.splits proc_file.splits)

lemma fewer_kill_fc [frame]: "fewer_procs h (snd (kill_fc_child_for_uuid orc u img h))"
proof -
  define h1 where "h1 = kill_pull_procs_for_uuid (data_dir orc) u h"
  define c where "c = fst (kill_pidfile_process orc u img h1)"
  define h2 where "h2 = snd (kill_pidfile_process orc u img h1)"
  define h3 where "h3 = snd (stop_scopes (fc_scope_names_for_uuid u img) c h2)"
  have "fewer_procs h h1" "fewer_procs h1 h2" "fewer_procs h2 h3"
    by (simp_all only: h1_def h2_def h3_def frame)
  then have "fewer_procs h h3" by (blast intro: fewer_procs_trans)
  moreover have "fewer_procs h3 (fold delete_fc_tap (fc_tap_names_for_uuid orc u img) h3)"
    by (intro fewer_fold frame)
  ultimately show ?thesis
    by (simp add: kill_fc_child_for_uuid_def Let_def case_prod_unfold h1_def c_def h2_def h3_def
        fewer_procs_trans)
qed

lemma fewer_kill_all_validated [frame]: "fewer_procs h (fold (kill_validated u) pids h)"
  by (intro fewer_fold frame)

section \<open>Only the app's own processes\<close>

definition is_app_fc :: "orch \<Rightarrow> string \<Rightarrow> string option \<Rightarrow> proc \<Rightarrow> bool" where
  "is_app_fc orc u img p =
     (case cmdline p of
        Bytes cmd \<Rightarrow> (case parse_firecracker_api_sock cmd of
                        Some socket \<Rightarrow> socket \<in> expected_sockets orc u img | None \<Rightarrow> False)
      | _ \<Rightarrow> False)"

text \<open>A process of the app: its runner, an image pull into its stage directory, a Firecracker on one
  of its sockets or in one of its scopes, or the process that listens on its control socket.\<close>

definition app_process :: "orch \<Rightarrow> string \<Rightarrow> string option \<Rightarrow> host \<Rightarrow> u32 \<times> proc \<Rightarrow> bool" where
  "app_process orc u img h e \<longleftrightarrow>
     runner_pid_identity h (fst e) u = Matches \<or> is_pull_proc (data_dir orc) u (snd e) \<or>
     is_app_fc orc u img (snd e) \<or>
     (\<exists>sc \<in> set (fc_scope_names_for_uuid u img). in_scope (snd e) = Some sc) \<or>
     (\<exists>ep. endpoints h (control_sock_for orc u) = Some ep \<and> ep_owner ep = fst e)"

lemma find_proc_mem: "wf_procs h \<Longrightarrow> (pd, p) \<in> set (procs h) \<Longrightarrow> find_proc h pd = Some p"
  by (simp add: wf_procs_def find_proc_def)

lemma find_proc_SomeD: "find_proc h pd = Some p \<Longrightarrow> (pd, p) \<in> set (procs h)"
  by (auto simp: find_proc_def dest: map_of_SomeD)

lemma identity_cong:
  "find_proc h pd = find_proc h' pd \<Longrightarrow> runner_pid_identity h pd u = runner_pid_identity h' pd u"
  by (simp add: runner_pid_identity_def runner_is_alive_def)

lemma app_process_cong:
  assumes "wf_procs h" "wf_procs h'" "(pd, p) \<in> set (procs h)" "(pd, p) \<in> set (procs h')"
    and "endpoints h' = endpoints h"
  shows "app_process orc u img h' (pd, p) = app_process orc u img h (pd, p)"
  using assms identity_cong [of h pd h' u] by (simp add: app_process_def find_proc_mem)

text \<open>An operation on \<open>u\<close> that leaves every process of the others in place.\<close>

definition spares_others :: "orch \<Rightarrow> string \<Rightarrow> string option \<Rightarrow> host \<Rightarrow> host \<Rightarrow> bool" where
  "spares_others orc u img h h' \<longleftrightarrow>
     (wf_procs h \<longrightarrow> wf_procs h' \<and>
        (\<forall>e \<in> set (procs h). \<not> leaving (snd e) \<and> \<not> app_process orc u img h e \<longrightarrow> e \<in> set (procs h'))) \<and>
     fst ` set (procs h') \<subseteq> fst ` set (procs h) \<and> endpoints h' = endpoints h"

lemma spares_refl [frame]: "spares_others orc u img h h"
  by (simp add: spares_others_def)

lemma spares_trans:
  assumes a: "spares_others orc u img h h'" and b: "spares_others orc u img h' h''"
  shows "spares_others orc u img h h''"
proof -
have sub: "fst ` set (procs h'') \<subseteq> fst ` set (procs h)" "endpoints h'' = endpoints h"
  using a b unfolding spares_others_def by (meson subset_trans, metis)
show ?thesis
proof (cases "wf_procs h")
  case True
  with a b have wf: "wf_procs h'" "wf_procs h''" by (auto simp: spares_others_def)
  have "e \<in> set (procs h'')"
    if e: "e \<in> set (procs h)" "\<not> leaving (snd e)" "\<not> app_process orc u img h e" for e
  proof -
    have e': "e \<in> set (procs h')" using a e True by (simp add: spares_others_def)
    have "app_process orc u img h' e = app_process orc u img h e"
      using app_process_cong [of h h' "fst e" "snd e"] True wf e e' a
      by (simp add: spares_others_def)
    with e e' b wf show ?thesis by (simp add: spares_others_def)
  qed
  with wf sub show ?thesis unfolding spares_others_def by blast
next
  case False
  with sub show ?thesis by (simp add: spares_others_def)
qed
qed

lemma spares_fewerI:
  assumes "fewer_procs h h'"
    and "\<And>e. wf_procs h \<Longrightarrow> e \<in> set (procs h) \<Longrightarrow> \<not> app_process orc u img h e \<Longrightarrow> e \<in> set (procs h')"
  shows "spares_others orc u img h h'"
  using assms fewer_procs_wf [OF assms(1)] only_procs_fields(2) [OF fewer_procs_only [OF assms(1)]]
  by (auto simp: spares_others_def fewer_procs_def)

lemma spares_same: "only_procs h h' \<Longrightarrow> procs h' = procs h \<Longrightarrow> spares_others orc u img h h'"
  by (rule spares_fewerI [OF fewer_procs_same]) auto

lemma mem_remove_pid: "e \<in> set (procs h) \<Longrightarrow> fst e \<noteq> pd \<Longrightarrow> e \<in> set (procs (remove_pid pd h))"
  by (cases e) (simp add: remove_pid_def)

lemma mem_fold_kill_pid:
  "e \<in> set (procs h) \<Longrightarrow> fst e \<notin> set pids \<Longrightarrow> e \<in> set (procs (fold kill_pid pids h))"
  by (induction pids arbitrary: h) (auto simp: kill_pid_def intro: mem_remove_pid)

lemma spares_kill_pulls [frame]:
  "spares_others orc u img h (kill_pull_procs_for_uuid (data_dir orc) u h)"
proof (rule spares_fewerI [OF fewer_kill_pulls])
  fix e
  assume wf: "wf_procs h" and e: "e \<in> set (procs h)" "\<not> app_process orc u img h e"
  have "fst e \<notin> set (pull_pids_for_uuid h (data_dir orc) u)"
  proof
    assume "fst e \<in> set (pull_pids_for_uuid h (data_dir orc) u)"
    then obtain p where p: "(fst e, p) \<in> set (procs h)" "is_pull_proc (data_dir orc) u p"
      by (auto simp: pull_pids_for_uuid_def split: if_splits)
    with wf e(1) have "p = snd e"
      by (metis find_proc_mem option.inject prod.collapse)
    with p e(2) show False by (simp add: app_process_def)
  qed
  with e(1) show "e \<in> set (procs (kill_pull_procs_for_uuid (data_dir orc) u h))"
    by (simp add: kill_pull_procs_for_uuid_def mem_fold_kill_pid)
qed

lemma spares_kill_pidfile [frame]:
  "spares_others orc u img h (snd (kill_pidfile_process orc u img h))"
proof (rule spares_fewerI [OF fewer_kill_pidfile])
  fix e
  assume wf: "wf_procs h" and e: "e \<in> set (procs h)" "\<not> app_process orc u img h e"
  have keep: "e \<in> set (procs (kill_stale_if_alive pd P h))"
    if "find_proc h pd = Some p" "is_app_fc orc u img p" for pd P p
  proof -
    have "fst e \<noteq> pd"
      using that e wf find_proc_mem [of h "fst e" "snd e"] by (auto simp: app_process_def)
    with e(1) show ?thesis by (simp add: kill_stale_if_alive_def mem_remove_pid)
  qed
  show "e \<in> set (procs (snd (kill_pidfile_process orc u img h)))"
    using e(1) keep
    by (auto simp: kill_pidfile_process_def Let_def pidfile_remove_def is_app_fc_def
        split: option.splits proc_file.splits)
qed

lemma spares_stop_scopes:
  "set scs \<subseteq> set (fc_scope_names_for_uuid u img) \<Longrightarrow> spares_others orc u img h (snd (stop_scopes scs c h))"
proof (induction scs arbitrary: c h)
  case Nil
  show ?case by (simp add: frame)
next
  case (Cons sc scs)
  have "spares_others orc u img h (snd (stop_fc_scope sc h))"
  proof (rule spares_fewerI [OF fewer_stop_scope])
    fix e
    assume "e \<in> set (procs h)" "\<not> app_process orc u img h e"
    with Cons.prems show "e \<in> set (procs (snd (stop_fc_scope sc h)))"
      by (cases e) (auto simp: stop_fc_scope_def Let_def app_process_def)
  qed
  from spares_trans [OF this Cons.IH] Cons.prems show ?case
    by (simp add: case_prod_unfold Let_def)
qed

lemma procs_fold_delete_tap: "procs (fold delete_fc_tap ts h) = procs h"
  by (induction ts arbitrary: h) (simp_all add: delete_fc_tap_def)

lemma spares_kill_fc [frame]: "spares_others orc u img h (snd (kill_fc_child_for_uuid orc u img h))"
proof -
  define h1 where "h1 = kill_pull_procs_for_uuid (data_dir orc) u h"
  define c where "c = fst (kill_pidfile_process orc u img h1)"
  define h2 where "h2 = snd (kill_pidfile_process orc u img h1)"
  define h3 where "h3 = snd (stop_scopes (fc_scope_names_for_uuid u img) c h2)"
  have "spares_others orc u img h h1" "spares_others orc u img h1 h2"
    by (simp_all only: h1_def h2_def frame)
  moreover have "spares_others orc u img h2 h3"
    unfolding h3_def by (rule spares_stop_scopes) simp
  moreover have "spares_others orc u img h3 (fold delete_fc_tap (fc_tap_names_for_uuid orc u img) h3)"
    by (intro spares_same procs_fold_delete_tap fewer_procs_only fewer_fold frame)
  ultimately show ?thesis
    by (auto simp: kill_fc_child_for_uuid_def Let_def case_prod_unfold h1_def c_def h2_def h3_def
        intro: spares_trans)
qed

subsection \<open>The definitive shutdown\<close>

lemma leave_step_Cons:
  "leave_step ((pd, p) # ps) = leave_step ps \<or> (\<exists>p'. leave_step ((pd, p) # ps) = (pd, p') # leave_step ps)"
  by (auto split: option.splits nat.splits)

lemma leave_step_fst: "fst ` set (leave_step ps) \<subseteq> fst ` set ps"
proof (induction ps)
  case (Cons e ps)
  have "fst ` set (leave_step (e # ps)) \<subseteq> insert (fst e) (fst ` set (leave_step ps))"
    using leave_step_Cons [of "fst e" "snd e" ps] by auto
  also have "\<dots> \<subseteq> insert (fst e) (fst ` set ps)"
    by (rule insert_mono [OF Cons.IH])
  finally show ?case by simp
qed simp

lemma distinct_leave_step: "distinct (map fst ps) \<Longrightarrow> distinct (map fst (leave_step ps))"
proof (induction ps)
  case (Cons e ps)
  have "fst e \<notin> fst ` set (leave_step ps)"
    using leave_step_fst [of ps] Cons.prems by auto
  with Cons show ?case using leave_step_Cons [of "fst e" "snd e" ps] by auto
qed simp

lemma mem_leave_step: "e \<in> set ps \<Longrightarrow> \<not> leaving (snd e) \<Longrightarrow> e \<in> set (leave_step ps)"
  by (induction ps rule: leave_step.induct) (auto split: option.splits nat.splits)

lemma only_advance [frame]: "only_procs h (advance h)"
  by (rule only_procsI) (simp add: advance_def)

lemma spares_advance [frame]: "spares_others orc u img h (advance h)"
  using leave_step_fst [of "procs h"]
  by (simp add: spares_others_def wf_procs_def advance_def distinct_leave_step mem_leave_step)

lemma only_wait [frame]: "only_procs h (snd (wait_runner_exit orc u known unc n h))"
  by (induction n arbitrary: h) (auto simp: frame intro: only_procs_trans [OF only_advance])

lemma spares_wait [frame]: "spares_others orc u img h (snd (wait_runner_exit orc u' known unc n h))"
  by (induction n arbitrary: h) (auto simp: frame intro: spares_trans [OF spares_advance])

lemma map_fst_update_proc: "map fst (procs (update_proc pd f h)) = map fst (procs h)"
  by (auto simp: update_proc_def)

lemma only_shutdown_cmd [frame]: "only_procs h (snd (shutdown_cmd h sock))"
  by (rule only_procsI) (simp add: shutdown_cmd_def update_proc_def split: option.splits)

lemma spares_update_owner:
  assumes "endpoints h (control_sock_for orc u) = Some ep"
  shows "spares_others orc u img h (update_proc (ep_owner ep) f h)"
proof -
  have mem: "e \<in> set (procs (update_proc pd f h))" if "e \<in> set (procs h)" "fst e \<noteq> pd" for e pd
  proof -
    have "(\<lambda>(q, p). (q, if q = pd then f p else p)) e \<in>
        set (map (\<lambda>(q, p). (q, if q = pd then f p else p)) (procs h))"
      unfolding set_map by (rule imageI [OF that(1)])
    with that(2) show ?thesis by (simp add: update_proc_def case_prod_unfold)
  qed
  have "fst ` set (procs (update_proc pd f h)) = fst ` set (procs h)" for pd
    using map_fst_update_proc [of pd f h] by (metis list.set_map)
  moreover have "endpoints (update_proc pd f h) = endpoints h" for pd
    by (simp add: update_proc_def)
  moreover have "wf_procs h \<Longrightarrow> wf_procs (update_proc pd f h)" for pd
    by (simp add: wf_procs_def map_fst_update_proc)
  moreover have "fst e \<noteq> ep_owner ep" if "\<not> app_process orc u img h e" for e
    using that assms by (auto simp: app_process_def)
  ultimately show ?thesis using mem by (simp add: spares_others_def)
qed

lemma spares_shutdown_cmd [frame]:
  "spares_others orc u img h (snd (shutdown_cmd h (control_sock_for orc u)))"
  using spares_update_owner [of h orc u]
  by (auto simp: shutdown_cmd_def listening_def frame split: option.splits if_splits)

lemma spares_kill_validated [frame]: "spares_others orc u img h (kill_validated u pd h)"
proof (rule spares_fewerI [OF fewer_kill_validated])
  fix e
  assume e: "e \<in> set (procs h)" "\<not> app_process orc u img h e"
  show "e \<in> set (procs (kill_validated u pd h))"
  proof (cases "runner_pid_identity h pd u = Matches")
    case True
    with e(2) have "fst e \<noteq> pd" by (auto simp: app_process_def)
    with e(1) show ?thesis
      by (simp add: kill_validated_def kill_pid_def mem_remove_pid)
  next
    case False
    with e(1) show ?thesis by (simp add: kill_validated_def runner_identity_allows_sigkill_def)
  qed
qed

lemma spares_fold: "(\<And>x h. spares_others orc u img h (f x h)) \<Longrightarrow> spares_others orc u img h (fold f xs h)"
  by (induction xs arbitrary: h) (auto simp: frame intro: spares_trans)

lemma spares_only_shutdown:
  "spares_others orc u img h (snd (shutdown_runner_definitive orc u pd h)) \<and>
   only_procs h (snd (shutdown_runner_definitive orc u pd h))"
proof (cases "recovered_pids orc u h")
  case (Inl e)
  then show ?thesis by (simp add: shutdown_runner_definitive_def frame)
next
  case (Inr healthy)
  define unc where "unc = (if runner_pid_identity h pd u = Unknown then Some pd else None)"
  define known where "known = remdups (healthy @ (if runner_pid_identity h pd u = Matches then [pd] else [])
      @ runner_pids_for_uuid h u)"
  define h1 where "h1 = snd (shutdown_cmd h (control_sock_for orc u))"
  define w2 where "w2 = wait_runner_exit orc u known unc (reap_polls h1) h1"
  define known' where "known' = remdups (known @ runner_pids_for_uuid (snd w2) u)"
  define live where "live = filter (\<lambda>pd. runner_identity_allows_sigkill (runner_pid_identity (snd w2) pd u))
      (known' @ (case unc of Some pd \<Rightarrow> [pd] | None \<Rightarrow> []))"
  define h3 where "h3 = fold (kill_validated u) live (snd w2)"
  define w4 where "w4 = wait_runner_exit orc u known' unc (reap_polls h3) h3"
  have res: "snd (shutdown_runner_definitive orc u pd h) = (if fst w2 then snd w2 else snd w4)"
    by (simp add: shutdown_runner_definitive_def Inr Let_def case_prod_unfold unc_def known_def h1_def
        w2_def known'_def live_def h3_def w4_def)
  have "spares_others orc u img h h1" "only_procs h h1"
    by (simp_all only: h1_def frame)
  moreover have "spares_others orc u img h1 (snd w2)" "only_procs h1 (snd w2)"
    by (simp_all only: w2_def frame)
  moreover have "spares_others orc u img (snd w2) h3" "only_procs (snd w2) h3"
    unfolding h3_def by (intro spares_fold frame, intro fewer_procs_only frame)
  moreover have "spares_others orc u img h3 (snd w4)" "only_procs h3 (snd w4)"
    by (simp_all only: w4_def frame)
  ultimately show ?thesis
    unfolding res by (auto intro: spares_trans only_procs_trans)
qed

lemmas spares_shutdown [frame] = spares_only_shutdown [THEN conjunct1]
  and only_shutdown [frame] = spares_only_shutdown [THEN conjunct2]

section \<open>What a confirmed teardown guarantees\<close>

lemma wait_gone: "fst (wait_runner_exit orc u known unc n h) \<Longrightarrow>
    runner_gone orc u known unc (snd (wait_runner_exit orc u known unc n h))"
  by (induction n arbitrary: h) auto

lemma runner_goneD:
  "runner_gone orc u known unc h \<Longrightarrow>
     runner_pids_for_uuid h u = [] \<and> socket_reachable h (control_sock_for orc u) = Inr False"
  by (auto simp: runner_gone_def Let_def reachable_or_true_def split: sum.splits)

lemma shutdown_Inr:
  assumes "fst (shutdown_runner_definitive orc u pd h) = Inr ()"
  shows "\<exists>known unc n h'. fst (wait_runner_exit orc u known unc n h') \<and>
    snd (shutdown_runner_definitive orc u pd h) = snd (wait_runner_exit orc u known unc n h')"
  using assms unfolding shutdown_runner_definitive_def Let_def case_prod_unfold
  by (auto split: sum.splits if_splits)

lemma shutdown_confirmed:
  assumes "fst (shutdown_runner_definitive orc u pd h) = Inr ()"
  shows "runner_pids_for_uuid (snd (shutdown_runner_definitive orc u pd h)) u = [] \<and>
         socket_reachable (snd (shutdown_runner_definitive orc u pd h)) (control_sock_for orc u) = Inr False"
  using shutdown_Inr [OF assms] wait_gone runner_goneD by metis

lemma fewer_listening:
  assumes "fewer_procs h h'" "wf_procs h"
  shows "listening h' sock = None \<or> listening h' sock = listening h sock"
proof -
  obtain Q where q: "procs h' = filter Q (procs h)" using assms(1) by (auto simp: fewer_procs_def)
  have found: "find_proc h' pd = None \<or> find_proc h' pd = find_proc h pd" for pd
    using q assms(2) find_proc_SomeD [of h' pd] by (cases "find_proc h' pd") (auto simp: find_proc_mem)
  have ep: "endpoints h' = endpoints h"
    by (rule only_procs_fields(2) [OF fewer_procs_only [OF assms(1)]])
  show ?thesis
  proof (cases "endpoints h sock")
    case None
    then show ?thesis by (simp add: listening_def ep)
  next
    case (Some e)
    then show ?thesis using found [of "ep_owner e"] by (auto simp: listening_def ep)
  qed
qed

lemma fewer_socket:
  assumes "fewer_procs h h'" "wf_procs h" "socket_reachable h sock = Inr False"
  shows "socket_reachable h' sock = Inr False"
  using fewer_listening [OF assms(1,2), of sock] assms(3)
  by (auto simp: socket_reachable_def)

lemma stop_scopes_complete:
  "fst (stop_scopes scs c h) \<Longrightarrow> c \<and> (has_systemd h \<longrightarrow>
     (\<forall>e \<in> set (procs (snd (stop_scopes scs c h))). \<forall>sc \<in> set scs. in_scope (snd e) \<noteq> Some sc))"
proof (induction scs arbitrary: c h)
  case (Cons sc scs)
  define h' where "h' = snd (stop_fc_scope sc h)"
  have c: "c \<and> fst (stop_fc_scope sc h)"
    and rest: "has_systemd h' \<longrightarrow> (\<forall>e \<in> set (procs (snd (stop_scopes (sc # scs) c h))).
      \<forall>sc \<in> set scs. in_scope (snd e) \<noteq> Some sc)"
    using Cons by (auto simp: case_prod_unfold Let_def h'_def)
  have sys: "has_systemd h' = has_systemd h"
    using only_procs_fields(12) [OF fewer_procs_only [OF fewer_stop_scope]] by (simp add: h'_def)
  have "in_scope (snd e) \<noteq> Some sc" if "has_systemd h" "e \<in> set (procs h')" for e
    using c that by (cases e) (auto simp: h'_def stop_fc_scope_def Let_def list_all_iff split: if_splits)
  moreover have "set (procs (snd (stop_scopes (sc # scs) c h))) \<subseteq> set (procs h')"
    using fewer_stop_scopes [of h' scs "c \<and> fst (stop_fc_scope sc h)"]
    by (auto simp: case_prod_unfold Let_def h'_def fewer_procs_def)
  ultimately show ?case using c rest sys by auto
qed simp

section \<open>A definitive shutdown of killable processes succeeds\<close>

definition runner_proc :: "string \<Rightarrow> proc \<Rightarrow> bool" where
  "runner_proc u p =
     (case cmdline p of
        Bytes cmd \<Rightarrow> process_bytes_match_runner_uuid cmd (case environ p of Bytes env \<Rightarrow> env | _ \<Rightarrow> []) u
      | _ \<Rightarrow> False)"

lemma readable_pids:
  "map fst (filter (\<lambda>(_, cmd, env). process_bytes_match_runner_uuid cmd env u) (readable ps)) =
     map fst (filter (\<lambda>e. runner_proc u (snd e)) ps)"
proof (induction ps rule: readable.induct)
  case (2 pd p ps)
  then show ?case by (cases "cmdline p") (simp_all add: runner_proc_def)
qed simp

lemma runner_pids_iff:
  assumes "wf_procs h"
  shows "pd \<in> set (runner_pids_for_uuid h u) \<longleftrightarrow>
    proc_listable h \<and> (\<exists>p. find_proc h pd = Some p \<and> runner_proc u p)"
proof -
  have "set (select_matching_runner_pids (readable (procs h)) u) =
      fst ` {e \<in> set (procs h). runner_proc u (snd e)}"
    unfolding select_matching_runner_pids_def set_sort readable_pids set_map set_filter by (rule refl)
  then have "set (runner_pids_for_uuid h u) =
      (if proc_listable h then fst ` {e \<in> set (procs h). runner_proc u (snd e)} else {})"
    by (simp only: runner_pids_for_uuid_def) simp
  moreover have "pd \<in> fst ` {e \<in> set (procs h). runner_proc u (snd e)} \<longleftrightarrow>
      (\<exists>p. find_proc h pd = Some p \<and> runner_proc u p)"
  proof
    assume "pd \<in> fst ` {e \<in> set (procs h). runner_proc u (snd e)}"
    then obtain p where "(pd, p) \<in> set (procs h)" "runner_proc u p" by auto
    then show "\<exists>p. find_proc h pd = Some p \<and> runner_proc u p"
      using find_proc_mem [OF assms] by blast
  next
    assume "\<exists>p. find_proc h pd = Some p \<and> runner_proc u p"
    then obtain p where "find_proc h pd = Some p" "runner_proc u p" by blast
    then have "(pd, p) \<in> {e \<in> set (procs h). runner_proc u (snd e)}"
      using find_proc_SomeD by simp
    from imageI [OF this, of fst] show "pd \<in> fst ` {e \<in> set (procs h). runner_proc u (snd e)}"
      by simp
  qed
  ultimately show ?thesis by simp
qed

text \<open>\<open>ages h h'\<close>: every process of \<open>h'\<close> is one of \<open>h\<close>, but for how far its exit has come.\<close>

definition core :: "proc \<Rightarrow> proc" where
  "core p = p\<lparr>leaving := False, leaves_in := None\<rparr>"

lemma core_fields:
  assumes "core p = core q"
  shows "cmdline p = cmdline q" "environ p = environ q" "waited p = waited q" "signalable p = signalable q"
    "unkillable p = unkillable q"
  using assms by (cases p; cases q; simp add: core_def)+

definition ages :: "host \<Rightarrow> host \<Rightarrow> bool" where
  "ages h h' \<longleftrightarrow> wf_procs h' \<and> only_procs h h' \<and>
     (\<forall>pd p'. find_proc h' pd = Some p' \<longrightarrow> (\<exists>p. find_proc h pd = Some p \<and> core p' = core p))"

lemma ages_trans: "ages h h' \<Longrightarrow> ages h' h'' \<Longrightarrow> ages h h''"
  unfolding ages_def by (metis only_procs_trans)

lemma identity_aged:
  assumes "ages h h'" "find_proc h' pd \<noteq> None"
  shows "runner_pid_identity h' pd u = runner_pid_identity h pd u"
proof -
  from assms obtain p' p where "find_proc h' pd = Some p'" "find_proc h pd = Some p" "core p' = core p"
    unfolding ages_def by blast
  then show ?thesis
    using core_fields [of p' p]
    by (simp add: runner_pid_identity_def runner_is_alive_def cong: if_cong proc_file.case_cong wait_state.case_cong)
qed

lemma identity_absent: "find_proc h pd = None \<Longrightarrow> runner_pid_identity h pd u = Gone"
  by (simp add: runner_pid_identity_def runner_is_alive_def)

lemma runner_pids_aged:
  assumes "wf_procs h" "ages h h'" "find_proc h' pd \<noteq> None"
  shows "pd \<in> set (runner_pids_for_uuid h' u) \<longleftrightarrow> pd \<in> set (runner_pids_for_uuid h u)"
proof -
  from assms obtain p' p where p: "find_proc h' pd = Some p'" "find_proc h pd = Some p" "core p' = core p"
    unfolding ages_def by blast
  have "proc_listable h' = proc_listable h" "wf_procs h'"
    using assms(2) only_procs_fields(1) unfolding ages_def by blast+
  with p assms(1) core_fields [OF p(3)] show ?thesis
    by (simp add: runner_pids_iff runner_proc_def cong: proc_file.case_cong)
qed

lemma listening_aged:
  assumes "ages h h'" "listening h' sock = Some e"
  shows "listening h sock = Some e \<and> find_proc h' (ep_owner e) \<noteq> None"
proof -
  have ep: "endpoints h sock = Some e" and found: "find_proc h' (ep_owner e) \<noteq> None"
    using assms only_procs_fields(2) [of h h'] unfolding ages_def
    by (auto simp: listening_def split: option.splits if_splits)
  then obtain p' p where p: "find_proc h' (ep_owner e) = Some p'" "find_proc h (ep_owner e) = Some p"
    "core p' = core p"
    using assms(1) unfolding ages_def by blast
  with assms(2) ep found show ?thesis
    using core_fields(3) [OF p(3)] only_procs_fields(2) [of h h'] assms(1) unfolding ages_def
    by (auto simp: listening_def split: if_splits)
qed

lemma map_of_update_proc:
  "map_of (map (\<lambda>(q, p). (q, if q = x then f p else p)) ps) pd =
     map_option (\<lambda>p. if pd = x then f p else p) (map_of ps pd)"
  by (induction ps) auto

lemma ages_refl: "wf_procs h \<Longrightarrow> ages h h"
  by (simp add: ages_def frame)

lemma ages_shutdown_cmd:
  assumes "wf_procs h"
  shows "ages h (snd (shutdown_cmd h sock))"
proof -
  have "ages h (update_proc q (\<lambda>p. p\<lparr>leaving := True\<rparr>) h)" for q
    unfolding ages_def
  proof (intro conjI allI impI)
    show "wf_procs (update_proc q (\<lambda>p. p\<lparr>leaving := True\<rparr>) h)"
      using assms by (simp add: wf_procs_def map_fst_update_proc)
    show "only_procs h (update_proc q (\<lambda>p. p\<lparr>leaving := True\<rparr>) h)"
      by (rule only_procsI) (simp add: update_proc_def)
    fix pd p' assume "find_proc (update_proc q (\<lambda>p. p\<lparr>leaving := True\<rparr>) h) pd = Some p'"
    then show "\<exists>p. find_proc h pd = Some p \<and> core p' = core p"
      by (auto simp: find_proc_def update_proc_def map_of_update_proc core_def split: if_splits)
  qed
  with ages_refl [OF assms] show ?thesis by (auto simp: shutdown_cmd_def split: option.splits)
qed

lemma map_of_leave_step:
  "distinct (map fst ps) \<Longrightarrow> map_of (leave_step ps) pd = Some p' \<Longrightarrow>
     \<exists>p. map_of ps pd = Some p \<and> core p' = core p"
proof (induction ps rule: leave_step.induct)
  case (2 q p ps)
  have out: "q \<notin> fst ` set (leave_step ps)"
  proof
    assume "q \<in> fst ` set (leave_step ps)"
    with leave_step_fst [of ps] have "q \<in> fst ` set ps" by (rule subsetD)
    with "2.prems"(1) show False by simp
  qed
  show ?case
  proof (cases "pd = q")
    case True
    have "map_of (leave_step ps) q = None" using out by (simp add: map_of_eq_None_iff)
    with "2.prems"(2) True show ?thesis
      by (auto simp: core_def split: if_splits option.splits nat.splits)
  next
    case False
    then have "map_of (leave_step ps) pd = Some p'"
      using "2.prems"(2) by (auto split: if_splits option.splits nat.splits)
    with 2 False show ?thesis
      by (cases "leaving p"; cases "leaves_in p") (auto split: nat.splits)
  qed
qed simp

lemma ages_advance: "wf_procs h \<Longrightarrow> ages h (advance h)"
  unfolding ages_def
proof (intro conjI allI impI)
  assume wf: "wf_procs h"
  then show "wf_procs (advance h)" by (simp add: wf_procs_def advance_def distinct_leave_step)
  show "only_procs h (advance h)" by (rule frame)
  show "\<exists>p. find_proc h pd = Some p \<and> core p' = core p" if "find_proc (advance h) pd = Some p'" for pd p'
    using map_of_leave_step [of "procs h" pd p'] wf that
    by (simp add: wf_procs_def advance_def find_proc_def)
qed

lemma ages_wait: "wf_procs h \<Longrightarrow> ages h (snd (wait_runner_exit orc u known unc n h))"
proof (induction n arbitrary: h)
  case (Suc n)
  have "ages h (advance h)" by (rule ages_advance [OF Suc.prems])
  then have "wf_procs (advance h)" "ages h (advance h)" by (simp_all add: ages_def)
  with Suc.IH [of "advance h"] show ?case
    by (auto intro: ages_trans simp: ages_refl [OF Suc.prems])
qed (simp add: ages_refl)

lemma fewer_find:
  assumes "fewer_procs h h'" "wf_procs h"
  shows "find_proc h' pd = None \<or> find_proc h' pd = find_proc h pd"
proof (cases "find_proc h' pd")
  case (Some p)
  then have "(pd, p) \<in> set (procs h)"
    using find_proc_SomeD assms(1) by (fastforce simp: fewer_procs_def)
  with assms(2) Some show ?thesis by (simp add: find_proc_mem)
qed simp

lemma ages_fewer: "fewer_procs h h' \<Longrightarrow> wf_procs h \<Longrightarrow> ages h h'"
  using fewer_find [of h h'] fewer_procs_wf [of h h'] fewer_procs_only [of h h']
  unfolding ages_def by (metis option.distinct(1))

lemma kill_validated_gone:
  assumes "wf_procs h" "runner_pid_identity h pd u \<in> {Matches, Gone}" "pd \<noteq> 0"
    and "\<And>p. find_proc h pd = Some p \<Longrightarrow> \<not> unkillable p"
    and "runner_pid_identity h pd u = Gone \<Longrightarrow> find_proc h pd = None"
  shows "find_proc (kill_validated u pd h) pd = None"
proof (cases "runner_pid_identity h pd u = Matches")
  case True
  then have "(pd, p) \<notin> set (procs (kill_validated u pd h))" for p
    using assms(1,3,4) find_proc_mem [of h pd p]
    by (auto simp: kill_validated_def runner_identity_allows_sigkill_def kill_pid_def remove_pid_def)
  then show ?thesis using find_proc_SomeD by (metis option.exhaust)
next
  case False
  with assms show ?thesis by (simp add: kill_validated_def runner_identity_allows_sigkill_def)
qed

lemma fold_kill_validated_gone:
  assumes "wf_procs h" "0 \<notin> set pids"
    and "\<And>pd p. pd \<in> set pids \<Longrightarrow> find_proc h pd = Some p \<Longrightarrow>
      runner_pid_identity h pd u = Matches \<and> \<not> unkillable p"
  shows "\<forall>pd \<in> set pids. find_proc (fold (kill_validated u) pids h) pd = None"
  using assms
proof (induction pids arbitrary: h)
  case (Cons x xs)
  let ?h = "kill_validated u x h"
  have few: "fewer_procs h ?h" by (rule frame)
  have wf: "wf_procs ?h" by (rule fewer_procs_wf [OF few Cons.prems(1)])
  have x: "find_proc ?h x = None"
  proof (cases "find_proc h x")
    case None
    then show ?thesis using fewer_find [OF few Cons.prems(1), of x] by auto
  next
    case (Some p)
    then show ?thesis
      using Cons.prems(2) Cons.prems(3) [of x p] by (intro kill_validated_gone [OF Cons.prems(1)]) auto
  qed
  have ih: "\<forall>pd \<in> set xs. find_proc (fold (kill_validated u) xs ?h) pd = None"
  proof (rule Cons.IH [OF wf])
    show "0 \<notin> set xs" using Cons.prems(2) by simp
    fix pd p assume pd: "pd \<in> set xs" "find_proc ?h pd = Some p"
    then have f: "find_proc ?h pd = find_proc h pd" using fewer_find [OF few Cons.prems(1), of pd] by auto
    with pd Cons.prems(3) [of pd p] show "runner_pid_identity ?h pd u = Matches \<and> \<not> unkillable p"
      using identity_cong [OF f] by simp
  qed
  have "find_proc (fold (kill_validated u) xs ?h) x = None"
    using x fewer_find [OF fewer_kill_all_validated [of ?h u xs] wf, of x] by auto
  with ih show ?case by simp
qed simp

lemma wait_immediate: "runner_gone orc u known unc h \<Longrightarrow> wait_runner_exit orc u known unc n h = (True, h)"
  by (cases n) simp_all

text \<open>The state after the SIGKILL fallback, when every runner of the app can be killed.\<close>

lemma gone_after_kill:
  assumes wf: "wf_procs h2" and l: "proc_listable h2" and z: "find_proc h2 0 = None"
    and ident: "\<And>pd p. pd \<in> set (runner_pids_for_uuid h2 u) \<Longrightarrow> find_proc h2 pd = Some p \<Longrightarrow>
      runner_pid_identity h2 pd u = Matches \<and> \<not> unkillable p"
    and known: "set (runner_pids_for_uuid h2 u) \<subseteq> set known"
    and doubt: "\<And>pd. pd \<in> set known \<Longrightarrow> runner_pid_identity h2 pd u \<noteq> Unknown"
    and matches: "\<And>pd. runner_pid_identity h2 pd u = Matches \<Longrightarrow> pd \<in> set (runner_pids_for_uuid h2 u)"
    and sock: "\<And>e. listening h2 (control_sock_for orc u) = Some e \<Longrightarrow>
      ep_owner e \<in> set (runner_pids_for_uuid h2 u)"
    and live: "live = filter (\<lambda>pd. runner_identity_allows_sigkill (runner_pid_identity h2 pd u)) known"
  shows "runner_gone orc u known None (fold (kill_validated u) live h2)"
proof -
  let ?h = "fold (kill_validated u) live h2"
  have few: "fewer_procs h2 ?h" by (rule frame)
  have age: "ages h2 ?h" by (rule ages_fewer [OF few wf])
  have sub: "set live \<subseteq> set (runner_pids_for_uuid h2 u)"
    using matches by (auto simp: live runner_identity_allows_sigkill_def)
  have "find_proc h2 pd \<noteq> None" if "pd \<in> set (runner_pids_for_uuid h2 u)" for pd
    using that runner_pids_iff [OF wf] by auto
  then have "0 \<notin> set live" using z sub by blast
  moreover have "runner_pid_identity h2 pd u = Matches \<and> \<not> unkillable p"
    if "pd \<in> set live" "find_proc h2 pd = Some p" for pd p
    using that sub ident by blast
  ultimately have dead: "\<forall>pd \<in> set live. find_proc ?h pd = None"
    by (intro fold_kill_validated_gone [OF wf]) auto
  have run: "pd \<in> set live" if r: "pd \<in> set (runner_pids_for_uuid h2 u)" for pd
  proof -
    obtain p where "find_proc h2 pd = Some p" using r runner_pids_iff [OF wf, of pd u] by blast
    with ident r known show ?thesis by (auto simp: live runner_identity_allows_sigkill_def)
  qed
  have "runner_pids_for_uuid ?h u = []"
  proof (rule ccontr)
    assume "runner_pids_for_uuid ?h u \<noteq> []"
    then obtain pd where pd: "pd \<in> set (runner_pids_for_uuid ?h u)" by (cases "runner_pids_for_uuid ?h u") auto
    then have f: "find_proc ?h pd \<noteq> None" using runner_pids_iff age unfolding ages_def by fastforce
    with pd runner_pids_aged [OF wf age f] have "pd \<in> set live" using run by blast
    with dead f show False by auto
  qed
  moreover have "\<not> runner_pid_may_still_match ?h u pd" if pd: "pd \<in> set known" for pd
  proof (cases "find_proc ?h pd")
    case None
    then show ?thesis by (simp add: runner_pid_may_still_match_def identity_absent)
  next
    case (Some p)
    then have "pd \<notin> set live" using dead by auto
    with pd have "runner_pid_identity h2 pd u \<noteq> Matches"
      by (auto simp: live runner_identity_allows_sigkill_def)
    with doubt [OF pd] identity_aged [OF age, of pd u] Some show ?thesis
      by (simp add: runner_pid_may_still_match_def)
  qed
  moreover have "listening ?h (control_sock_for orc u) = None"
  proof (rule ccontr)
    assume "listening ?h (control_sock_for orc u) \<noteq> None"
    then obtain e where e: "listening ?h (control_sock_for orc u) = Some e" by auto
    from listening_aged [OF age e] sock have "ep_owner e \<in> set live" using run by blast
    with dead listening_aged [OF age e] show False by auto
  qed
  ultimately show ?thesis
    by (auto simp: runner_gone_def Let_def reachable_or_true_def socket_reachable_def list_ex_iff)
qed

end
