(* ===== verification/Spawn.thy ===== *)
theory Spawn
  imports Teardown WgPort
begin

text \<open>
  Starting a runner (\<open>src/src/orchestrator/spawn.rs\<close>, \<open>src/src/app_ula.rs\<close>, and the spawn
  specifications of \<open>src/src/orchestrator/mod.rs\<close>): the argument list and the environment of the
  process, the record written for it, and what happens when that record cannot be written.
\<close>

section \<open>The app's address\<close>

fun zero_span :: "nat \<Rightarrow> nat \<times> nat \<Rightarrow> nat \<times> nat \<Rightarrow> u16 list \<Rightarrow> nat \<times> nat" where
  "zero_span i cur best [] = best"
| "zero_span i cur best (s # ss) =
     (if s = 0 then
        let cur = (if snd cur = 0 then (i, 1) else (fst cur, snd cur + 1))
        in zero_span (i + 1) cur (if snd best < snd cur then cur else best) ss
      else zero_span (i + 1) (0, 0) best ss)"

fun join_colon :: "string list \<Rightarrow> string" where
  "join_colon [] = []"
| "join_colon [s] = s"
| "join_colon (s # ss) = s @ '':'' @ join_colon ss"

text \<open>\<open>Display\<close> of an IPv6 address that is not IPv4-mapped: the first longest run of at least two zero
  groups is written \<open>::\<close>.\<close>

definition show_ipv6 :: "u16 list \<Rightarrow> string" where
  "show_ipv6 segs =
     (let (start, len) = zero_span 0 (0, 0) (0, 0) segs;
          grp = (\<lambda>ss. join_colon (map (\<lambda>s. show_hex (unat s)) ss))
      in if 1 < len then grp (take start segs) @ ''::'' @ grp (drop (start + len) segs) else grp segs)"

definition APP_ULA_PREFIX_HI :: u16 where "APP_ULA_PREFIX_HI = 0xfd5a"
definition APP_ULA_PREFIX_LO :: u16 where "APP_ULA_PREFIX_LO = 0x1f02"

definition u16_be :: "u8 \<Rightarrow> u8 \<Rightarrow> u16" where
  "u16_be a b = of_nat (256 * unat a + unat b)"

definition derive_app_ula :: "blake3 \<Rightarrow> string \<Rightarrow> u16 list" where
  "derive_app_ula hash bytes =
     (let b = hash bytes
      in [APP_ULA_PREFIX_HI, APP_ULA_PREFIX_LO, u16_be (b ! 0) (b ! 1), u16_be (b ! 2) (b ! 3),
          u16_be (b ! 4) (b ! 5), 0, 0, 1])"

section \<open>Specifications\<close>

record SpawnSpec =
  sp_runner_bin :: string
  sp_uuid :: string
  sp_control_sock :: string
  sp_s3_base_url :: string
  sp_data_dir :: string
  sp_parent :: "string option"
  sp_no_mesh :: bool
  sp_relay_url :: "string option"
  sp_relay_only :: bool
  sp_wg_listen_port :: "u16 option"
  sp_image_ref :: "string option"
  sp_network :: "string option"
  sp_runner_join_token :: "string option"
  sp_manifest_toml :: "string option"
  sp_extra_env :: "(string, string) mapping option"
  sp_egress_allow :: "string list option"

definition spawn_spec_for :: "SharedRunnerConfig \<Rightarrow> RunnerHandle \<Rightarrow> SpawnSpec" where
  "spawn_spec_for sh r =
     \<lparr>sp_runner_bin = sh_runner_bin sh, sp_uuid = uuid r, sp_control_sock = control_sock r,
      sp_s3_base_url = sh_s3_base_url sh, sp_data_dir = sh_data_dir sh, sp_parent = parent r,
      sp_no_mesh = sh_no_mesh sh, sp_relay_url = sh_relay_url sh, sp_relay_only = sh_relay_only sh,
      sp_wg_listen_port = wg_listen_port r, sp_image_ref = image_ref r, sp_network = network r,
      sp_runner_join_token = runner_join_token r, sp_manifest_toml = manifest_toml r,
      sp_extra_env = extra_env r, sp_egress_allow = egress_allow r\<rparr>"

definition flag_args :: "string \<Rightarrow> string option \<Rightarrow> string list" where
  "flag_args flag v = (case v of Some x \<Rightarrow> [flag, x] | None \<Rightarrow> [])"

definition build_args :: "SpawnSpec \<Rightarrow> string list" where
  "build_args spec =
     [''--uuid'', sp_uuid spec, ''--control-sock'', sp_control_sock spec,
      ''--s3-base-url'', sp_s3_base_url spec, ''--data-dir'', sp_data_dir spec] @
     (if sp_no_mesh spec then [''--no-mesh'', ''--bind'', ''127.0.0.1:0''] else []) @
     flag_args ''--parent'' (sp_parent spec) @
     flag_args ''--mesh-relay-url'' (sp_relay_url spec) @
     (if sp_relay_only spec then [''--mesh-relay-only''] else []) @
     flag_args ''--mesh-listen-port'' (map_option (\<lambda>p. show_dec (unat p)) (sp_wg_listen_port spec)) @
     flag_args ''--image-ref'' (sp_image_ref spec) @
     flag_args ''--network'' (sp_network spec)"

text \<open>\<open>Command::env\<close> and \<open>Command::env_remove\<close> on the inherited environment.\<close>

definition set_env :: "string \<Rightarrow> string option \<Rightarrow> (string \<times> string) list \<Rightarrow> (string \<times> string) list" where
  "set_env k v env = (case v of Some x \<Rightarrow> AList.update k x env | None \<Rightarrow> AList.delete k env)"

definition RUNNER_JOIN_TOKEN_ENV :: string where
  "RUNNER_JOIN_TOKEN_ENV = ''TABBIFY_RUNNER_JOIN_TOKEN''"

definition build_env :: "orch \<Rightarrow> SpawnSpec \<Rightarrow> (string \<times> string) list" where
  "build_env orc spec =
     set_env ''RUNNER_EGRESS_ALLOW'' (map_option (json_list orc) (sp_egress_allow spec))
       (set_env ''RUNNER_EXTRA_ENV'' (map_option (json_env orc) (sp_extra_env spec))
         (set_env ''RUNNER_MANIFEST_TOML'' (sp_manifest_toml spec)
           (set_env RUNNER_JOIN_TOKEN_ENV (sp_runner_join_token spec) (ambient orc))))"

section \<open>The runner's log\<close>

definition runner_log_path :: "string \<Rightarrow> string \<Rightarrow> string" where
  "runner_log_path d u = join_path (join_path d ''runners'') (u @ ''.log'')"

definition RUNNER_LOG_ROTATE_BYTES :: u64 where
  "RUNNER_LOG_ROTATE_BYTES = 50 * 1024 * 1024"

definition rotated_log_path :: "string \<Rightarrow> string" where
  "rotated_log_path p = p @ ''.1''"

definition rotate_if_oversized :: "string \<Rightarrow> u64 \<Rightarrow> host \<Rightarrow> host" where
  "rotate_if_oversized p max_bytes h =
     (case log_lens h p of
        None \<Rightarrow> h
      | Some n \<Rightarrow>
          if n < max_bytes then h
          else if log_rename_ok h
               then h\<lparr>log_lens := (log_lens h)(rotated_log_path p := Some n, p := None)\<rparr>
               else h\<lparr>log_lens := (log_lens h)(rotated_log_path p := None)\<rparr>)"

definition open_runner_log :: "string \<Rightarrow> string \<Rightarrow> host \<Rightarrow> host" where
  "open_runner_log d u h =
     (let p = runner_log_path d u;
          h' = rotate_if_oversized p RUNNER_LOG_ROTATE_BYTES h
      in h'\<lparr>log_lens := (log_lens h')(p := Some (case log_lens h' p of Some n \<Rightarrow> n | None \<Rightarrow> 0))\<rparr>)"

section \<open>Spawning\<close>

definition do_save :: "RunnerHandle \<Rightarrow> host \<Rightarrow> (io_error + unit) \<times> host" where
  "do_save r h =
     (let io = (case save_script h of [] \<Rightarrow> SaveOk | io # _ \<Rightarrow> io);
          (res, d) = save io r (records h)
      in (res, h\<lparr>records := d, save_script := tl (save_script h)\<rparr>))"

definition argv_bytes :: "string list \<Rightarrow> string" where
  "argv_bytes argv = concat (map (\<lambda>a. a @ [NUL]) argv)"

definition spawned_proc :: "orch \<Rightarrow> SpawnSpec \<Rightarrow> newborn \<Rightarrow> proc" where
  "spawned_proc orc spec nb =
     \<lparr>cmdline = Bytes (argv_bytes (sp_runner_bin spec # build_args spec)),
      environ = Bytes (argv_bytes (map (\<lambda>(k, v). k @ ''='' @ v) (build_env orc spec))),
      status_text = nb_status nb, waited = WRunning, signalable = True,
      unkillable = nb_unkillable nb, leaving = False, leaves_in = nb_leaves_in nb, in_scope = None\<rparr>"

definition persist_handle_or_reap ::
  "orch \<Rightarrow> RunnerHandle \<Rightarrow> host \<Rightarrow> (lifecycle_error + unit) \<times> host" where
  "persist_handle_or_reap orc r h =
     (let (res, h1) = do_save r h in
      case res of
        Inr _ \<Rightarrow> (Inr (), h1)
      | Inl _ \<Rightarrow>
          (let h2 = kill_pid (pid r) h1;
               (fc_complete, h3) = kill_fc_child_for_uuid orc (uuid r) (image_ref r) h2
           in if runner_is_alive h3 (pid r) \<or> runner_pids_for_uuid h3 (uuid r) \<noteq> [] \<or> \<not> fc_complete
              then (Inl CleanupIncomplete, h3)
              else (Inl RecordNotSaved, h3)))"

definition spawned_handle :: "orch \<Rightarrow> SpawnSpec \<Rightarrow> string \<Rightarrow> u32 \<Rightarrow> u64 \<Rightarrow> RunnerHandle" where
  "spawned_handle orc spec bytes pd now =
     \<lparr>uuid = sp_uuid spec, pid = pd, control_sock = sp_control_sock spec,
      app_ula = show_ipv6 (derive_app_ula (digest orc) bytes), parent = sp_parent spec,
      spawned_at = now, restart = default_RestartState, image_ref = sp_image_ref spec,
      requested_runtime = None, network = sp_network spec,
      runner_join_token = sp_runner_join_token spec, manifest_toml = sp_manifest_toml spec,
      extra_env = sp_extra_env spec, egress_allow = sp_egress_allow spec,
      crash_looped = False, stopped = False, wg_listen_port = sp_wg_listen_port spec\<rparr>"

text \<open>Executing a program fails when an argument or a variable holds a NUL byte.\<close>

definition has_nul :: "orch \<Rightarrow> SpawnSpec \<Rightarrow> bool" where
  "has_nul orc spec \<longleftrightarrow>
     list_ex (\<lambda>s. NUL \<in> set s) (sp_runner_bin spec # build_args spec) \<or>
     list_ex (\<lambda>(k, v). NUL \<in> set k \<or> NUL \<in> set v) (build_env orc spec)"

definition spawn_runner ::
  "orch \<Rightarrow> SpawnSpec \<Rightarrow> host \<Rightarrow> (lifecycle_error + RunnerHandle) \<times> host" where
  "spawn_runner orc spec h =
     (case parse_uuid orc (sp_uuid spec) of
        None \<Rightarrow> (Inl InvalidUuid, h)
      | Some bytes \<Rightarrow>
          (let h0 = open_runner_log (sp_data_dir spec) (sp_uuid spec) h in
           if has_nul orc spec then (Inl SpawnFailed, h0)
           else case births h0 of
             [] \<Rightarrow> (Inl SpawnFailed, h0)
           | NoExec # rest \<Rightarrow> (Inl SpawnFailed, h0\<lparr>births := rest\<rparr>)
           | NoPid # rest \<Rightarrow> (Inl SpawnFailed, h0\<lparr>births := rest\<rparr>)
           | Born nb # rest \<Rightarrow>
               (let h1 = h0\<lparr>births := rest, procs := procs h0 @ [(nb_pid nb, spawned_proc orc spec nb)]\<rparr>;
                    r = spawned_handle orc spec bytes (nb_pid nb) (clock h1);
                    (res, h2) = persist_handle_or_reap orc r h1
                in case res of Inl e \<Rightarrow> (Inl e, h2) | Inr _ \<Rightarrow> (Inr r, h2))))"

definition port_or_backfill :: "SpawnSpec \<Rightarrow> host \<Rightarrow> SpawnSpec" where
  "port_or_backfill spec h =
     (case sp_wg_listen_port spec of
        Some _ \<Rightarrow> spec
      | None \<Rightarrow> spec\<lparr>sp_wg_listen_port := port_for_runner (records h) (sp_uuid spec)\<rparr>)"

section \<open>Frame\<close>

lemma do_save_simps [simp]:
  "procs (snd (do_save r h)) = procs h" "births (snd (do_save r h)) = births h"
  "clock (snd (do_save r h)) = clock h" "proc_listable (snd (do_save r h)) = proc_listable h"
  "endpoints (snd (do_save r h)) = endpoints h" "pidfiles (snd (do_save r h)) = pidfiles h"
  "locked (snd (do_save r h)) = locked h" "deploying (snd (do_save r h)) = deploying h"
  "has_systemd (snd (do_save r h)) = has_systemd h" "taps (snd (do_save r h)) = taps h"
  "save_script (snd (do_save r h)) = tl (save_script h)"
  "present (records (snd (do_save r h))) = present (records h)"
  by (simp_all add: do_save_def Let_def case_prod_unfold)

lemma records_do_save:
  "records (snd (do_save r h)) =
     snd (save (case save_script h of [] \<Rightarrow> SaveOk | io # _ \<Rightarrow> io) r (records h))"
  by (simp add: do_save_def Let_def case_prod_unfold)

lemma load_do_save_other [simp]:
  "u \<noteq> uuid r \<Longrightarrow> load (records (snd (do_save r h))) u = load (records h) u"
  by (simp add: records_do_save)

lemma do_save_ok:
  "fst (do_save r h) = Inr () \<Longrightarrow> load (records (snd (do_save r h))) (uuid r) = Inr (Some r)"
  by (simp add: do_save_def Let_def case_prod_unfold load_save_ok)

lemma find_proc_do_save [simp]: "find_proc (snd (do_save r h)) pd = find_proc h pd"
  by (simp add: find_proc_def)

lemma identity_do_save [simp]:
  "runner_pid_identity (snd (do_save r h)) pd u = runner_pid_identity h pd u"
  by (rule identity_cong) (simp add: find_proc_def)

lemma runner_pids_do_save [simp]: "runner_pids_for_uuid (snd (do_save r h)) u = runner_pids_for_uuid h u"
  by (simp add: runner_pids_for_uuid_def)

lemma app_process_do_save [simp]:
  "app_process orc u img (snd (do_save r h)) e = app_process orc u img h e"
  by (simp add: app_process_def)

lemma open_log_simps [simp]:
  "procs (open_runner_log d u h) = procs h" "births (open_runner_log d u h) = births h"
  "clock (open_runner_log d u h) = clock h" "proc_listable (open_runner_log d u h) = proc_listable h"
  "endpoints (open_runner_log d u h) = endpoints h" "records (open_runner_log d u h) = records h"
  "save_script (open_runner_log d u h) = save_script h"
  by (auto simp: open_runner_log_def Let_def rotate_if_oversized_def split: option.splits)

section \<open>Pids of runners\<close>

lemma readable_append: "readable (ps @ qs) = readable ps @ readable qs"
  by (induction ps rule: readable.induct) (auto split: proc_file.splits)

lemma readable_filter_subset: "set (readable (filter Q ps)) \<subseteq> set (readable ps)"
  by (induction ps rule: readable.induct) (auto split: proc_file.splits)

lemma runner_pids_cong:
  "procs h = procs h' \<Longrightarrow> proc_listable h = proc_listable h' \<Longrightarrow>
     runner_pids_for_uuid h u = runner_pids_for_uuid h' u"
  by (simp add: runner_pids_for_uuid_def)

lemma set_runner_pids:
  "set (runner_pids_for_uuid h u) =
     (if proc_listable h
      then {pd. \<exists>cmd env. (pd, cmd, env) \<in> set (readable (procs h)) \<and>
                  process_bytes_match_runner_uuid cmd env u} else {})"
  by (force simp: runner_pids_for_uuid_def select_matching_runner_pids_def)

lemma fewer_runner_pids:
  assumes "fewer_procs h h'"
  shows "set (runner_pids_for_uuid h' u) \<subseteq> set (runner_pids_for_uuid h u)"
proof -
  obtain Q where "procs h' = filter Q (procs h)" using assms by (auto simp: fewer_procs_def)
  moreover have "proc_listable h' = proc_listable h"
    using only_procs_fields(1) fewer_procs_only assms by blast
  ultimately show ?thesis
    using readable_filter_subset [of Q "procs h"] unfolding set_runner_pids by auto
qed

lemma fewer_no_runner:
  "fewer_procs h h' \<Longrightarrow> runner_pids_for_uuid h u = [] \<Longrightarrow> runner_pids_for_uuid h' u = []"
  using fewer_runner_pids [of h h' u] by simp

lemma sort_Nil: "sort xs = [] \<longleftrightarrow> xs = []" for xs :: "'a::linorder list"
  by (metis length_0_conv length_sort)

lemma runner_pids_add:
  assumes "proc_listable h" "runner_pids_for_uuid h u = []"
    and "cmdline p = Bytes cmd" "environ p = Bytes env" "process_bytes_match_runner_uuid cmd env u"
  shows "runner_pids_for_uuid (h\<lparr>procs := procs h @ [(pd, p)]\<rparr>) u = [pd]"
proof -
  have "filter (\<lambda>(_, cmd, env). process_bytes_match_runner_uuid cmd env u) (readable (procs h)) = []"
    using assms(1,2)
    by (simp add: runner_pids_for_uuid_def select_matching_runner_pids_def sort_Nil)
  with assms show ?thesis
    by (simp add: runner_pids_for_uuid_def select_matching_runner_pids_def readable_append)
qed

section \<open>A spawned runner is recognised\<close>

lemma split_on_snoc: "c \<notin> set a \<Longrightarrow> split_on c (a @ c # b) = a # split_on c b"
  by (induction a) (auto split: list.splits)

lemma nul_tokens_argv:
  "\<not> list_ex (\<lambda>s. NUL \<in> set s) argv \<Longrightarrow> nul_tokens (argv_bytes argv) = filter (\<lambda>t. t \<noteq> []) argv"
  by (induction argv) (auto simp: nul_tokens_def argv_bytes_def split_on_snoc)

text \<open>The record of a runner that \<open>spawn_runner\<close> started names a process that the identity check
  recognises by its own argument list.\<close>

lemma spawned_argv_matches:
  assumes "\<not> has_nul orc spec" "last (split_on CHR ''/'' (sp_runner_bin spec)) = ''tabbify-runner''"
    and "sp_uuid spec \<noteq> []"
  shows "process_bytes_match_runner_uuid (argv_bytes (sp_runner_bin spec # build_args spec)) env (sp_uuid spec)"
proof -
  have "sp_runner_bin spec \<noteq> []" using assms(2) by auto
  then have "nul_tokens (argv_bytes (sp_runner_bin spec # build_args spec)) =
      sp_runner_bin spec # filter (\<lambda>t. t \<noteq> []) (build_args spec)"
    using assms(1) by (subst nul_tokens_argv) (auto simp: has_nul_def)
  with assms(2,3) show ?thesis
    by (simp add: process_bytes_match_runner_uuid_def cmdline_is_runner_def argv_has_exact_uuid_def
        build_args_def)
qed

section \<open>The outcome of a spawn\<close>

lemma persist_ok:
  "fst (persist_handle_or_reap orc r h) = Inr () \<Longrightarrow>
     fst (do_save r h) = Inr () \<and> snd (persist_handle_or_reap orc r h) = snd (do_save r h)"
  by (auto simp: persist_handle_or_reap_def Let_def case_prod_unfold split: sum.splits if_splits)

lemma spawn_runner_ok:
  assumes "fst (spawn_runner orc spec h) = Inr r"
  shows "\<exists>bytes nb rest. parse_uuid orc (sp_uuid spec) = Some bytes \<and> births h = Born nb # rest \<and>
    \<not> has_nul orc spec \<and> r = spawned_handle orc spec bytes (nb_pid nb) (clock h) \<and>
    procs (snd (spawn_runner orc spec h)) = procs h @ [(nb_pid nb, spawned_proc orc spec nb)] \<and>
    births (snd (spawn_runner orc spec h)) = rest \<and>
    proc_listable (snd (spawn_runner orc spec h)) = proc_listable h \<and>
    load (records (snd (spawn_runner orc spec h))) (sp_uuid spec) = Inr (Some r) \<and>
    (\<forall>u. u \<noteq> sp_uuid spec \<longrightarrow> load (records (snd (spawn_runner orc spec h))) u = load (records h) u) \<and>
    save_script (snd (spawn_runner orc spec h)) = tl (save_script h) \<and>
    present (records (snd (spawn_runner orc spec h))) = present (records h)"
proof -
  obtain bytes nb rest where b: "parse_uuid orc (sp_uuid spec) = Some bytes"
    "births (open_runner_log (sp_data_dir spec) (sp_uuid spec) h) = Born nb # rest" "\<not> has_nul orc spec"
    using assms by (auto simp: spawn_runner_def Let_def split: option.splits if_splits list.splits birth.splits)
  define h1 where "h1 = (open_runner_log (sp_data_dir spec) (sp_uuid spec) h)
    \<lparr>births := rest, procs := procs h @ [(nb_pid nb, spawned_proc orc spec nb)]\<rparr>"
  define r' where "r' = spawned_handle orc spec bytes (nb_pid nb) (clock h)"
  have s: "spawn_runner orc spec h = (case persist_handle_or_reap orc r' h1 of
      (Inl e, h2) \<Rightarrow> (Inl e, h2) | (Inr _, h2) \<Rightarrow> (Inr r', h2))"
    using b by (simp add: spawn_runner_def Let_def case_prod_unfold h1_def r'_def split: sum.splits)
  with assms have ok: "fst (persist_handle_or_reap orc r' h1) = Inr ()" "r = r'"
    by (auto split: prod.splits sum.splits)
  with s have res: "snd (spawn_runner orc spec h) = snd (do_save r' h1)"
    using persist_ok [OF ok(1)] by (auto split: prod.splits sum.splits)
  have u: "uuid r' = sp_uuid spec" by (simp add: r'_def spawned_handle_def)
  have "load (records (snd (do_save r' h1))) (sp_uuid spec) = Inr (Some r')"
    using do_save_ok [of r' h1] persist_ok [OF ok(1)] u by simp
  with b ok res u show ?thesis
    by (auto simp: h1_def r'_def load_do_save_other)
qed

lemma spawn_runner_succeeds:
  assumes "parse_uuid orc (sp_uuid spec) = Some bytes" "\<not> has_nul orc spec" "births h = Born nb # rest"
    and "present (records h)" "save_script h = []"
  shows "fst (spawn_runner orc spec h) = Inr (spawned_handle orc spec bytes (nb_pid nb) (clock h))"
proof -
  have ok: "fst (do_save r h') = Inr ()" if "present (records h')" "save_script h' = []" for r h'
    using that by (simp add: do_save_def save_def Let_def case_prod_unfold)
  have "fst (persist_handle_or_reap orc r h') = Inr ()"
    if "present (records h')" "save_script h' = []" for r h'
    using ok [OF that, of r] by (simp add: persist_handle_or_reap_def Let_def case_prod_unfold)
  with assms show ?thesis
    by (simp add: spawn_runner_def Let_def case_prod_unfold)
qed

lemma spawn_runner_frame:
  assumes "fst (spawn_runner orc spec h) = Inl e"
  shows "(\<forall>u. u \<noteq> sp_uuid spec \<longrightarrow> load (records (snd (spawn_runner orc spec h))) u = load (records h) u)"
proof -
  have kfc: "records (snd (kill_fc_child_for_uuid orc u img h)) = records h" for u img h
    using only_procs_fields(3) [OF fewer_procs_only [OF fewer_kill_fc]] .
  have kp: "records (kill_pid pd h) = records h" for pd h
    using only_procs_fields(3) [OF fewer_procs_only [OF fewer_kill_pid]] .
  have persist: "load (records (snd (persist_handle_or_reap orc r h))) u = load (records h) u"
    if "u \<noteq> uuid r" for r h u
    using that by (auto simp: persist_handle_or_reap_def Let_def case_prod_unfold kfc kp split: sum.splits)
  show ?thesis
    by (auto simp: spawn_runner_def Let_def case_prod_unfold persist spawned_handle_def
        split: option.splits list.splits birth.splits sum.splits)
qed

lemma load_spawn_other:
  "u \<noteq> sp_uuid spec \<Longrightarrow> load (records (snd (spawn_runner orc spec h))) u = load (records h) u"
proof (cases "fst (spawn_runner orc spec h)")
  case (Inl e)
  then show "u \<noteq> sp_uuid spec \<Longrightarrow> ?thesis" using spawn_runner_frame by blast
next
  case (Inr r)
  then show "u \<noteq> sp_uuid spec \<Longrightarrow> ?thesis" using spawn_runner_ok [OF Inr] by blast
qed

text \<open>A process of another app survives a spawn, successful or not.\<close>

lemma spawn_keeps_process:
  assumes "wf_procs h" "e \<in> set (procs h)" "\<not> leaving (snd e)"
    and "\<not> app_process orc (sp_uuid spec) (sp_image_ref spec) h e"
    and "\<forall>nb rest. births h = Born nb # rest \<longrightarrow> nb_pid nb \<notin> fst ` set (procs h)"
  shows "e \<in> set (procs (snd (spawn_runner orc spec h)))"
proof -
  have persist: "e \<in> set (procs (snd (persist_handle_or_reap orc r h')))"
    if wf: "wf_procs h'" and e: "e \<in> set (procs h')" "fst e \<noteq> pid r"
      and app: "\<not> app_process orc (uuid r) (image_ref r) h' e" for r h'
  proof (cases "fst (do_save r h')")
    case (Inr x)
    then show ?thesis using e by (simp add: persist_handle_or_reap_def Let_def case_prod_unfold)
  next
    case (Inl x)
    define h2 where "h2 = kill_pid (pid r) (snd (do_save r h'))"
    have few: "fewer_procs (snd (do_save r h')) h2" unfolding h2_def by (rule frame)
    have wf2: "wf_procs h2"
      by (rule fewer_procs_wf [OF few]) (use wf in \<open>simp add: wf_procs_def\<close>)
    have e2: "e \<in> set (procs h2)"
      unfolding h2_def kill_pid_def using e by (simp add: mem_remove_pid)
    have "\<not> app_process orc (uuid r) (image_ref r) h2 e"
      using app app_process_cong [of "snd (do_save r h')" h2 "fst e" "snd e" orc "uuid r" "image_ref r"]
        wf wf2 e e2 only_procs_fields(2) [OF fewer_procs_only [OF few]]
      by (simp add: wf_procs_def)
    then have "e \<in> set (procs (snd (kill_fc_child_for_uuid orc (uuid r) (image_ref r) h2)))"
      using spares_kill_fc [of orc "uuid r" "image_ref r" h2] wf2 e2 assms(3)
      by (simp add: spares_others_def)
    with Inl show ?thesis
      by (simp add: persist_handle_or_reap_def Let_def case_prod_unfold h2_def)
  qed
  show ?thesis
  proof (cases "parse_uuid orc (sp_uuid spec)")
    case None
    with assms(2) show ?thesis by (simp add: spawn_runner_def)
  next
    case (Some bytes)
    show ?thesis
    proof (cases "has_nul orc spec \<or> births h = [] \<or> hd (births h) = NoExec \<or> hd (births h) = NoPid")
      case True
      with Some assms(2) show ?thesis
        by (cases "births h") (auto simp: spawn_runner_def Let_def split: birth.splits)
    next
      case False
      then obtain nb rest where b: "births h = Born nb # rest" "\<not> has_nul orc spec"
        by (cases "births h"; cases "hd (births h)") auto
      define h1 where "h1 = (open_runner_log (sp_data_dir spec) (sp_uuid spec) h)
        \<lparr>births := rest, procs := procs h @ [(nb_pid nb, spawned_proc orc spec nb)]\<rparr>"
      define r where "r = spawned_handle orc spec bytes (nb_pid nb) (clock h)"
      have fresh: "nb_pid nb \<notin> fst ` set (procs h)" using assms(5) b by blast
      then have wf1: "wf_procs h1" using assms(1) by (simp add: h1_def wf_procs_def)
      have e1: "e \<in> set (procs h1)" using assms(2) by (simp add: h1_def)
      have "fst e \<noteq> nb_pid nb" using fresh imageI [OF assms(2), of fst] by metis
      moreover have "\<not> app_process orc (sp_uuid spec) (sp_image_ref spec) h1 e"
        using assms(4) app_process_cong [of h h1 "fst e" "snd e"] assms(1,2) wf1 e1
        by (simp add: h1_def)
      ultimately have "e \<in> set (procs (snd (persist_handle_or_reap orc r h1)))"
        by (intro persist [OF wf1 e1]) (simp_all add: r_def spawned_handle_def)
      moreover have "snd (spawn_runner orc spec h) = snd (persist_handle_or_reap orc r h1)"
        using Some b by (simp add: spawn_runner_def Let_def case_prod_unfold h1_def r_def split: sum.splits)
      ultimately show ?thesis by simp
    qed
  qed
qed

section \<open>A concrete orchestrator and host\<close>

definition demo_orch :: orch where
  "demo_orch = \<lparr>shared = \<lparr>sh_runner_bin = ''/bin/tabbify-runner'', sh_s3_base_url = ''s3'',
       sh_data_dir = ''/d'', sh_parent = None, sh_no_mesh = False, sh_relay_url = None,
       sh_relay_only = False\<rparr>,
     runner_dir = ''/r'', digest = (\<lambda>_. replicate 32 1),
     parse_uuid = (\<lambda>u. if u = [] then None else Some u), json_env = (\<lambda>_. ''e''),
     json_list = (\<lambda>_. ''l''), ambient = [(''TABBIFY_RUNNER_JOIN_TOKEN'', ''old'')]\<rparr>"

definition demo_host :: "birth list \<Rightarrow> rundir \<Rightarrow> host" where
  "demo_host bs d = \<lparr>procs = [], proc_listable = True, endpoints = (\<lambda>_. None), pidfiles = (\<lambda>_. None),
     has_systemd = False, stuck_scopes = [], taps = [], fs_dirs = (\<lambda>_. None), log_lens = (\<lambda>_. None),
     log_rename_ok = True, reap_polls = 3, records = d, save_script = [], births = bs, clock = 100,
     deploying = [], locked = [], pull_progress = []\<rparr>"

definition demo_born :: birth where
  "demo_born = Born \<lparr>nb_pid = 42, nb_status = None, nb_unkillable = False, nb_leaves_in = Some 1\<rparr>"

definition demo_record :: RunnerHandle where
  "demo_record = (demo_handle ''a'' (Some 51821))\<lparr>control_sock := ''/r/a.sock'',
     runner_join_token := Some ''jwt''\<rparr>"

section \<open>Properties\<close>

text \<open>C35: the credential and the other deploy-time values reach the runner only through its
  environment. Each of the four variables holds exactly the value of the specification, and an ambient
  value of the supervisor never leaks into a runner whose specification has none; the argument list
  is the same whatever they are.\<close>

theorem secrets_stay_off_the_argument_list:
  "map_of (build_env orc spec) ''TABBIFY_RUNNER_JOIN_TOKEN'' = sp_runner_join_token spec \<and>
   map_of (build_env orc spec) ''RUNNER_MANIFEST_TOML'' = sp_manifest_toml spec \<and>
   map_of (build_env orc spec) ''RUNNER_EXTRA_ENV'' = map_option (json_env orc) (sp_extra_env spec) \<and>
   map_of (build_env orc spec) ''RUNNER_EGRESS_ALLOW'' = map_option (json_list orc) (sp_egress_allow spec) \<and>
   build_args (spec\<lparr>sp_runner_join_token := t, sp_manifest_toml := m, sp_extra_env := x,
                    sp_egress_allow := l\<rparr>) = build_args spec"
proof -
  have set: "map_of (set_env k v env) = (map_of env)(k := v)" for k v env
    by (auto simp: set_env_def update_conv' delete_conv' split: option.splits)
  show ?thesis
    by (simp add: build_env_def set RUNNER_JOIN_TOKEN_ENV_def build_args_def)
qed



text \<open>C33: a definitive shutdown gets its way. If every process with the app's identity can be identified
  and killed, the control socket is silent or answers for the app, the recorded pid is not in doubt and
  only such processes listen on the socket, then the shutdown succeeds, whether the runner obeys the
  request, ignores it, or takes too long: the app's runners are gone and its socket is dead.\<close>

theorem definitive_shutdown_succeeds:
  assumes wf: "wf_procs h" and l: "proc_listable h" and z: "find_proc h 0 = None"
    and rec: "recovered_pids orc u h = Inr healthy"
    and doubt: "\<forall>pd \<in> set (recorded_pid # healthy). runner_pid_identity h pd u \<noteq> Unknown"
    and runners: "\<forall>pd \<in> set (runner_pids_for_uuid h u). runner_pid_identity h pd u = Matches \<and>
      (\<forall>p. find_proc h pd = Some p \<longrightarrow> \<not> unkillable p)"
    and sock: "\<forall>e. listening h (control_sock_for orc u) = Some e \<longrightarrow>
      ep_owner e \<in> set (runner_pids_for_uuid h u)"
  shows "fst (shutdown_runner_definitive orc u recorded_pid h) = Inr () \<and>
    runner_pids_for_uuid (snd (shutdown_runner_definitive orc u recorded_pid h)) u = [] \<and>
    socket_reachable (snd (shutdown_runner_definitive orc u recorded_pid h)) (control_sock_for orc u) = Inr False"
proof -
  define known where "known = remdups (healthy @
      (if runner_pid_identity h recorded_pid u = Matches then [recorded_pid] else []) @ runner_pids_for_uuid h u)"
  define h1 where "h1 = snd (shutdown_cmd h (control_sock_for orc u))"
  define w2 where "w2 = wait_runner_exit orc u known None (reap_polls h1) h1"
  define known' where "known' = remdups (known @ runner_pids_for_uuid (snd w2) u)"
  define live where "live = filter (\<lambda>pd. runner_identity_allows_sigkill (runner_pid_identity (snd w2) pd u)) known'"
  define h3 where "h3 = fold (kill_validated u) live (snd w2)"
  define w4 where "w4 = wait_runner_exit orc u known' None (reap_polls h3) h3"
  have res: "shutdown_runner_definitive orc u recorded_pid h =
      (if fst w2 then (Inr (), snd w2) else (if fst w4 then Inr () else Inl SurvivedShutdown, snd w4))"
    using doubt
    by (simp add: shutdown_runner_definitive_def rec Let_def case_prod_unfold known_def h1_def
        w2_def known'_def live_def h3_def w4_def)
  have "ages h h1" unfolding h1_def by (rule ages_shutdown_cmd [OF wf])
  moreover from this have "ages h1 (snd w2)" unfolding w2_def by (intro ages_wait) (simp add: ages_def)
  ultimately have age: "ages h (snd w2)" by (rule ages_trans)
  have wf2: "wf_procs (snd w2)" and l2: "proc_listable (snd w2)"
    using age l only_procs_fields(1) unfolding ages_def by blast+
  have found: "find_proc (snd w2) pd \<noteq> None \<Longrightarrow> find_proc h pd \<noteq> None" for pd
    using age unfolding ages_def by blast
  have match: "pd \<in> set (runner_pids_for_uuid h u)" if "runner_pid_identity h pd u = Matches" for pd
    using that unfolding runner_pids_iff [OF wf]
    by (auto simp: l runner_pid_identity_def runner_proc_def process_bytes_match_runner_uuid_def Let_def
        split: option.splits proc_file.splits if_splits)
  have "runner_gone orc u known' None h3"
    unfolding h3_def
  proof (rule gone_after_kill [OF wf2 l2 _ _ _ _ _ _ live_def])
    show "find_proc (snd w2) 0 = None" using found [of 0] z by (cases "find_proc (snd w2) 0") auto
    show "set (runner_pids_for_uuid (snd w2) u) \<subseteq> set known'" by (simp add: known'_def)
  next
    fix pd p assume pd: "pd \<in> set (runner_pids_for_uuid (snd w2) u)" "find_proc (snd w2) pd = Some p"
    then have f: "find_proc (snd w2) pd \<noteq> None" by simp
    obtain q where q: "find_proc h pd = Some q" "core p = core q" using age pd(2) unfolding ages_def by blast
    have "pd \<in> set (runner_pids_for_uuid h u)" using runner_pids_aged [OF wf age f] pd(1) by simp
    with runners q show "runner_pid_identity (snd w2) pd u = Matches \<and> \<not> unkillable p"
      using identity_aged [OF age f] core_fields(5) [OF q(2)] by auto
  next
    fix pd assume pd: "pd \<in> set known'"
    show "runner_pid_identity (snd w2) pd u \<noteq> Unknown"
    proof (cases "find_proc (snd w2) pd")
      case None
      then show ?thesis by (simp add: identity_absent)
    next
      case (Some p)
      then have f: "find_proc (snd w2) pd \<noteq> None" by simp
      have "pd \<in> set (recorded_pid # healthy) \<or> pd \<in> set (runner_pids_for_uuid h u)"
        using pd runner_pids_aged [OF wf age f, of u] by (auto simp: known'_def known_def split: if_splits)
      then have "runner_pid_identity h pd u \<noteq> Unknown" using doubt runners by auto
      then show ?thesis using identity_aged [OF age f] by simp
    qed
  next
    fix pd assume m: "runner_pid_identity (snd w2) pd u = Matches"
    then have f: "find_proc (snd w2) pd \<noteq> None" using identity_absent by fastforce
    then have "runner_pid_identity h pd u = Matches" using m identity_aged [OF age f] by simp
    then show "pd \<in> set (runner_pids_for_uuid (snd w2) u)"
      using match runner_pids_aged [OF wf age f] by blast
  next
    fix e assume e: "listening (snd w2) (control_sock_for orc u) = Some e"
    from listening_aged [OF age e] sock show "ep_owner e \<in> set (runner_pids_for_uuid (snd w2) u)"
      using runner_pids_aged [OF wf age] by blast
  qed
  then have "fst w4" by (simp add: w4_def wait_immediate)
  then have "fst (shutdown_runner_definitive orc u recorded_pid h) = Inr ()" by (simp add: res)
  with shutdown_confirmed [OF this] show ?thesis by blast
qed

definition demo_runner :: proc where
  "demo_runner = \<lparr>cmdline = Bytes (argv_bytes [''/bin/tabbify-runner'', ''--uuid'', ''a'']),
     environ = Bytes [], status_text = None, waited = WRunning, signalable = True, unkillable = False,
     leaving = False, leaves_in = None, in_scope = None\<rparr>"

definition demo_deaf :: endpoint where
  "demo_deaf = \<lparr>ep_owner = 7, ep_health = None, ep_delay = 0, ep_reply = (\<lambda>_. None), ep_obeys = False,
     ep_probe = ProbeConnects\<rparr>"

theorem definitive_shutdown_succeeds_witness:
  "fst (shutdown_runner_definitive demo_orch ''a'' 7 ((demo_host [] demo_dir)
     \<lparr>procs := [(7, demo_runner)], endpoints := (\<lambda>_. Some demo_deaf)\<rparr>)) = Inr ()"
proof -
  define h where "h = (demo_host [] demo_dir)\<lparr>procs := [(7, demo_runner)], endpoints := (\<lambda>_. Some demo_deaf)\<rparr>"
  have hs: "procs h = [(7, demo_runner)]" "proc_listable h" "endpoints h = (\<lambda>_. Some demo_deaf)"
    by (simp_all add: h_def demo_host_def)
  have fp: "find_proc h pd = (if pd = 7 then Some demo_runner else None)" for pd
    by (simp add: find_proc_def hs)
  have tok: "nul_tokens (argv_bytes [''/bin/tabbify-runner'', ''--uuid'', ''a'']) =
      [''/bin/tabbify-runner'', ''--uuid'', ''a'']"
    by (simp add: nul_tokens_argv NUL_def)
  have dr: "cmdline demo_runner = Bytes (argv_bytes [''/bin/tabbify-runner'', ''--uuid'', ''a''])"
    "environ demo_runner = Bytes []" "waited demo_runner = WRunning" "\<not> unkillable demo_runner"
    by (simp_all add: demo_runner_def)
  have m: "runner_pid_identity h 7 ''a'' = Matches"
    by (simp add: runner_pid_identity_def runner_is_alive_def fp dr tok Let_def cmdline_is_runner_def
        argv_has_exact_uuid_def)
  have wf: "wf_procs h" by (simp add: wf_procs_def hs)
  have pids: "set (runner_pids_for_uuid h ''a'') = {7}"
  proof -
    have "pd \<in> set (runner_pids_for_uuid h ''a'') \<longleftrightarrow> pd = 7" for pd
      unfolding runner_pids_iff [OF wf]
      by (simp add: hs fp runner_proc_def dr process_bytes_match_runner_uuid_def tok Let_def
          cmdline_is_runner_def argv_has_exact_uuid_def)
    then show ?thesis by auto
  qed
  have rec: "recovered_pids demo_orch ''a'' h = Inr []"
    by (simp add: recovered_pids_def health_with_timeout_def listening_def hs fp dr demo_deaf_def)
  have z: "find_proc h 0 = None" by (simp add: fp)
  have sock: "\<forall>e. listening h (control_sock_for demo_orch ''a'') = Some e \<longrightarrow>
      ep_owner e \<in> set (runner_pids_for_uuid h ''a'')"
    by (simp add: listening_def hs fp dr pids demo_deaf_def)
  show ?thesis
    using definitive_shutdown_succeeds [OF wf hs(2) z rec _ _ sock, of 7] m pids fp dr(4)
    by (simp add: h_def)
qed

end
