(* ===== verification/Monitor.thy ===== *)
theory Monitor
  imports Spawn
begin

text \<open>
  The health monitor (\<open>src/src/orchestrator/monitor.rs\<close>) and the startup re-adoption
  (\<open>src/src/orchestrator/mod.rs\<close>): one decision per durable record, made under the app's lifecycle
  lock on a freshly loaded record, and the sweep of Firecrackers without a record.
\<close>

section \<open>Pure decisions\<close>

definition SPAWN_GRACE :: u64 where "SPAWN_GRACE = 10"
definition CRASH_LOOP_PARK_THRESHOLD :: u32 where "CRASH_LOOP_PARK_THRESHOLD = 10"
definition PULL_GRACE_SECS :: u64 where "PULL_GRACE_SECS = 600"

datatype RecordOutcome = Adopted | Respawned | RespawnFailed | Backoff | CrashLooped | Busy | Missing

datatype HealthProbe = ProbeValid u32 "string option" | ProbeUnavailable | ProbeIdentityMismatch string

datatype BackoffAction = RespawnNow | Wait

definition backoff_action :: "RestartState \<Rightarrow> u64 \<Rightarrow> BackoffAction" where
  "backoff_action s now = (if should_respawn s now then RespawnNow else Wait)"

datatype PidDecision = RespawnDead | AdoptInGrace | CheckSocket

definition decide_pid_grace :: "u32 \<Rightarrow> u64 \<Rightarrow> u64 \<Rightarrow> (u32 \<Rightarrow> bool) \<Rightarrow> PidDecision" where
  "decide_pid_grace pd spawned now is_pid_alive =
     (if \<not> is_pid_alive pd then RespawnDead
      else if sat_sub now spawned < SPAWN_GRACE then AdoptInGrace
      else CheckSocket)"

section \<open>Progress of an image pull\<close>

definition native_pull_active :: "host \<Rightarrow> string \<Rightarrow> string \<Rightarrow> bool" where
  "native_pull_active h d u =
     (case fs_dirs h (pull_stage_dir d u) of
        Some (FsDir _) \<Rightarrow> True | Some FsUnreadableDir \<Rightarrow> True | _ \<Rightarrow> False)"

definition pull_in_progress :: "host \<Rightarrow> string \<Rightarrow> string \<Rightarrow> bool" where
  "pull_in_progress h d u \<longleftrightarrow> native_pull_active h d u \<or> pull_pids_for_uuid h d u \<noteq> []"

definition pull_stall_update ::
  "PullProgress option \<Rightarrow> u64 \<Rightarrow> u64 \<Rightarrow> u64 \<Rightarrow> PullProgress \<times> bool" where
  "pull_stall_update prev cur_bytes now stall =
     (case prev of
        Some p \<Rightarrow>
          if cur_bytes = pp_bytes p then (p, sat_sub now (pp_last_progress_secs p) < stall)
          else (\<lparr>pp_bytes = cur_bytes, pp_last_progress_secs = now\<rparr>, True)
      | None \<Rightarrow> (\<lparr>pp_bytes = cur_bytes, pp_last_progress_secs = now\<rparr>, True))"

fun node_bytes :: "fsnode \<Rightarrow> u64" where
  "node_bytes (FsFile n) = n"
| "node_bytes (FsDir es) = foldl (\<lambda>t e. sat_add t (node_bytes e)) 0 es"
| "node_bytes FsUnreadableDir = 0"
| "node_bytes FsOther = 0"
| "node_bytes FsNoMeta = 0"

definition dir_size_bytes :: "fsnode option \<Rightarrow> u64" where
  "dir_size_bytes n = (case n of Some (FsDir es) \<Rightarrow> node_bytes (FsDir es) | _ \<Rightarrow> 0)"

definition pull_deferral_active :: "orch \<Rightarrow> string \<Rightarrow> u64 \<Rightarrow> host \<Rightarrow> bool \<times> host" where
  "pull_deferral_active orc u now h =
     (if \<not> pull_in_progress h (data_dir orc) u
      then (False, h\<lparr>pull_progress := AList.delete u (pull_progress h)\<rparr>)
      else
        let cur = dir_size_bytes (fs_dirs h (pull_stage_dir (data_dir orc) u));
            (next, defer) = pull_stall_update (map_of (pull_progress h) u) cur now PULL_GRACE_SECS
        in (defer, h\<lparr>pull_progress := AList.update u next (pull_progress h)\<rparr>))"

section \<open>The sweep of record-less Firecrackers\<close>

definition BUILD_TAP_NAME :: string where "BUILD_TAP_NAME = ''fc-bld0''"
definition BUILD_SCOPE_ID_NAME :: string where "BUILD_SCOPE_ID_NAME = ''build0''"

definition build_fc_api_sock :: string where
  "build_fc_api_sock = ''/tmp/firecracker-'' @ BUILD_TAP_NAME @ ''.sock''"

definition live_fc_socket_set :: "orch \<Rightarrow> RunnerHandle list \<Rightarrow> bool \<Rightarrow> string set" where
  "live_fc_socket_set orc rs build =
     (\<Union>r \<in> set rs. expected_sockets orc (uuid r) (image_ref r)) \<union>
     (if build then {build_fc_api_sock} else {})"

definition fc_orphan_should_reap :: "string \<Rightarrow> bool \<Rightarrow> string set \<Rightarrow> bool" where
  "fc_orphan_should_reap sock parent_is_pid1 live \<longleftrightarrow> parent_is_pid1 \<and> sock \<notin> live"

fun parent_line :: "string list \<Rightarrow> u32 option" where
  "parent_line [] = None"
| "parent_line (l # ls) =
     (case strip_prefix ''PPid:'' l of
        Some rest \<Rightarrow> map_option of_nat (parse_uint (2 ^ 32 - 1) (trim rest))
      | None \<Rightarrow> parent_line ls)"

definition read_parent_pid :: "proc \<Rightarrow> u32 option" where
  "read_parent_pid p = Option.bind (status_text p) (\<lambda>t. parent_line (lines_of t))"

definition build_maybe_running :: "orch \<Rightarrow> host \<Rightarrow> bool" where
  "build_maybe_running orc h \<longleftrightarrow>
     pidfiles h (pidfile_path (data_dir orc) BUILD_SCOPE_ID_NAME) \<noteq> None \<or> deploying h \<noteq> []"

definition is_fc_orphan :: "string set \<Rightarrow> proc \<Rightarrow> bool" where
  "is_fc_orphan live p =
     (case cmdline p of
        Bytes cmd \<Rightarrow>
          (case parse_firecracker_api_sock cmd of
             None \<Rightarrow> False
           | Some sock \<Rightarrow> fc_orphan_should_reap sock (read_parent_pid p = Some 1) live)
      | _ \<Rightarrow> False)"

fun sweep_procs :: "string set \<Rightarrow> (u32 \<times> proc) list \<Rightarrow> nat \<Rightarrow> host \<Rightarrow> nat \<times> host" where
  "sweep_procs live [] n h = (n, h)"
| "sweep_procs live ((pd, p) # ps) n h =
     (if is_fc_orphan live p
      then sweep_procs live ps (n + 1) (kill_stale_if_alive pd (process_is_alive h) h)
      else sweep_procs live ps n h)"

definition sweep_orphan_fcs :: "orch \<Rightarrow> host \<Rightarrow> nat \<times> host" where
  "sweep_orphan_fcs orc h =
     (case list_records (records h) of
        Inl _ \<Rightarrow> (0, h)
      | Inr rs \<Rightarrow>
          if \<not> proc_listable h then (0, h)
          else sweep_procs (live_fc_socket_set orc rs (build_maybe_running orc h)) (procs h) 0 h)"

section \<open>Reconciling one record\<close>

definition load_runner_record :: "orch \<Rightarrow> host \<Rightarrow> string \<Rightarrow> lifecycle_error + RunnerHandle option" where
  "load_runner_record orc h u =
     (case load (records h) u of
        Inl _ \<Rightarrow> Inl RecordUnreadable
      | Inr None \<Rightarrow> Inr None
      | Inr (Some r) \<Rightarrow>
          (case parse_uuid orc u of
             None \<Rightarrow> Inl InvalidUuid
           | Some bytes \<Rightarrow>
               if uuid r \<noteq> u \<or> control_sock r \<noteq> control_sock_for orc u \<or>
                  app_ula r \<noteq> show_ipv6 (derive_app_ula (digest orc) bytes)
               then Inl RecordIdentityMismatch else Inr (Some r)))"

definition probe_runner_health :: "host \<Rightarrow> RunnerHandle \<Rightarrow> HealthProbe" where
  "probe_runner_health h r =
     (case health h (control_sock r) of
        Some (Health _ _ app_u pd img _ _) \<Rightarrow>
          if app_u = uuid r then ProbeValid pd img else ProbeIdentityMismatch app_u
      | _ \<Rightarrow> ProbeUnavailable)"

definition adopt_health ::
  "RunnerHandle \<Rightarrow> u32 \<Rightarrow> string option \<Rightarrow> u64 \<Rightarrow> host \<Rightarrow> RecordOutcome \<times> host" where
  "adopt_health r pd img now h =
     (let r1 = (if pd \<noteq> 0 then r\<lparr>pid := pd\<rparr> else r);
          r2 = (if img \<noteq> None then r1\<lparr>image_ref := img\<rparr> else r1);
          r3 = (if wg_listen_port r2 = None
                then r2\<lparr>wg_listen_port := port_for_runner (records h) (uuid r)\<rparr> else r2);
          r4 = r3\<lparr>restart := on_healthy (restart r) default_BackoffParams now\<rparr>
      in if r4 \<noteq> r
         then (case do_save r4 h of
                 (Inl _, h') \<Rightarrow> (RespawnFailed, h')
               | (Inr _, h') \<Rightarrow> (Adopted, h'))
         else (Adopted, h))"

definition persist_healthy_if_changed :: "RunnerHandle \<Rightarrow> u64 \<Rightarrow> host \<Rightarrow> host" where
  "persist_healthy_if_changed r now h =
     (let new_restart = on_healthy (restart r) default_BackoffParams now
      in if new_restart \<noteq> restart r then snd (do_save (r\<lparr>restart := new_restart\<rparr>) h) else h)"

definition do_respawn :: "orch \<Rightarrow> RunnerHandle \<Rightarrow> RestartState \<Rightarrow> host \<Rightarrow> RecordOutcome \<times> host" where
  "do_respawn orc r new_restart h =
     (let spec = port_or_backfill (spawn_spec_for (shared orc) r) h in
      case spawn_runner orc spec h of
        (Inr new_handle, h1) \<Rightarrow> (Respawned, snd (do_save (new_handle\<lparr>restart := new_restart\<rparr>) h1))
      | (Inl _, h1) \<Rightarrow> (RespawnFailed, snd (do_save (r\<lparr>restart := new_restart\<rparr>) h1)))"

definition park_runner :: "RunnerHandle \<Rightarrow> RestartState \<Rightarrow> host \<Rightarrow> RecordOutcome \<times> host" where
  "park_runner r new_restart h =
     (CrashLooped, snd (do_save (r\<lparr>restart := new_restart, crash_looped := True\<rparr>) h))"

definition reconcile_stopped :: "orch \<Rightarrow> RunnerHandle \<Rightarrow> host \<Rightarrow> RecordOutcome \<times> host" where
  "reconcile_stopped orc r h =
     (case shutdown_runner_definitive orc (uuid r) (pid r) h of
        (Inl _, h1) \<Rightarrow> (RespawnFailed, h1)
      | (Inr _, h1) \<Rightarrow>
          (let (complete, h2) = kill_fc_child_for_uuid orc (uuid r) (image_ref r) h1 in
           if \<not> complete then (RespawnFailed, h2)
           else if pid r \<noteq> 0
           then (case do_save (r\<lparr>pid := 0\<rparr>) h2 of
                   (Inl _, h3) \<Rightarrow> (RespawnFailed, h3)
                 | (Inr _, h3) \<Rightarrow> (CrashLooped, h3))
           else (CrashLooped, h2)))"

definition reconcile_dead ::
  "orch \<Rightarrow> RunnerHandle \<Rightarrow> RunnerHandle \<Rightarrow> u64 \<Rightarrow> host \<Rightarrow> RecordOutcome \<times> host" where
  "reconcile_dead orc r cur now h =
     (if backoff_action (restart r) now = Wait then (Backoff, h)
      else
        let new_restart = on_exit (restart r) default_BackoffParams now;
            (complete, h1) = kill_fc_child_for_uuid orc (uuid cur) (image_ref cur) h
        in if CRASH_LOOP_PARK_THRESHOLD \<le> consecutive_failures new_restart
           then (if \<not> complete then (RespawnFailed, h1) else park_runner cur new_restart h1)
           else (if \<not> complete then (RespawnFailed, h1) else do_respawn orc cur new_restart h1))"

definition reconcile_hung ::
  "orch \<Rightarrow> RunnerHandle \<Rightarrow> RunnerHandle \<Rightarrow> u64 \<Rightarrow> host \<Rightarrow> RecordOutcome \<times> host" where
  "reconcile_hung orc r cur now h =
     (if backoff_action (restart r) now = Wait then (Backoff, h)
      else
        let new_restart = on_exit (restart r) default_BackoffParams now in
        case shutdown_runner_definitive orc (uuid cur) (pid cur) h of
          (Inl _, h1) \<Rightarrow> (RespawnFailed, h1)
        | (Inr _, h1) \<Rightarrow>
            (let (complete, h2) = kill_fc_child_for_uuid orc (uuid cur) (image_ref cur) h1 in
             if \<not> complete then (RespawnFailed, h2)
             else if CRASH_LOOP_PARK_THRESHOLD \<le> consecutive_failures new_restart
             then park_runner cur new_restart h2
             else do_respawn orc cur new_restart h2))"

definition reconcile_alive ::
  "orch \<Rightarrow> RunnerHandle \<Rightarrow> RunnerHandle \<Rightarrow> u64 \<Rightarrow> host \<Rightarrow> RecordOutcome \<times> host" where
  "reconcile_alive orc r cur now h =
     (case probe_runner_health h cur of
        ProbeValid pd img \<Rightarrow> adopt_health cur pd img now h
      | ProbeIdentityMismatch _ \<Rightarrow> (RespawnFailed, h)
      | ProbeUnavailable \<Rightarrow>
          (let (defer, h1) = pull_deferral_active orc (uuid cur) now h in
           if defer then (Adopted, h1) else reconcile_hung orc r cur now h1))"

definition reconcile_decided ::
  "orch \<Rightarrow> RunnerHandle \<Rightarrow> RunnerHandle \<Rightarrow> RunnerPidIdentity \<Rightarrow> u64 \<Rightarrow> host \<Rightarrow> RecordOutcome \<times> host" where
  "reconcile_decided orc r cur ident now h =
     (case decide_pid_grace (pid cur) (spawned_at cur) now (\<lambda>_. ident = Matches) of
        RespawnDead \<Rightarrow> reconcile_dead orc r cur now h
      | AdoptInGrace \<Rightarrow> (Adopted, persist_healthy_if_changed cur now h)
      | CheckSocket \<Rightarrow> reconcile_alive orc r cur now h)"

definition reconcile_record_locked :: "orch \<Rightarrow> RunnerHandle \<Rightarrow> host \<Rightarrow> RecordOutcome \<times> host" where
  "reconcile_record_locked orc r h =
     (if stopped r then reconcile_stopped orc r h
      else if crash_looped r then (CrashLooped, h)
      else
        let now = clock h;
            ident = runner_pid_identity h (pid r) (uuid r)
        in if ident = Matches then reconcile_decided orc r r Matches now h
           else case probe_runner_health h r of
             ProbeValid pd img \<Rightarrow> adopt_health r pd img now h
           | ProbeIdentityMismatch _ \<Rightarrow> (RespawnFailed, h)
           | ProbeUnavailable \<Rightarrow>
               (case runner_pids_for_uuid h (uuid r) of
                  [] \<Rightarrow> if ident = Unknown then (RespawnFailed, h)
                        else reconcile_decided orc r r ident now h
                | [pd] \<Rightarrow> reconcile_decided orc r (r\<lparr>pid := pd\<rparr>) Matches now h
                | _ \<Rightarrow> (RespawnFailed, h)))"

definition reconcile_record :: "orch \<Rightarrow> string \<Rightarrow> host \<Rightarrow> RecordOutcome \<times> host" where
  "reconcile_record orc u h =
     (if u \<in> set (locked h) then (Busy, h)
      else case load_runner_record orc h u of
        Inr (Some r) \<Rightarrow> reconcile_record_locked orc r h
      | Inr None \<Rightarrow> (Missing, h)
      | Inl _ \<Rightarrow> (RespawnFailed, h))"

section \<open>Passes over the fleet\<close>

fun reconcile_all :: "orch \<Rightarrow> RunnerHandle list \<Rightarrow> host \<Rightarrow> (string \<times> RecordOutcome) list \<times> host" where
  "reconcile_all orc [] h = ([], h)"
| "reconcile_all orc (r # rs) h =
     (let (out, h1) = reconcile_record orc (uuid r) h;
          (outs, h2) = reconcile_all orc rs h1
      in ((uuid r, out) # outs, h2))"

definition uuids_with :: "RecordOutcome \<Rightarrow> (string \<times> RecordOutcome) list \<Rightarrow> string list" where
  "uuids_with out outs = map fst (filter (\<lambda>(_, x). x = out) outs)"

definition tick :: "orch \<Rightarrow> host \<Rightarrow> (io_error + string list) \<times> host" where
  "tick orc h =
     (case list_records (records h) of
        Inl e \<Rightarrow> (Inl e, h)
      | Inr rs \<Rightarrow>
          (let (outs, h1) = reconcile_all orc rs h
           in (Inr (uuids_with Respawned outs), snd (sweep_orphan_fcs orc h1))))"

record ReadoptSummary =
  adopted :: "string list"
  respawned :: "string list"

text \<open>Re-adoption, with the number of adopted runners that still hold the shared default port.\<close>

definition readopt :: "orch \<Rightarrow> host \<Rightarrow> (io_error + ReadoptSummary \<times> nat) \<times> host" where
  "readopt orc h =
     (case list_records (records h) of
        Inl e \<Rightarrow> (Inl e, h)
      | Inr rs \<Rightarrow>
          (let arrived_portless = set (map uuid (filter (\<lambda>r. wg_listen_port r = None) rs));
               (outs, h1) = reconcile_all orc rs h;
               summary = \<lparr>adopted = uuids_with Adopted outs, respawned = uuids_with Respawned outs\<rparr>;
               pending = length (filter (\<lambda>u. u \<in> arrived_portless) (adopted summary))
           in (Inr (summary, pending), snd (sweep_orphan_fcs orc h1))))"

text \<open>The monitor loop: re-adopt, then tick after every interval; \<open>world\<close> is what happens to the host
  before each of them. Errors of a pass are logged and the loop goes on.\<close>

fun run_monitor :: "orch \<Rightarrow> (nat \<Rightarrow> host \<Rightarrow> host) \<Rightarrow> nat \<Rightarrow> host \<Rightarrow> host" where
  "run_monitor orc world 0 h = snd (readopt orc (world 0 h))"
| "run_monitor orc world (Suc n) h = snd (tick orc (world (Suc n) (run_monitor orc world n h)))"

section \<open>Frame of a reconciliation\<close>

lemma records_shutdown: "records (snd (shutdown_runner_definitive orc u pd h)) = records h"
  "births (snd (shutdown_runner_definitive orc u pd h)) = births h"
  "clock (snd (shutdown_runner_definitive orc u pd h)) = clock h"
  "proc_listable (snd (shutdown_runner_definitive orc u pd h)) = proc_listable h"
  "save_script (snd (shutdown_runner_definitive orc u pd h)) = save_script h"
  by (simp_all add: only_procs_fields [OF only_shutdown])

lemma records_kill_fc: "records (snd (kill_fc_child_for_uuid orc u img h)) = records h"
  "births (snd (kill_fc_child_for_uuid orc u img h)) = births h"
  "clock (snd (kill_fc_child_for_uuid orc u img h)) = clock h"
  "proc_listable (snd (kill_fc_child_for_uuid orc u img h)) = proc_listable h"
  "save_script (snd (kill_fc_child_for_uuid orc u img h)) = save_script h"
  by (simp_all add: only_procs_fields [OF fewer_procs_only [OF fewer_kill_fc]])

lemmas frame_simps = records_shutdown records_kill_fc

lemma deferral_simps [simp]:
  "procs (snd (pull_deferral_active orc u now h)) = procs h"
  "records (snd (pull_deferral_active orc u now h)) = records h"
  "births (snd (pull_deferral_active orc u now h)) = births h"
  "clock (snd (pull_deferral_active orc u now h)) = clock h"
  "endpoints (snd (pull_deferral_active orc u now h)) = endpoints h"
  "proc_listable (snd (pull_deferral_active orc u now h)) = proc_listable h"
  "save_script (snd (pull_deferral_active orc u now h)) = save_script h"
  by (simp_all add: pull_deferral_active_def Let_def case_prod_unfold)

lemma spares_deferral [frame]: "spares_others orc u img h (snd (pull_deferral_active orc' v now h))"
  by (simp add: spares_others_def wf_procs_def)

lemma spares_do_save [frame]: "spares_others orc u img h (snd (do_save r h))"
  by (simp add: spares_others_def wf_procs_def)

lemma uuid_spec [simp]: "sp_uuid (port_or_backfill spec h) = sp_uuid spec"
  "sp_image_ref (port_or_backfill spec h) = sp_image_ref spec"
  "sp_runner_bin (port_or_backfill spec h) = sp_runner_bin spec"
  by (simp_all add: port_or_backfill_def split: option.splits)

lemma spec_for_simps [simp]: "sp_uuid (spawn_spec_for sh r) = uuid r"
  "sp_image_ref (spawn_spec_for sh r) = image_ref r"
  "sp_runner_bin (spawn_spec_for sh r) = sh_runner_bin sh"
  by (simp_all add: spawn_spec_for_def)

lemma load_do_respawn_other:
  assumes "v \<noteq> uuid r"
  shows "load (records (snd (do_respawn orc r s h))) v = load (records h) v"
proof -
  let ?spec = "port_or_backfill (spawn_spec_for (shared orc) r) h"
  have l: "load (records (snd (spawn_runner orc ?spec h))) v = load (records h) v"
    using load_spawn_other [of v ?spec orc h] assms by simp
  show ?thesis
  proof (cases "spawn_runner orc ?spec h")
    case (Pair res h1)
    show ?thesis
    proof (cases res)
      case (Inl e)
      with Pair l assms show ?thesis by (simp add: do_respawn_def Let_def)
    next
      case (Inr r')
      with Pair have "uuid r' = uuid r"
        using spawn_runner_ok [of orc ?spec h r'] by (auto simp: spawned_handle_def)
      with Pair Inr l assms show ?thesis by (simp add: do_respawn_def Let_def)
    qed
  qed
qed

text \<open>Where a reconciliation can end in a spawn: nothing of the app runs any more, the record is
  neither stopped nor parked, its retry window is open and its breaker has not tripped.\<close>

definition may_respawn :: "orch \<Rightarrow> RunnerHandle \<Rightarrow> RunnerHandle \<Rightarrow> host \<Rightarrow> host \<Rightarrow> bool" where
  "may_respawn orc r cur h h1 \<longleftrightarrow>
     \<not> stopped r \<and> \<not> crash_looped r \<and> cur = r\<lparr>pid := pid cur\<rparr> \<and>
     next_retry_at (restart r) \<le> clock h \<and>
     consecutive_failures (on_exit (restart r) default_BackoffParams (clock h)) < CRASH_LOOP_PARK_THRESHOLD \<and>
     runner_pids_for_uuid h1 (uuid r) = [] \<and> records h1 = records h \<and> births h1 = births h \<and>
     clock h1 = clock h \<and> proc_listable h1 = proc_listable h \<and> save_script h1 = save_script h \<and>
     spares_others orc (uuid r) (image_ref r) h h1"

text \<open>A reconciliation either ends in a respawn out of such a state or spawns nothing at all.\<close>

definition quiet :: "orch \<Rightarrow> RunnerHandle \<Rightarrow> host \<Rightarrow> RecordOutcome \<times> host \<Rightarrow> bool" where
  "quiet orc r h res \<longleftrightarrow>
     fst res \<noteq> Respawned \<and> births (snd res) = births h \<and>
     spares_others orc (uuid r) (image_ref r) h (snd res) \<and>
     (\<forall>v. v \<noteq> uuid r \<longrightarrow> load (records (snd res)) v = load (records h) v)"

lemma quietI:
  assumes "fst res \<noteq> Respawned" "births (snd res) = births h"
    "spares_others orc (uuid r) (image_ref r) h (snd res)"
    "\<And>v. v \<noteq> uuid r \<Longrightarrow> load (records (snd res)) v = load (records h) v"
  shows "quiet orc r h res"
  using assms by (simp add: quiet_def)

lemma quiet_same: "out \<noteq> Respawned \<Longrightarrow> quiet orc r h (out, h)"
  by (rule quietI) (simp_all add: frame)

lemma quiet_save: "out \<noteq> Respawned \<Longrightarrow> uuid r' = uuid r \<Longrightarrow> quiet orc r h (out, snd (do_save r' h))"
  by (rule quietI) (simp_all add: frame)

lemma quiet_after:
  assumes "quiet orc r h1 res" "spares_others orc (uuid r) (image_ref r) h h1"
    "births h1 = births h" "records h1 = records h"
  shows "quiet orc r h res"
  using assms by (auto simp: quiet_def intro: spares_trans)

definition adopted_record :: "RunnerHandle \<Rightarrow> u32 \<Rightarrow> string option \<Rightarrow> u64 \<Rightarrow> rundir \<Rightarrow> RunnerHandle" where
  "adopted_record r pd img now d =
     r\<lparr>pid := (if pd \<noteq> 0 then pd else pid r),
       image_ref := (if img \<noteq> None then img else image_ref r),
       wg_listen_port := (if wg_listen_port r = None then port_for_runner d (uuid r) else wg_listen_port r),
       restart := on_healthy (restart r) default_BackoffParams now\<rparr>"

lemma adopt_health_eq:
  "adopt_health r pd img now h =
     (let r' = adopted_record r pd img now (records h)
      in if r' \<noteq> r
         then (if fst (do_save r' h) = Inr () then Adopted else RespawnFailed, snd (do_save r' h))
         else (Adopted, h))"
proof -
  have eq: "(let r1 = (if pd \<noteq> 0 then r\<lparr>pid := pd\<rparr> else r);
          r2 = (if img \<noteq> None then r1\<lparr>image_ref := img\<rparr> else r1);
          r3 = (if wg_listen_port r2 = None
                then r2\<lparr>wg_listen_port := port_for_runner (records h) (uuid r)\<rparr> else r2)
      in r3\<lparr>restart := on_healthy (restart r) default_BackoffParams now\<rparr>) =
      adopted_record r pd img now (records h)"
    by (cases r) (simp add: adopted_record_def Let_def)
  show ?thesis
    unfolding adopt_health_def Let_def eq [unfolded Let_def]
    by (simp add: case_prod_unfold split: sum.splits)
qed

lemma quiet_adopt: "quiet orc r h (adopt_health r pd img now h)"
  using quiet_save [of _ "adopted_record r pd img now (records h)" r orc h]
  by (simp add: adopt_health_eq Let_def quiet_same adopted_record_def)

lemma same_but_pid: "cur = r\<lparr>pid := pid cur\<rparr> \<Longrightarrow> uuid cur = uuid r \<and> image_ref cur = image_ref r"
  by (cases cur; cases r) simp

definition settled :: "orch \<Rightarrow> RunnerHandle \<Rightarrow> host \<Rightarrow> RecordOutcome \<times> host \<Rightarrow> bool" where
  "settled orc r h res \<longleftrightarrow> quiet orc r h res \<or>
     (\<exists>cur h1. may_respawn orc r cur h h1 \<and>
        res = do_respawn orc cur (on_exit (restart r) default_BackoffParams (clock h)) h1)"

lemma settled_quiet: "quiet orc r h res \<Longrightarrow> settled orc r h res"
  by (simp add: settled_def)

lemma settled_after:
  assumes "settled orc r h1 res" "spares_others orc (uuid r) (image_ref r) h h1"
    "births h1 = births h" "records h1 = records h" "clock h1 = clock h" "proc_listable h1 = proc_listable h"
    "save_script h1 = save_script h"
  shows "settled orc r h res"
proof (cases "quiet orc r h1 res")
  case True
  show ?thesis by (rule settled_quiet [OF quiet_after [OF True assms(2-4)]])
next
  case False
  with assms(1) obtain cur h2 where c: "may_respawn orc r cur h1 h2"
    "res = do_respawn orc cur (on_exit (restart r) default_BackoffParams (clock h1)) h2"
    by (auto simp: settled_def)
  with assms have "may_respawn orc r cur h h2"
    by (auto simp: may_respawn_def intro: spares_trans)
  with c(2) assms(5) show ?thesis unfolding settled_def by (intro disjI2 exI conjI) simp_all
qed

text \<open>The part both kinds of respawn share: tear the Firecracker down, then park or spawn.\<close>

lemma settled_respawn:
  assumes cur: "cur = r\<lparr>pid := pid cur\<rparr>" "\<not> stopped r" "\<not> crash_looped r"
    "next_retry_at (restart r) \<le> clock h" "runner_pids_for_uuid h (uuid r) = []"
    and s: "s = on_exit (restart r) default_BackoffParams (clock h)"
    and k: "k = kill_fc_child_for_uuid orc (uuid cur) (image_ref cur) h"
  shows "settled orc r h (if \<not> fst k then (RespawnFailed, snd k)
     else if CRASH_LOOP_PARK_THRESHOLD \<le> consecutive_failures s then park_runner cur s (snd k)
     else do_respawn orc cur s (snd k))"
proof -
  have u: "uuid cur = uuid r" "image_ref cur = image_ref r"
    using same_but_pid [OF cur(1)] by simp_all
  have sp: "spares_others orc (uuid r) (image_ref r) h (snd k)"
    unfolding k u by (rule frame)
  have env: "births (snd k) = births h" "records (snd k) = records h" "clock (snd k) = clock h"
    "proc_listable (snd k) = proc_listable h" "save_script (snd k) = save_script h"
    unfolding k by (simp_all add: frame_simps)
  have none: "runner_pids_for_uuid (snd k) (uuid r) = []"
    unfolding k by (rule fewer_no_runner [OF fewer_kill_fc cur(5)])
  consider "\<not> fst k" | "fst k" "CRASH_LOOP_PARK_THRESHOLD \<le> consecutive_failures s"
    | "fst k" "consecutive_failures s < CRASH_LOOP_PARK_THRESHOLD"
    by (meson not_le)
  then show ?thesis
  proof cases
    case 1
    then show ?thesis by (simp add: settled_quiet quiet_after [OF quiet_same sp] env)
  next
    case 2
    then show ?thesis
      by (simp add: park_runner_def settled_quiet quiet_after [OF quiet_save sp] env u)
  next
    case 3
    then have "may_respawn orc r cur h (snd k)"
      using cur s sp env none by (simp add: may_respawn_def)
    moreover have "\<not> CRASH_LOOP_PARK_THRESHOLD \<le> consecutive_failures s" using 3 by (simp add: not_le)
    ultimately show ?thesis using 3 unfolding settled_def s [symmetric] by auto
  qed
qed

lemma settled_dead:
  assumes "cur = r\<lparr>pid := pid cur\<rparr>" "\<not> stopped r" "\<not> crash_looped r"
    "runner_pids_for_uuid h (uuid r) = []"
  shows "settled orc r h (reconcile_dead orc r cur (clock h) h)"
proof (cases "should_respawn (restart r) (clock h)")
  case True
  then have w: "next_retry_at (restart r) \<le> clock h" by (simp add: should_respawn_def)
  show ?thesis
    using settled_respawn [OF assms(1-3) w assms(4) refl refl, of orc] True
    by (cases "fst (kill_fc_child_for_uuid orc (uuid cur) (image_ref cur) h)")
      (auto simp: reconcile_dead_def backoff_action_def Let_def case_prod_unfold simp del: on_exit_simps
        split: if_splits)
next
  case False
  then show ?thesis by (simp add: reconcile_dead_def backoff_action_def settled_quiet quiet_same)
qed

lemma settled_hung:
  assumes "cur = r\<lparr>pid := pid cur\<rparr>" "\<not> stopped r" "\<not> crash_looped r"
  shows "settled orc r h (reconcile_hung orc r cur (clock h) h)"
proof (cases "should_respawn (restart r) (clock h)")
  case False
  then show ?thesis by (simp add: reconcile_hung_def backoff_action_def settled_quiet quiet_same)
next
  case True
  then have w: "next_retry_at (restart r) \<le> clock h" by (simp add: should_respawn_def)
  define k where "k = shutdown_runner_definitive orc (uuid cur) (pid cur) h"
  have u: "uuid cur = uuid r"
    using same_but_pid [OF assms(1)] by simp
  have sp: "spares_others orc (uuid r) (image_ref r) h (snd k)"
    unfolding k_def u by (rule frame)
  have env: "births (snd k) = births h" "records (snd k) = records h" "clock (snd k) = clock h"
    "proc_listable (snd k) = proc_listable h" "save_script (snd k) = save_script h"
    unfolding k_def by (simp_all add: frame_simps)
  show ?thesis
  proof (cases "fst k")
    case (Inl e)
    then have "reconcile_hung orc r cur (clock h) h = (RespawnFailed, snd k)"
      using True by (cases k) (simp add: reconcile_hung_def backoff_action_def Let_def k_def [symmetric])
    then show ?thesis by (simp add: settled_quiet quiet_after [OF quiet_same sp] env)
  next
    case (Inr x)
    then have "runner_pids_for_uuid (snd k) (uuid r) = []"
      unfolding k_def u by (intro shutdown_confirmed [THEN conjunct1]) simp
    from settled_respawn [OF assms _ this refl refl, where orc = orc] w env
    have "settled orc r (snd k) (reconcile_hung orc r cur (clock h) h)"
      using True Inr
      by (cases k) (auto simp: reconcile_hung_def backoff_action_def Let_def case_prod_unfold
          k_def [symmetric] simp del: on_exit_simps split: if_splits)
    then show ?thesis by (rule settled_after [OF _ sp env])
  qed
qed

lemma settled_alive:
  assumes "cur = r\<lparr>pid := pid cur\<rparr>" "\<not> stopped r" "\<not> crash_looped r"
  shows "settled orc r h (reconcile_alive orc r cur (clock h) h)"
proof -
  have u: "uuid cur = uuid r" "image_ref cur = image_ref r"
    using same_but_pid [OF assms(1)] by simp_all
  have adopt: "quiet orc r h (adopt_health cur pd img (clock h) h)" for pd img
    using quiet_adopt [of orc cur h pd img "clock h"] u by (simp add: quiet_def)
  define k where "k = pull_deferral_active orc (uuid cur) (clock h) h"
  have env: "births (snd k) = births h" "records (snd k) = records h" "clock (snd k) = clock h"
    "proc_listable (snd k) = proc_listable h" "save_script (snd k) = save_script h"
    "spares_others orc (uuid r) (image_ref r) h (snd k)"
    unfolding k_def by (simp_all add: frame)
  have deferred: "quiet orc r h (Adopted, snd k)"
    by (rule quiet_after [OF quiet_same]) (simp_all add: env)
  have hung: "settled orc r h (reconcile_hung orc r cur (clock h) (snd k))"
    using settled_hung [OF assms, of orc "snd k"] env
    by (intro settled_after [OF _ env(6) env(1) env(2) env(3) env(4) env(5)]) simp
  show ?thesis
    using deferred hung adopt
    by (auto simp: reconcile_alive_def Let_def case_prod_unfold k_def [symmetric] settled_quiet quiet_same
        split: HealthProbe.split)
qed

lemma settled_decided:
  assumes "cur = r\<lparr>pid := pid cur\<rparr>" "\<not> stopped r" "\<not> crash_looped r"
    and "ident \<noteq> Matches \<Longrightarrow> runner_pids_for_uuid h (uuid r) = []"
  shows "settled orc r h (reconcile_decided orc r cur ident (clock h) h)"
proof -
  have u: "uuid cur = uuid r"
    using same_but_pid [OF assms(1)] by simp
  have grace: "quiet orc r h (Adopted, persist_healthy_if_changed cur (clock h) h)"
    using u by (simp add: persist_healthy_if_changed_def Let_def quiet_same quiet_save)
  show ?thesis
    using settled_dead [OF assms(1-3), of h orc] settled_alive [OF assms(1-3), of orc h] assms(4) grace
    by (auto simp: reconcile_decided_def decide_pid_grace_def settled_quiet split: PidDecision.split)
qed

lemma quiet_stopped: "quiet orc r h (reconcile_stopped orc r h)"
proof -
  define k where "k = shutdown_runner_definitive orc (uuid r) (pid r) h"
  define f where "f = kill_fc_child_for_uuid orc (uuid r) (image_ref r) (snd k)"
  have s1: "spares_others orc (uuid r) (image_ref r) h (snd k)"
    and s2: "spares_others orc (uuid r) (image_ref r) (snd k) (snd f)"
    unfolding k_def f_def by (rule frame)+
  have sp: "spares_others orc (uuid r) (image_ref r) h (snd f)" by (rule spares_trans [OF s1 s2])
  have env: "births (snd k) = births h" "records (snd k) = records h"
    "births (snd f) = births h" "records (snd f) = records h"
    unfolding f_def k_def by (simp_all add: frame_simps)
  have a: "quiet orc r h (out, snd k)" if "out \<noteq> Respawned" for out
    using that by (intro quiet_after [OF quiet_same s1]) (simp_all add: env)
  have b: "quiet orc r h (out, snd f)" if "out \<noteq> Respawned" for out
    using that by (intro quiet_after [OF quiet_same sp]) (simp_all add: env)
  have c: "quiet orc r h (out, snd (do_save (r\<lparr>pid := 0\<rparr>) (snd f)))" if "out \<noteq> Respawned" for out
    using that by (intro quiet_after [OF quiet_save sp]) (simp_all add: env)
  have "reconcile_stopped orc r h =
    (if \<exists>e. fst k = Inl e then (RespawnFailed, snd k)
     else if \<not> fst f then (RespawnFailed, snd f)
     else if pid r \<noteq> 0
     then (if fst (do_save (r\<lparr>pid := 0\<rparr>) (snd f)) = Inr () then CrashLooped else RespawnFailed,
           snd (do_save (r\<lparr>pid := 0\<rparr>) (snd f)))
     else (CrashLooped, snd f))"
    by (simp add: reconcile_stopped_def k_def [symmetric] f_def [symmetric] case_prod_unfold Let_def
        split: sum.splits)
  with a b c show ?thesis by simp
qed

lemma reconcile_settled: "settled orc r h (reconcile_record_locked orc r h)"
proof -
  consider "stopped r" | "\<not> stopped r" "crash_looped r" | "\<not> stopped r" "\<not> crash_looped r" by blast
  then show ?thesis
  proof cases
    case 1
    then show ?thesis by (simp add: reconcile_record_locked_def settled_quiet quiet_stopped)
  next
    case 2
    then show ?thesis by (simp add: reconcile_record_locked_def settled_quiet quiet_same)
  next
    case 3
    have self: "r = r\<lparr>pid := pid r\<rparr>" by simp
    have other: "r\<lparr>pid := pd\<rparr> = r\<lparr>pid := pid (r\<lparr>pid := pd\<rparr>)\<rparr>" for pd by simp
    show ?thesis
      using 3 settled_decided [OF self 3, of Matches h orc]
        settled_decided [OF self 3, of "runner_pid_identity h (pid r) (uuid r)" h orc]
        settled_decided [OF other 3, of Matches h orc] quiet_adopt [of orc r h _ _ "clock h"]
      by (auto simp: reconcile_record_locked_def Let_def settled_quiet quiet_same
          split: HealthProbe.split list.split)
  qed
qed

section \<open>The sweep\<close>

lemma sweep_procs_frame: "fewer_procs h (snd (sweep_procs live ps n h))"
proof (induction live ps n h rule: sweep_procs.induct)
  case (2 live pd p ps n h)
  then show ?case by (auto intro: fewer_procs_trans [OF fewer_kill_stale])
qed (simp add: frame)

lemma sweep_procs_keeps:
  assumes "e \<in> set (procs h)" "\<And>p. (fst e, p) \<in> set ps \<Longrightarrow> \<not> is_fc_orphan live p"
  shows "e \<in> set (procs (snd (sweep_procs live ps n h)))"
  using assms
proof (induction live ps n h rule: sweep_procs.induct)
  case (2 live pd p ps n h)
  show ?case
  proof (cases "is_fc_orphan live p")
    case True
    with 2(4) have "fst e \<noteq> pd" by auto
    with 2(3) have "e \<in> set (procs (kill_stale_if_alive pd (process_is_alive h) h))"
      by (simp add: kill_stale_if_alive_def mem_remove_pid)
    with 2 True show ?thesis by auto
  next
    case False
    with 2 show ?thesis by auto
  qed
qed simp

lemma sweep_frame: "fewer_procs h (snd (sweep_orphan_fcs orc h))"
  by (auto simp: sweep_orphan_fcs_def sweep_procs_frame frame split: sum.splits)

lemma sweep_keeps:
  assumes wf: "wf_procs h" and e: "(pd, p) \<in> set (procs h)"
    and "\<And>rs. list_records (records h) = Inr rs \<Longrightarrow>
      \<not> is_fc_orphan (live_fc_socket_set orc rs (build_maybe_running orc h)) p"
  shows "(pd, p) \<in> set (procs (snd (sweep_orphan_fcs orc h)))"
proof -
  have same: "p' = p" if "(pd, p') \<in> set (procs h)" for p'
    using find_proc_mem [OF wf e] find_proc_mem [OF wf that] by simp
  have keep: "(pd, p) \<in> set (procs (snd (sweep_procs live (procs h) 0 h)))"
    if ok: "\<not> is_fc_orphan live p" for live
  proof (rule sweep_procs_keeps [OF e])
    show "\<not> is_fc_orphan live p'" if "(fst (pd, p), p') \<in> set (procs h)" for p'
      using ok same [of p'] that by simp
  qed
  show ?thesis
  proof (cases "list_records (records h)")
    case (Inl x)
    with e show ?thesis by (simp add: sweep_orphan_fcs_def)
  next
    case (Inr rs)
    from keep [OF assms(3) [OF this]] e show ?thesis by (simp add: sweep_orphan_fcs_def Inr)
  qed
qed

section \<open>Properties\<close>

text \<open>C26: kill before respawn. When a reconciliation respawns an app, exactly one process of the
  host afterwards carries the app's runner identity: the new one. Every earlier runner is gone, the one
  recorded, one that a stale record had lost, and a hung one alike. (\<open>/proc\<close> must be listable: the scan
  reads an unlistable \<open>/proc\<close> as no runner.)\<close>

theorem respawn_leaves_one_runner:
  assumes "fst (reconcile_record_locked orc r h) = Respawned" "proc_listable h" "uuid r \<noteq> []"
    and "last (split_on CHR ''/'' (sh_runner_bin (shared orc))) = ''tabbify-runner''"
  shows "\<exists>nb rest. births h = Born nb # rest \<and>
    runner_pids_for_uuid (snd (reconcile_record_locked orc r h)) (uuid r) = [nb_pid nb]"
proof -
  have "settled orc r h (reconcile_record_locked orc r h)" by (rule reconcile_settled)
  then obtain cur h1 where m: "may_respawn orc r cur h h1"
    and eq: "reconcile_record_locked orc r h =
      do_respawn orc cur (on_exit (restart r) default_BackoffParams (clock h)) h1"
    using assms(1) by (auto simp: settled_def quiet_def)
  have u: "uuid cur = uuid r" using m same_but_pid [of cur r] by (simp add: may_respawn_def)
  let ?spec = "port_or_backfill (spawn_spec_for (shared orc) cur) h1"
  obtain r' where ok: "fst (spawn_runner orc ?spec h1) = Inr r'"
    using assms(1) unfolding eq
    by (auto simp: do_respawn_def Let_def case_prod_unfold split: sum.splits prod.splits)
  from spawn_runner_ok [OF ok] obtain nb rest where nb: "births h1 = Born nb # rest" "\<not> has_nul orc ?spec"
    "procs (snd (spawn_runner orc ?spec h1)) = procs h1 @ [(nb_pid nb, spawned_proc orc ?spec nb)]"
    "proc_listable (snd (spawn_runner orc ?spec h1)) = proc_listable h1"
    by blast
  have "process_bytes_match_runner_uuid (argv_bytes (sp_runner_bin ?spec # build_args ?spec)) env (uuid r)" for env
    using spawned_argv_matches [OF nb(2)] assms(3,4) u by simp
  then have "runner_pids_for_uuid (h1\<lparr>procs := procs h1 @ [(nb_pid nb, spawned_proc orc ?spec nb)]\<rparr>) (uuid r)
      = [nb_pid nb]"
    using m assms(2) by (intro runner_pids_add) (auto simp: may_respawn_def spawned_proc_def)
  then have "runner_pids_for_uuid (snd (spawn_runner orc ?spec h1)) (uuid r) = [nb_pid nb]"
    using nb(3,4) by (subst runner_pids_cong [where h' = "h1\<lparr>procs := procs h1 @
      [(nb_pid nb, spawned_proc orc ?spec nb)]\<rparr>"]) simp_all
  moreover have "snd (reconcile_record_locked orc r h) =
      snd (do_save (r'\<lparr>restart := on_exit (restart r) default_BackoffParams (clock h)\<rparr>)
             (snd (spawn_runner orc ?spec h1)))"
    using ok unfolding eq do_respawn_def Let_def by (cases "spawn_runner orc ?spec h1") simp
  moreover have "births h = Born nb # rest" using nb(1) m by (simp add: may_respawn_def)
  ultimately show ?thesis by (intro exI [of _ nb] exI [of _ rest]) simp
qed

text \<open>C27: a reconciliation is confined to its app. Whatever its outcome, a process that is not the
  app's (not its runner, not a Firecracker on its sockets or in its scopes, not one of its image pulls, not
  the listener of its control socket) is still there unchanged, and no other app's record changes.\<close>

theorem reconcile_touches_only_its_app:
  assumes "wf_procs h" "e \<in> set (procs h)" "\<not> leaving (snd e)"
    and "\<not> app_process orc (uuid r) (image_ref r) h e"
    and "\<forall>nb rest. births h = Born nb # rest \<longrightarrow> nb_pid nb \<notin> fst ` set (procs h)"
    and "v \<noteq> uuid r"
  shows "e \<in> set (procs (snd (reconcile_record_locked orc r h))) \<and>
    load (records (snd (reconcile_record_locked orc r h))) v = load (records h) v"
proof (cases "quiet orc r h (reconcile_record_locked orc r h)")
  case True
  with assms show ?thesis by (simp add: quiet_def spares_others_def)
next
  case False
  then obtain cur h1 where m: "may_respawn orc r cur h h1"
    and eq: "reconcile_record_locked orc r h =
      do_respawn orc cur (on_exit (restart r) default_BackoffParams (clock h)) h1"
    using reconcile_settled [of orc r h] by (auto simp: settled_def)
  have u: "uuid cur = uuid r" "image_ref cur = image_ref r"
    using m same_but_pid [of cur r] by (simp_all add: may_respawn_def)
  have wf1: "wf_procs h1" and e1: "e \<in> set (procs h1)" and ep: "endpoints h1 = endpoints h"
    using m assms by (simp_all add: may_respawn_def spares_others_def)
  let ?spec = "port_or_backfill (spawn_spec_for (shared orc) cur) h1"
  have app: "\<not> app_process orc (uuid r) (image_ref r) h1 e"
    using app_process_cong [of h h1 "fst e" "snd e"] assms(1,2,4) wf1 e1 ep by simp
  have fresh: "nb_pid nb \<notin> fst ` set (procs h1)" if "births h1 = Born nb # rest" for nb rest
  proof -
    have "births h = Born nb # rest" using that m by (simp add: may_respawn_def)
    with assms(5) have "nb_pid nb \<notin> fst ` set (procs h)" by blast
    then show ?thesis using m by (auto simp: may_respawn_def spares_others_def)
  qed
  have "e \<in> set (procs (snd (spawn_runner orc ?spec h1)))"
    by (rule spawn_keeps_process [OF wf1 e1 assms(3)]) (use app u fresh in auto)
  then have "e \<in> set (procs (snd (do_respawn orc cur s h1)))" for s
    by (simp add: do_respawn_def Let_def case_prod_unfold split: sum.splits)
  moreover have "load (records (snd (do_respawn orc cur s h1))) v = load (records h) v" for s
    using load_do_respawn_other [of v cur orc s h1] assms(6) u m by (simp add: may_respawn_def)
  ultimately show ?thesis unfolding eq by simp
qed

lemma kill_fc_nothing:
  "procs h = [] \<Longrightarrow> pidfiles h = (\<lambda>_. None) \<Longrightarrow> \<not> has_systemd h \<Longrightarrow> taps h = [] \<Longrightarrow>
     kill_fc_child_for_uuid orc u img h = (True, h)"
proof -
  assume h: "procs h = []" "pidfiles h = (\<lambda>_. None)" "\<not> has_systemd h" "taps h = []"
  have scopes: "stop_scopes scs c h = (c, h)" for scs c
    using h by (induction scs) (simp_all add: stop_fc_scope_def)
  have same: "h\<lparr>taps := []\<rparr> = h" using h(4) by (cases h) simp
  have "fold delete_fc_tap ts h = h" for ts
    using h by (induction ts) (simp_all add: delete_fc_tap_def same)
  with h scopes show ?thesis
    by (simp add: kill_fc_child_for_uuid_def Let_def kill_pull_procs_for_uuid_def pull_pids_for_uuid_def
        kill_pidfile_process_def pidfile_read_def)
qed

lemma demo_nul: "\<not> has_nul demo_orch (spawn_spec_for (shared demo_orch) demo_record)"
  by (simp add: has_nul_def build_args_def build_env_def spawn_spec_for_def demo_orch_def demo_record_def
      demo_handle_def flag_args_def set_env_def NUL_def RUNNER_JOIN_TOKEN_ENV_def show_dec.simps
      digit_char_def char_of_def)

lemma demo_respawn:
  "fst (reconcile_record_locked demo_orch demo_record (demo_host [demo_born] demo_dir)) = Respawned"
proof -
  let ?h = "demo_host [demo_born] demo_dir"
  have hs: "procs ?h = []" "pidfiles ?h = (\<lambda>_. None)" "\<not> has_systemd ?h" "taps ?h = []"
    "clock ?h = 100" "births ?h = [demo_born]" "records ?h = demo_dir" "save_script ?h = []"
    "endpoints ?h = (\<lambda>_. None)" "proc_listable ?h"
    by (simp_all add: demo_host_def)
  have rs: "uuid demo_record = ''a''" "restart demo_record = default_RestartState"
    "\<not> stopped demo_record" "\<not> crash_looped demo_record" "wg_listen_port demo_record = Some 51821"
    by (simp_all add: demo_record_def demo_handle_def)
  have gone: "runner_pid_identity ?h pd u = Gone" for pd u
    by (simp add: runner_pid_identity_def runner_is_alive_def find_proc_def hs)
  have quiet: "probe_runner_health ?h demo_record = ProbeUnavailable"
    by (simp add: probe_runner_health_def health_def health_with_timeout_def listening_def hs)
  have none: "runner_pids_for_uuid ?h u = []" for u
    by (simp add: runner_pids_for_uuid_def select_matching_runner_pids_def hs)
  have spec: "port_or_backfill (spawn_spec_for (shared demo_orch) demo_record) ?h =
      spawn_spec_for (shared demo_orch) demo_record"
    by (simp add: port_or_backfill_def spawn_spec_for_def rs)
  have uu: "parse_uuid demo_orch ''a'' = Some ''a''" by (simp add: demo_orch_def)
  have born: "births ?h = Born \<lparr>nb_pid = 42, nb_status = None, nb_unkillable = False,
      nb_leaves_in = Some 1\<rparr> # []"
    using hs(6) by (simp only: demo_born_def)
  have "fst (spawn_runner demo_orch (spawn_spec_for (shared demo_orch) demo_record) ?h) =
      Inr (spawned_handle demo_orch (spawn_spec_for (shared demo_orch) demo_record) ''a'' 42 100)"
    using spawn_runner_succeeds [OF _ demo_nul born, of "''a''"] hs(7,8) uu
    by (simp add: rs hs(5)) (simp add: demo_dir_def)
  then have sp: "fst (do_respawn demo_orch demo_record s ?h) = Respawned" for s
    by (simp add: do_respawn_def Let_def spec case_prod_unfold)
  have win: "should_respawn default_RestartState 100"
    by (simp add: should_respawn_def default_RestartState_def)
  have few: "\<not> CRASH_LOOP_PARK_THRESHOLD \<le> sat_add (consecutive_failures default_RestartState) 1"
    by (simp add: CRASH_LOOP_PARK_THRESHOLD_def default_RestartState_def word_le_nat_alt wordnat)
  show ?thesis
    using sp kill_fc_nothing [OF hs(1-4)]
    by (simp add: reconcile_record_locked_def rs gone quiet none Let_def reconcile_decided_def
        decide_pid_grace_def reconcile_dead_def backoff_action_def win few hs(5))
qed

theorem respawn_leaves_one_runner_witness:
  "runner_pids_for_uuid (snd (reconcile_record_locked demo_orch demo_record
     (demo_host [demo_born] demo_dir))) ''a'' = [42]"
proof -
  have h: "proc_listable (demo_host [demo_born] demo_dir)" "uuid demo_record = ''a''"
    "last (split_on CHR ''/'' (sh_runner_bin (shared demo_orch))) = ''tabbify-runner''"
    "births (demo_host [demo_born] demo_dir) = [demo_born]"
    by (simp_all add: demo_host_def demo_record_def demo_handle_def demo_orch_def)
  show ?thesis
    using respawn_leaves_one_runner [OF demo_respawn] h by (auto simp: demo_born_def)
qed

definition demo_bystander :: proc where
  "demo_bystander = \<lparr>cmdline = Bytes ''sshd'', environ = Denied, status_text = None, waited = WNotChild,
     signalable = True, unkillable = False, leaving = False, leaves_in = None, in_scope = None\<rparr>"

theorem reconcile_touches_only_its_app_witness:
  "(9, demo_bystander) \<in> set (procs (snd (reconcile_record_locked demo_orch demo_record
     ((demo_host [demo_born] demo_dir)\<lparr>procs := [(9, demo_bystander)]\<rparr>))))"
proof -
  let ?h = "(demo_host [demo_born] demo_dir)\<lparr>procs := [(9, demo_bystander)]\<rparr>"
  have "parse_firecracker_api_sock ''sshd'' = None"
    by (simp add: parse_firecracker_api_sock_def nul_tokens_def path_file_name_def NUL_def)
  moreover have "\<not> cmdline_matches_pull ''sshd'' (pull_path_needle (data_dir demo_orch) ''a'')"
    by (simp add: cmdline_matches_pull_def pull_path_needle_def pull_stage_dir_def join_path_def
        data_dir_def demo_orch_def starts_with_def)
  moreover have "runner_pid_identity ?h 9 ''a'' \<noteq> Matches"
    by (simp add: runner_pid_identity_def runner_is_alive_def find_proc_def demo_bystander_def
        nul_tokens_def cmdline_is_runner_def NUL_def)
  ultimately have app: "\<not> app_process demo_orch (uuid demo_record) (image_ref demo_record) ?h (9, demo_bystander)"
    by (simp add: app_process_def is_pull_proc_def is_app_fc_def demo_bystander_def demo_record_def
        demo_handle_def demo_host_def)
  have "wf_procs ?h" "(9, demo_bystander) \<in> set (procs ?h)" "\<not> leaving (snd (9 :: u32, demo_bystander))"
    by (simp_all add: wf_procs_def demo_bystander_def)
  moreover have "\<forall>nb rest. births ?h = Born nb # rest \<longrightarrow> nb_pid nb \<notin> fst ` set (procs ?h)"
    by (simp add: demo_host_def demo_born_def)
  moreover have "''b'' \<noteq> uuid demo_record" by (simp add: demo_record_def demo_handle_def)
  ultimately show ?thesis
    using reconcile_touches_only_its_app [OF _ _ _ app] by blast
qed

text \<open>C28: a respawn obeys the policy and is charged to it. It happens only for a record that is neither
  stopped nor parked, whose retry time has come and whose failures, this one included, stay below the
  park threshold; and the record it leaves is the old one with the new pid, spawn time and address, a
  port if it had none, and one more failure with the next retry time (a fresh restart state only when the
  second save of the pair failed).\<close>

theorem respawn_is_charged:
  assumes "fst (reconcile_record_locked orc r h) = Respawned"
  shows "\<not> stopped r \<and> \<not> crash_looped r \<and> next_retry_at (restart r) \<le> clock h \<and>
    unat (consecutive_failures (restart r)) < 9 \<and>
    (\<exists>r'. load (records (snd (reconcile_record_locked orc r h))) (uuid r) = Inr (Some r') \<and>
      r' = r\<lparr>pid := pid r', app_ula := app_ula r', spawned_at := clock h, restart := restart r',
             requested_runtime := None, wg_listen_port := wg_listen_port r'\<rparr> \<and>
      (wg_listen_port r \<noteq> None \<longrightarrow> wg_listen_port r' = wg_listen_port r) \<and>
      restart r' \<in> {on_exit (restart r) default_BackoffParams (clock h), default_RestartState} \<and>
      (save_script h = [] \<longrightarrow> restart r' = on_exit (restart r) default_BackoffParams (clock h)))"
proof -
  obtain cur h1 where m: "may_respawn orc r cur h h1"
    and eq: "reconcile_record_locked orc r h =
      do_respawn orc cur (on_exit (restart r) default_BackoffParams (clock h)) h1"
    and script: "save_script h1 = save_script h"
    using reconcile_settled [of orc r h] assms by (auto simp: settled_def quiet_def may_respawn_def)
  let ?s = "on_exit (restart r) default_BackoffParams (clock h)"
  let ?spec = "port_or_backfill (spawn_spec_for (shared orc) cur) h1"
  obtain r1 where ok: "fst (spawn_runner orc ?spec h1) = Inr r1"
    using assms unfolding eq
    by (auto simp: do_respawn_def Let_def case_prod_unfold split: sum.splits prod.splits)
  define h2 where "h2 = snd (spawn_runner orc ?spec h1)"
  have cur: "cur = r\<lparr>pid := pid cur\<rparr>" using m by (simp add: may_respawn_def)
  have su: "sp_uuid ?spec = uuid r" using same_but_pid [OF cur] by simp
  obtain bytes and nb :: newborn where r1: "r1 = spawned_handle orc ?spec bytes (nb_pid nb) (clock h1)"
    and l1: "load (records h2) (uuid r) = Inr (Some r1)" and sc: "save_script h2 = tl (save_script h1)"
    using spawn_runner_ok [OF ok, folded h2_def, unfolded su] by blast
  have pr: "present (records h2)" using l1 by (simp add: load_def split: if_splits)
  have intent: "r1 = r\<lparr>pid := pid r1, app_ula := app_ula r1, spawned_at := clock h,
      restart := default_RestartState, requested_runtime := None, crash_looped := False, stopped := False,
      wg_listen_port := wg_listen_port r1\<rparr>"
    "wg_listen_port r \<noteq> None \<longrightarrow> wg_listen_port r1 = wg_listen_port r"
    using m cur unfolding r1 may_respawn_def
    by (cases r; cases cur; auto simp: spawned_handle_def port_or_backfill_def spawn_spec_for_def
        split: option.splits)+
  have eq2: "snd (reconcile_record_locked orc r h) = snd (do_save (r1\<lparr>restart := ?s\<rparr>) h2)"
    using ok unfolding eq do_respawn_def Let_def h2_def by (cases "spawn_runner orc ?spec h1") simp
  have u1: "uuid r1 = uuid r" using arg_cong [OF intent(1), of uuid] by simp
  have fin: "load (records (snd (do_save (r1\<lparr>restart := ?s\<rparr>) h2))) (uuid r) = Inr (Some (r1\<lparr>restart := ?s\<rparr>)) \<or>
     save_script h \<noteq> [] \<and> load (records (snd (do_save (r1\<lparr>restart := ?s\<rparr>) h2))) (uuid r) = Inr (Some r1)"
    using l1 pr sc script u1 store.get_put [of "records h2" "r1\<lparr>restart := ?s\<rparr>" "uuid r"]
    by (auto simp: records_do_save save_result split: list.splits)
  have flags: "\<not> stopped r" "\<not> crash_looped r" "next_retry_at (restart r) \<le> clock h"
    "sat_add (consecutive_failures (restart r)) 1 < CRASH_LOOP_PARK_THRESHOLD"
    using m by (simp_all add: may_respawn_def)
  have nine: "unat (consecutive_failures (restart r)) < 9"
    using flags(4) by (simp add: word_less_nat_alt wordnat CRASH_LOOP_PARK_THRESHOLD_def min_def split: if_splits)
  define r2 where "r2 = r1\<lparr>restart := ?s\<rparr>"
  have i1: "r1 = r\<lparr>pid := pid r1, app_ula := app_ula r1, spawned_at := clock h, restart := restart r1,
             requested_runtime := None, wg_listen_port := wg_listen_port r1\<rparr> \<and> restart r1 = default_RestartState"
    using intent(1) flags by (cases r; cases r1) simp
  then have i2: "r2 = r\<lparr>pid := pid r2, app_ula := app_ula r2, spawned_at := clock h, restart := restart r2,
             requested_runtime := None, wg_listen_port := wg_listen_port r2\<rparr>"
    unfolding r2_def by (cases r; cases r1) simp
  have w2: "wg_listen_port r2 = wg_listen_port r1" "restart r2 = ?s" by (simp_all add: r2_def)
  from fin show ?thesis
  proof
    assume "load (records (snd (do_save (r1\<lparr>restart := ?s\<rparr>) h2))) (uuid r) = Inr (Some (r1\<lparr>restart := ?s\<rparr>))"
    then show ?thesis
      using flags nine i2 w2 intent(2) unfolding eq2 r2_def [symmetric]
      by (intro conjI exI [of _ r2]) simp_all
  next
    assume "save_script h \<noteq> [] \<and>
      load (records (snd (do_save (r1\<lparr>restart := ?s\<rparr>) h2))) (uuid r) = Inr (Some r1)"
    then show ?thesis
      using flags nine i1 intent(2) unfolding eq2
      by (intro conjI exI [of _ r1]) (blast | simp)+
  qed
qed

theorem respawn_is_charged_witness:
  "\<exists>r'. load (records (snd (reconcile_record_locked demo_orch demo_record
      (demo_host [demo_born] demo_dir)))) ''a'' = Inr (Some r') \<and>
    restart r' = on_exit default_RestartState default_BackoffParams 100 \<and>
    runner_join_token r' = Some ''jwt''"
proof -
  have rs: "uuid demo_record = ''a''" "restart demo_record = default_RestartState"
    "runner_join_token demo_record = Some ''jwt''"
    by (simp_all add: demo_record_def demo_handle_def)
  have hs: "clock (demo_host [demo_born] demo_dir) = 100" "save_script (demo_host [demo_born] demo_dir) = []"
    by (simp_all add: demo_host_def)
  obtain r' where r': "load (records (snd (reconcile_record_locked demo_orch demo_record
      (demo_host [demo_born] demo_dir)))) ''a'' = Inr (Some r')"
    "r' = demo_record\<lparr>pid := pid r', app_ula := app_ula r', spawned_at := 100, restart := restart r',
             requested_runtime := None, wg_listen_port := wg_listen_port r'\<rparr>"
    "restart r' = on_exit default_RestartState default_BackoffParams 100"
    using respawn_is_charged [OF demo_respawn] unfolding rs hs by blast
  moreover have "runner_join_token r' = Some ''jwt''"
    using arg_cong [OF r'(2), of runner_join_token] rs(3) by simp
  ultimately show ?thesis by blast
qed


definition demo_stranger :: endpoint where
  "demo_stranger = \<lparr>ep_owner = 9,
     ep_health = Some (Health ''running'' ''ula'' ''other'' 9 None ''serving'' None), ep_delay = 0,
     ep_reply = (\<lambda>_. Some OkReply), ep_obeys = True, ep_probe = ProbeConnects\<rparr>"




lemma load_reconcile_other:
  assumes "v \<noteq> uuid r"
  shows "load (records (snd (reconcile_record_locked orc r h))) v = load (records h) v"
proof (cases "quiet orc r h (reconcile_record_locked orc r h)")
  case True
  with assms show ?thesis by (simp add: quiet_def)
next
  case False
  then obtain cur h1 s where m: "may_respawn orc r cur h h1"
    and eq: "reconcile_record_locked orc r h = do_respawn orc cur s h1"
    using reconcile_settled [of orc r h] by (auto simp: settled_def)
  have "uuid cur = uuid r" using m same_but_pid [of cur r] by (simp add: may_respawn_def)
  then show ?thesis
    using load_do_respawn_other [of v cur orc s h1] assms m unfolding eq by (simp add: may_respawn_def)
qed

definition parked :: "host \<Rightarrow> string \<Rightarrow> RunnerHandle \<Rightarrow> bool" where
  "parked h u r \<longleftrightarrow> load (records h) u = Inr (Some r) \<and> crash_looped r \<and> \<not> stopped r"

lemma parked_reconcile:
  assumes "parked h u r"
  shows "parked (snd (reconcile_record orc v h)) u r"
proof (cases "v \<in> set (locked h)")
  case True
  with assms show ?thesis by (simp add: reconcile_record_def)
next
  case False
  show ?thesis
  proof (cases "load_runner_record orc h v")
    case (Inl e)
    with False assms show ?thesis by (simp add: reconcile_record_def)
  next
    case (Inr x)
    show ?thesis
    proof (cases x)
      case None
      with False Inr assms show ?thesis by (simp add: reconcile_record_def)
    next
      case (Some r')
      with Inr have l: "load (records h) v = Inr (Some r')" "uuid r' = v"
        by (auto simp: load_runner_record_def split: sum.splits option.splits if_splits)
      show ?thesis
      proof (cases "v = u")
        case True
        with l assms have "r' = r" by (simp add: parked_def)
        with assms have "reconcile_record_locked orc r' h = (CrashLooped, h)"
          by (simp add: parked_def reconcile_record_locked_def)
        with False Inr Some assms show ?thesis by (simp add: reconcile_record_def)
      next
        case neq: False
        with l have "u \<noteq> uuid r'" by simp
        then have "load (records (snd (reconcile_record_locked orc r' h))) u = load (records h) u"
          by (rule load_reconcile_other)
        with False Inr Some assms show ?thesis by (simp add: reconcile_record_def parked_def)
      qed
    qed
  qed
qed

lemma parked_reconcile_all: "parked h u r \<Longrightarrow> parked (snd (reconcile_all orc rs h)) u r"
  by (induction rs arbitrary: h) (auto simp: Let_def case_prod_unfold intro: parked_reconcile)

lemma records_sweep: "records (snd (sweep_orphan_fcs orc h)) = records h"
  by (rule only_procs_fields(3) [OF fewer_procs_only [OF sweep_frame]])

lemma parked_tick: "parked h u r \<Longrightarrow> parked (snd (tick orc h)) u r"
  using parked_reconcile_all [of h u r orc]
  by (auto simp: tick_def Let_def case_prod_unfold parked_def records_sweep split: sum.splits)

lemma parked_readopt: "parked h u r \<Longrightarrow> parked (snd (readopt orc h)) u r"
  using parked_reconcile_all [of h u r orc]
  by (auto simp: readopt_def Let_def case_prod_unfold parked_def records_sweep split: sum.splits)

text \<open>C30: the breaker holds. A parked record stays exactly as it is through a restart of the supervisor
  and any number of monitor ticks, whatever else happens on the host in between, as long as nobody else
  writes that record; so only a new deploy or a reset brings the app back.\<close>

theorem parked_stays_parked:
  assumes "parked h u r" and "\<forall>i h. load (records (world i h)) u = load (records h) u"
  shows "parked (run_monitor orc world n h) u r"
proof (induction n)
  case 0
  have "parked (world 0 h) u r" using assms by (simp add: parked_def)
  then show ?case by (simp add: parked_readopt)
next
  case (Suc n)
  then have "parked (world (Suc n) (run_monitor orc world n h)) u r"
    using assms(2) by (simp add: parked_def)
  then show ?case by (simp add: parked_tick)
qed

theorem parked_stays_parked_witness:
  "parked (run_monitor demo_orch (\<lambda>i h. h\<lparr>clock := clock h + 5\<rparr>) 3
     (demo_host [demo_born] (put_file (demo_record\<lparr>crash_looped := True\<rparr>) demo_dir)))
     ''a'' (demo_record\<lparr>crash_looped := True\<rparr>)"
proof -
  have "parked (demo_host [demo_born] (put_file (demo_record\<lparr>crash_looped := True\<rparr>) demo_dir))
      ''a'' (demo_record\<lparr>crash_looped := True\<rparr>)"
    by (simp add: parked_def demo_host_def load_def put_file_def demo_dir_def demo_record_def demo_handle_def)
  then show ?thesis
    using parked_stays_parked [of _ "''a''" "demo_record\<lparr>crash_looped := True\<rparr>"
      "\<lambda>i h. h\<lparr>clock := clock h + 5\<rparr>" demo_orch 3] by simp
qed


definition demo_fc :: proc where
  "demo_fc = demo_bystander\<lparr>cmdline := Bytes (argv_bytes [''firecracker'', ''--api-sock'',
     ''/tmp/firecracker-fc-0.sock'']), status_text := Some ''PPid: 1''\<rparr>"


text \<open>A run of observations of one image pull: the state after it and the decision at each.\<close>

fun observe :: "PullProgress option \<Rightarrow> u64 \<Rightarrow> (u64 \<times> u64) list \<Rightarrow> PullProgress option \<times> bool list" where
  "observe prev stall [] = (prev, [])"
| "observe prev stall ((b, t) # obs) =
     (let (p, defer) = pull_stall_update prev b t stall;
          (q, ds) = observe (Some p) stall obs
      in (q, defer # ds))"

lemma observe_same:
  "observe (Some \<lparr>pp_bytes = b, pp_last_progress_secs = t0\<rparr>) stall (map (Pair b) ts) =
     (Some \<lparr>pp_bytes = b, pp_last_progress_secs = t0\<rparr>, map (\<lambda>t. sat_sub t t0 < stall) ts)"
  by (induction ts) (simp_all add: pull_stall_update_def)

lemma observe_append:
  "observe prev stall (xs @ ys) =
     (let (p, ds) = observe prev stall xs; (q, es) = observe p stall ys in (q, ds @ es))"
  by (induction xs arbitrary: prev) (auto simp: Let_def case_prod_unfold)

text \<open>The deferral of a reap is driven by progress, not by age. Over a run of observations of one
  image pull, the first observation and every one that sees another byte count than the one before
  defers, however late it comes; while the count stays the same, the reap is deferred exactly until
  \<open>stall\<close> seconds after the last change.\<close>

theorem deferral_follows_progress:
  assumes "case fst (observe None stall before) of None \<Rightarrow> True | Some p \<Rightarrow> pp_bytes p \<noteq> b"
  shows "snd (observe None stall (before @ (b, t0) # map (Pair b) ts)) =
    snd (observe None stall before) @ True # map (\<lambda>t. sat_sub t t0 < stall) ts"
proof -
  obtain p ds where o: "observe None stall before = (p, ds)" by fastforce
  have "pull_stall_update p b t0 stall = (\<lparr>pp_bytes = b, pp_last_progress_secs = t0\<rparr>, True)"
    using assms o by (auto simp: pull_stall_update_def split: option.splits)
  then show ?thesis
    by (simp add: observe_append o observe_same Let_def)
qed

theorem deferral_follows_progress_witness:
  "snd (observe None 600 [(10, 0), (20, 5000), (20, 5599), (20, 5600)]) = [True, True, True, False]"
proof -
  have "case fst (observe None 600 [(10, 0)]) of None \<Rightarrow> True | Some p \<Rightarrow> pp_bytes p \<noteq> 20"
    by (simp add: pull_stall_update_def)
  from deferral_follows_progress [OF this, of 5000 "[5599, 5600]"] show ?thesis
    by (simp add: pull_stall_update_def sat_sub_def)
qed

text \<open>There is no quiet steady state. Adopting a healthy runner rewrites its durable record (a
  synced temporary file, a rename and a directory sync) on every tick at which the clock has moved, even
  when nothing but the time of the last healthy observation changes.\<close>

theorem healthy_tick_always_writes:
  assumes "last_healthy_at (restart r) \<noteq> now"
  shows "\<exists>r'. r' \<noteq> r \<and> snd (adopt_health r pd img now h) = snd (do_save r' h) \<and>
    (\<exists>r''. r'' \<noteq> r \<and> persist_healthy_if_changed r now h = snd (do_save r'' h))"
proof -
  have ne: "on_healthy (restart r) default_BackoffParams now \<noteq> restart r"
    using assms on_healthy_last_healthy [of "restart r" default_BackoffParams now] by metis
  then have "adopted_record r pd img now (records h) \<noteq> r"
    by (cases r) (simp add: adopted_record_def)
  moreover have "r\<lparr>restart := on_healthy (restart r) default_BackoffParams now\<rparr> \<noteq> r"
    using ne by (cases r) simp
  ultimately show ?thesis
    using ne unfolding adopt_health_eq persist_healthy_if_changed_def Let_def
    by (intro exI [of _ "adopted_record r pd img now (records h)"] conjI
        exI [of _ "r\<lparr>restart := on_healthy (restart r) default_BackoffParams now\<rparr>"]) simp_all
qed

theorem healthy_tick_always_writes_witness:
  "\<exists>r'. r' \<noteq> demo_record \<and>
     snd (adopt_health demo_record 7 None 100 (demo_host [] demo_dir)) = snd (do_save r' (demo_host [] demo_dir))"
proof -
  have "last_healthy_at (restart demo_record) \<noteq> 100"
    by (simp add: demo_record_def demo_handle_def default_RestartState_def)
  from healthy_tick_always_writes [OF this] show ?thesis by blast
qed

end
