(* ===== verification/EnvHash.thy ===== *)
theory EnvHash
  imports Process "HOL-Library.Multiset" "HOL-Library.AList_Mapping" "HOL-Library.Char_ord" "HOL-Library.List_Lexorder"
    "HOL-Library.Product_Lexorder"
begin

text \<open>
  The fingerprint of what a deploy bakes into the guest's \<open>/init\<close>: splitting the deploy
  environment into variables and cap-files, the hashed stream and its truncation, and the fingerprint
  manifest kept beside a converted rootfs (\<open>src/src/runner/build/firecracker.rs\<close>,
  \<open>src/src/runner/build/rootfs_variants.rs\<close>). The BLAKE3 digest and the JSON decoder are parameters;
  a \<open>HashMap\<close> is a finite mapping, enumerated here in key order.
\<close>

section \<open>Splitting the deploy environment\<close>

type_synonym env_map = "(string, string) mapping"

text \<open>What \<open>serde_json\<close> reads from the text of the cap-file variable; \<open>None\<close> for a malformed text.\<close>

type_synonym cap_json = "string \<Rightarrow> env_map option"

definition CAP_FILES_ENV :: string where "CAP_FILES_ENV = ''TABBIFY_CAP_FILES''"
definition WORKSPACE_MARKER_ENV :: string where "WORKSPACE_MARKER_ENV = ''TABBIFY_WORKSPACE_UUID''"

fun has_dotdot :: "string \<Rightarrow> bool" where
  "has_dotdot (a # b # s) = (a = CHR ''.'' \<and> b = CHR ''.'' \<or> has_dotdot (b # s))"
| "has_dotdot _ = False"

definition safe_cap_name :: "string \<Rightarrow> bool" where
  "safe_cap_name name =
     (name \<noteq> [] \<and> name \<noteq> ''.'' \<and> name \<noteq> ''..'' \<and> CHR ''/'' \<notin> set name \<and> \<not> has_dotdot name \<and>
      list_all (\<lambda>c. is_alnum c \<or> c = CHR ''.'' \<or> c = CHR ''_'' \<or> c = CHR ''-'') name)"

definition split_env_and_caps :: "cap_json \<Rightarrow> env_map option \<Rightarrow> env_map \<times> (string \<times> string) list" where
  "split_env_and_caps json vars =
     (let env = (case vars of Some m \<Rightarrow> m | None \<Rightarrow> Mapping.empty);
          cap_files =
            (case Mapping.lookup env CAP_FILES_ENV of
               Some text \<Rightarrow>
                 (case json text of
                    Some m \<Rightarrow> filter (\<lambda>(name, _). safe_cap_name name) (Mapping.ordered_entries m)
                  | None \<Rightarrow> [])
             | None \<Rightarrow> [])
      in (Mapping.delete CAP_FILES_ENV env, cap_files))"

section \<open>The fingerprint\<close>

definition hex_of :: "u8 list \<Rightarrow> string" where
  "hex_of bs = concat (map (\<lambda>b. show_hex_padded 2 (unat b)) bs)"

definition raw_bytes :: "u8 list \<Rightarrow> string" where
  "raw_bytes bs = map (\<lambda>b. char_of (unat b)) bs"

definition env_section :: "(string \<times> string) list \<Rightarrow> string" where
  "env_section env = concat (map (\<lambda>(k, v). k @ [NUL] @ v @ [NUL]) env)"

definition names_section :: "(string \<times> string) list \<Rightarrow> string" where
  "names_section ps = concat (map (\<lambda>(n, _). n @ [NUL]) ps)"

definition values_section :: "blake3 \<Rightarrow> (string \<times> string) list \<Rightarrow> string" where
  "values_section bl ps =
     (if ps = [] then []
      else ''capvals'' @ [NUL] @ concat (map (\<lambda>(n, v). n @ [NUL] @ raw_bytes (bl v) @ [NUL]) ps))"

definition mount_section :: "string option \<Rightarrow> string" where
  "mount_section mount =
     (case mount of None \<Rightarrow> [] | Some m \<Rightarrow> ''statefulmount'' @ [NUL] @ m @ [NUL])"

definition fingerprint_stream ::
  "blake3 \<Rightarrow> env_map option \<Rightarrow> (string \<times> string) list \<Rightarrow> string option \<Rightarrow> string" where
  "fingerprint_stream bl vars cap_files mount =
     (let env = (case vars of Some m \<Rightarrow> sort (Mapping.ordered_entries m) | None \<Rightarrow> []);
          pairs = sort cap_files
      in ''env'' @ [NUL] @ env_section env @ ''caps'' @ [NUL] @ names_section pairs @
         values_section bl pairs @ mount_section mount)"

definition rootfs_env_fingerprint ::
  "blake3 \<Rightarrow> env_map option \<Rightarrow> (string \<times> string) list \<Rightarrow> string option \<Rightarrow> string" where
  "rootfs_env_fingerprint bl vars cap_files mount =
     take 16 (hex_of (bl (fingerprint_stream bl vars cap_files mount)))"

definition nonempty_env :: "env_map \<Rightarrow> env_map option" where
  "nonempty_env m = (if Mapping.is_empty m then None else Some m)"

definition effective_env_hash :: "blake3 \<Rightarrow> cap_json \<Rightarrow> env_map option \<Rightarrow> string" where
  "effective_env_hash bl json vars =
     (let (effective_env, cap_files) = split_env_and_caps json vars
      in rootfs_env_fingerprint bl (nonempty_env effective_env) cap_files None)"

section \<open>The fingerprint manifest\<close>

definition value_digest :: "blake3 \<Rightarrow> string \<Rightarrow> string" where
  "value_digest bl v = take 8 (hex_of (bl v))"

record FingerprintManifest =
  fm_fingerprint :: string
  fm_env :: env_map
  fm_cap_values :: env_map
  fm_data_mount :: "string option"

definition digests :: "blake3 \<Rightarrow> (string \<times> string) list \<Rightarrow> env_map" where
  "digests bl ps = fold (\<lambda>(k, v) m. Mapping.update k (value_digest bl v) m) ps Mapping.empty"

definition compute ::
  "blake3 \<Rightarrow> string \<Rightarrow> env_map option \<Rightarrow> (string \<times> string) list \<Rightarrow> string option \<Rightarrow> FingerprintManifest" where
  "compute bl fingerprint vars cap_files mount =
     \<lparr>fm_fingerprint = fingerprint,
      fm_env = digests bl (case vars of Some m \<Rightarrow> Mapping.ordered_entries m | None \<Rightarrow> []),
      fm_cap_values = digests bl cap_files, fm_data_mount = mount\<rparr>"

record FingerprintDiff =
  env_added :: "string list"
  env_removed :: "string list"
  env_value_changed :: "string list"
  caps_added :: "string list"
  caps_removed :: "string list"
  cap_values_rotated :: "string list"
  data_mount_changed :: bool

definition keys_diff :: "env_map \<Rightarrow> env_map \<Rightarrow> string list \<times> string list \<times> string list" where
  "keys_diff old new =
     (filter (\<lambda>k. Mapping.lookup old k = None) (Mapping.ordered_keys new),
      filter (\<lambda>k. Mapping.lookup new k = None) (Mapping.ordered_keys old),
      filter (\<lambda>k. case Mapping.lookup old k of
                    None \<Rightarrow> False | Some ov \<Rightarrow> Some ov \<noteq> Mapping.lookup new k) (Mapping.ordered_keys new))"

definition diff :: "FingerprintManifest \<Rightarrow> FingerprintManifest \<Rightarrow> FingerprintDiff" where
  "diff cached wanted =
     (let (ea, er, ec) = keys_diff (fm_env cached) (fm_env wanted);
          (ca, cr, cc) = keys_diff (fm_cap_values cached) (fm_cap_values wanted)
      in \<lparr>env_added = ea, env_removed = er, env_value_changed = ec, caps_added = ca, caps_removed = cr,
          cap_values_rotated = cc, data_mount_changed = (fm_data_mount cached \<noteq> fm_data_mount wanted)\<rparr>)"

definition diff_is_empty :: "FingerprintDiff \<Rightarrow> bool" where
  "diff_is_empty d \<longleftrightarrow>
     env_added d = [] \<and> env_removed d = [] \<and> env_value_changed d = [] \<and> caps_added d = [] \<and>
     caps_removed d = [] \<and> cap_values_rotated d = [] \<and> \<not> data_mount_changed d"

definition describe_env_change ::
  "blake3 \<Rightarrow> cap_json \<Rightarrow> env_map option \<Rightarrow> env_map option \<Rightarrow> FingerprintDiff" where
  "describe_env_change bl json old_env new_env =
     (let manifest_of = (\<lambda>env. let (eff, caps) = split_env_and_caps json env in
            compute bl (rootfs_env_fingerprint bl (nonempty_env eff) caps None) (nonempty_env eff) caps None)
      in diff (manifest_of old_env) (manifest_of new_env))"

section \<open>Streams of NUL-terminated tokens\<close>

lemma nul_cancel:
  "NUL \<notin> set x \<Longrightarrow> NUL \<notin> set y \<Longrightarrow> x @ NUL # s = y @ NUL # t \<longleftrightarrow> x = y \<and> s = t"
proof (induction x arbitrary: y)
  case Nil
  then show ?case by (cases y) auto
next
  case (Cons a x)
  then show ?case by (cases y) auto
qed

lemma sections_simps [simp]:
  "env_section [] = []" "env_section ((k, v) # e) = k @ NUL # v @ NUL # env_section e"
  "names_section [] = []" "names_section ((n, w) # p) = n @ NUL # names_section p"
  by (simp_all add: env_section_def names_section_def)

definition nul_free :: "string \<Rightarrow> bool" where
  "nul_free s \<longleftrightarrow> NUL \<notin> set s"

lemma nul_free_words [simp]:
  "nul_free ''env''" "nul_free ''caps''" "nul_free ''capvals''" "nul_free ''statefulmount''"
  by (simp_all add: nul_free_def NUL_def)

lemma nul_token:
  "nul_free x \<Longrightarrow> nul_free y \<Longrightarrow> x @ NUL # s = y @ NUL # t \<longleftrightarrow> x = y \<and> s = t"
  by (simp add: nul_cancel nul_free_def)

lemma env_section_unique:
  assumes "\<forall>(k, v) \<in> set e1. nul_free k \<and> nul_free v \<and> k \<noteq> ''caps''"
    and "\<forall>(k, v) \<in> set e2. nul_free k \<and> nul_free v \<and> k \<noteq> ''caps''"
    and "env_section e1 @ ''caps'' @ NUL # s = env_section e2 @ ''caps'' @ NUL # t"
  shows "e1 = e2 \<and> s = t"
  using assms
proof (induction e1 arbitrary: e2)
  case Nil
  then show ?case
    using nul_token [of "''caps''" _ s] by (cases e2) (auto split: prod.splits)
next
  case (Cons p e1)
  obtain k v where p: "p = (k, v)" by force
  show ?case
  proof (cases e2)
    case Nil
    with Cons.prems p show ?thesis using nul_token [of k "''caps''"] by auto
  next
    case (Cons q e2')
    obtain k' v' where q: "q = (k', v')" by force
    have "k = k'" "v @ NUL # env_section e1 @ ''caps'' @ NUL # s = v' @ NUL # env_section e2' @ ''caps'' @ NUL # t"
      using Cons.prems p q Cons nul_token [of k k'] by auto
    moreover from this have "v = v'" "env_section e1 @ ''caps'' @ NUL # s = env_section e2' @ ''caps'' @ NUL # t"
      using Cons.prems p q Cons nul_token [of v v'] by auto
    ultimately show ?thesis using Cons.IH [of e2'] Cons.prems p q Cons by auto
  qed
qed


lemma names_section_unique:
  assumes "\<forall>(n, v) \<in> set p1. nul_free n \<and> n \<noteq> ''capvals''"
    and "\<forall>(n, v) \<in> set p2. nul_free n \<and> n \<noteq> ''capvals''"
    and "names_section p1 @ ''capvals'' @ NUL # s = names_section p2 @ ''capvals'' @ NUL # t"
  shows "map fst p1 = map fst p2 \<and> s = t"
  using assms
proof (induction p1 arbitrary: p2)
  case Nil
  then show ?case
    using nul_token [of "''capvals''" _ s] by (cases p2) (auto split: prod.splits)
next
  case (Cons p p1)
  obtain n v where p: "p = (n, v)" by force
  show ?case
  proof (cases p2)
    case Nil
    with Cons.prems p show ?thesis using nul_token [of n "''capvals''"] by auto
  next
    case (Cons q p2')
    obtain n' v' where q: "q = (n', v')" by force
    have "n = n'" "names_section p1 @ ''capvals'' @ NUL # s = names_section p2' @ ''capvals'' @ NUL # t"
      using Cons.prems p q Cons nul_token [of n n'] by auto
    then show ?thesis using Cons.IH [of p2'] Cons.prems p q Cons by auto
  qed
qed

lemma raw_bytes_inject [simp]: "raw_bytes a = raw_bytes b \<longleftrightarrow> a = b"
proof -
  have "inj (\<lambda>b :: u8. char_of (unat b) :: char)"
  proof (rule injI)
    fix x y :: u8
    assume "(char_of (unat x) :: char) = char_of (unat y)"
    then have "(of_char (char_of (unat x) :: char) :: nat) = of_char (char_of (unat y) :: char)" by simp
    moreover have "unat x < 256" "unat y < 256" using unsigned_less [of x] unsigned_less [of y] by simp_all
    ultimately have "unat x = unat y" by simp
    then show "x = y" by (simp add: word_unat_eq_iff)
  qed
  then show ?thesis by (simp add: raw_bytes_def inj_map_eq_map)
qed

lemma length_raw_bytes [simp]: "length (raw_bytes bs) = length bs"
  by (simp add: raw_bytes_def)

definition value_items :: "blake3 \<Rightarrow> (string \<times> string) list \<Rightarrow> string" where
  "value_items bl ps = concat (map (\<lambda>(n, v). n @ [NUL] @ raw_bytes (bl v) @ [NUL]) ps)"

lemma value_items_unique:
  assumes "map fst p1 = map fst p2" "\<forall>v. length (bl v) = 32"
    and "\<forall>v \<in> snd ` set p1. \<forall>w \<in> snd ` set p2. bl v = bl w \<longrightarrow> v = w"
    and "value_items bl p1 @ s = value_items bl p2 @ t"
  shows "p1 = p2 \<and> s = t"
  using assms
proof (induction p1 arbitrary: p2)
  case Nil
  then show ?case by simp
next
  case (Cons p p1)
  obtain n v where p: "p = (n, v)" by force
  obtain w p2' where q: "p2 = (n, w) # p2'" using Cons.prems(1) p by (cases p2) auto
  have "raw_bytes (bl v) @ NUL # value_items bl p1 @ s = raw_bytes (bl w) @ NUL # value_items bl p2' @ t"
    using Cons.prems(4) p q by (simp add: value_items_def)
  then have b: "bl v = bl w" "value_items bl p1 @ s = value_items bl p2' @ t"
    using Cons.prems(2) by (simp_all add: append_eq_append_conv)
  have "p1 = p2' \<and> s = t"
  proof (rule Cons.IH)
    show "map fst p1 = map fst p2'" using Cons.prems(1) p q by simp
    show "\<forall>v \<in> snd ` set p1. \<forall>w \<in> snd ` set p2'. bl v = bl w \<longrightarrow> v = w" using Cons.prems(3) p q by simp
  qed (use Cons.prems(2) b in auto)
  moreover have "v = w" using Cons.prems(3) p q b(1) by simp
  ultimately show ?case using p q by simp
qed

lemma mount_section_unique:
  "pred_option nul_free m1 \<Longrightarrow> pred_option nul_free m2 \<Longrightarrow> mount_section m1 = mount_section m2 \<longleftrightarrow> m1 = m2"
  by (cases m1; cases m2) (auto simp: mount_section_def nul_token)

text \<open>A stream without cap-files is no stream with some: the values section is there exactly when a
  name is.\<close>

lemma no_caps_vs_caps:
  assumes "pred_option nul_free m1" "nul_free n" "\<forall>(k, v) \<in> set ps. nul_free k"
    and "nul_free cv"
  shows "mount_section m1 \<noteq> n @ NUL # names_section ps @ cv @ NUL # x # r"
proof (cases m1)
  case None
  then show ?thesis by (simp add: mount_section_def)
next
  case (Some m)
  have m: "nul_free m" using assms(1) Some by simp
  show ?thesis
  proof
    assume "mount_section m1 = n @ NUL # names_section ps @ cv @ NUL # x # r"
    then have e: "m @ NUL # [] = names_section ps @ cv @ NUL # x # r"
      using Some assms(2) nul_token [of "''statefulmount''" n] by (simp add: mount_section_def)
    show False
    proof (cases ps)
      case Nil
      then show False using e m assms(4) nul_token [of m cv "[]"] by simp
    next
      case (Cons p ps')
      then show False using e m assms(3) nul_token [of m "fst p" "[]"] by (cases p) auto
    qed
  qed
qed


section \<open>The fingerprint tells builds apart\<close>

definition env_list :: "env_map option \<Rightarrow> (string \<times> string) list" where
  "env_list vars = (case vars of Some m \<Rightarrow> sort (Mapping.ordered_entries m) | None \<Rightarrow> [])"

text \<open>Inputs free of NUL bytes (a variable with one is refused by \<open>exec\<close>) and of the two words that
  introduce a section.\<close>

definition clean_inputs :: "env_map option \<Rightarrow> (string \<times> string) list \<Rightarrow> string option \<Rightarrow> bool" where
  "clean_inputs vars caps mount \<longleftrightarrow>
     pred_option (\<lambda>m. finite (Mapping.keys m)) vars \<and>
     (\<forall>(k, v) \<in> set (env_list vars). nul_free k \<and> nul_free v \<and> k \<noteq> ''caps'') \<and>
     (\<forall>(n, v) \<in> set caps. nul_free n \<and> n \<noteq> ''capvals'') \<and> pred_option nul_free mount"

text \<open>No two of the given values share a digest.\<close>

definition values_told_apart :: "blake3 \<Rightarrow> string set \<Rightarrow> bool" where
  "values_told_apart bl vs \<longleftrightarrow> (\<forall>v. length (bl v) = 32) \<and> inj_on bl vs"

lemma fingerprint_stream_alt:
  "fingerprint_stream bl vars caps mount =
     ''env'' @ NUL # env_section (env_list vars) @ ''caps'' @ NUL # names_section (sort caps) @
       values_section bl (sort caps) @ mount_section mount"
  by (simp add: fingerprint_stream_def env_list_def Let_def split: option.splits)

lemma values_section_alt:
  "values_section bl ps = (if ps = [] then [] else ''capvals'' @ NUL # value_items bl ps)"
  by (simp add: values_section_def value_items_def)

lemma value_items_Cons: "value_items bl ((n, v) # ps) = n @ NUL # raw_bytes (bl v) @ NUL # value_items bl ps"
  by (simp add: value_items_def)

lemma caps_vs_none:
  assumes "pred_option nul_free m1" "\<forall>(n, v) \<in> set ps. nul_free n" "ps \<noteq> []"
  shows "mount_section m1 \<noteq> names_section ps @ ''capvals'' @ NUL # value_items bl ps @ t"
proof -
  obtain n v qs where q: "ps = (n, v) # qs" using assms(3) by (cases ps) auto
  obtain x r where "value_items bl ps @ t = x # r"
    by (cases "value_items bl ps @ t") (auto simp: q value_items_Cons)
  then show ?thesis
    using no_caps_vs_caps [of m1 n qs "''capvals''" x r] assms q by auto
qed

lemma streams_equal:
  assumes "clean_inputs e1 c1 m1" "clean_inputs e2 c2 m2"
    and "values_told_apart bl (snd ` (set c1 \<union> set c2))"
    and "fingerprint_stream bl e1 c1 m1 = fingerprint_stream bl e2 c2 m2"
  shows "env_list e1 = env_list e2 \<and> sort c1 = sort c2 \<and> m1 = m2"
proof -
  define p where "p = sort c1"
  define q where "q = sort c2"
  have pq: "set p = set c1" "set q = set c2" by (simp_all add: p_def q_def)
  have e: "env_section (env_list e1) @ ''caps'' @ NUL # names_section p @ values_section bl p @ mount_section m1 =
      env_section (env_list e2) @ ''caps'' @ NUL # names_section q @ values_section bl q @ mount_section m2"
    using assms(4) by (simp add: fingerprint_stream_alt p_def q_def)
  have env: "env_list e1 = env_list e2"
    and r: "names_section p @ values_section bl p @ mount_section m1 =
      names_section q @ values_section bl q @ mount_section m2"
    using env_section_unique [OF _ _ e] assms(1,2) by (auto simp: clean_inputs_def)
  have m: "pred_option nul_free m1" "pred_option nul_free m2"
    and n: "\<forall>(n, v) \<in> set p. nul_free n \<and> n \<noteq> ''capvals''" "\<forall>(n, v) \<in> set q. nul_free n \<and> n \<noteq> ''capvals''"
    using assms(1,2) pq by (auto simp: clean_inputs_def)
  have "p = q \<and> m1 = m2"
  proof (cases "p = [] \<or> q = []")
    case True
    then show ?thesis
      using r n m caps_vs_none [of m1 q bl "mount_section m2"] caps_vs_none [of m2 p bl "mount_section m1"]
        mount_section_unique [of m1 m2]
      by (cases "p = []"; cases "q = []") (auto simp: values_section_alt)
  next
    case False
    then have "names_section p @ ''capvals'' @ NUL # value_items bl p @ mount_section m1 =
        names_section q @ ''capvals'' @ NUL # value_items bl q @ mount_section m2"
      using r by (simp add: values_section_alt)
    then have "map fst p = map fst q" "value_items bl p @ mount_section m1 = value_items bl q @ mount_section m2"
      using names_section_unique n by blast+
    moreover have "\<forall>v. length (bl v) = 32"
      "\<forall>v \<in> snd ` set p. \<forall>w \<in> snd ` set q. bl v = bl w \<longrightarrow> v = w"
      using assms(3) pq by (auto simp: values_told_apart_def inj_on_def)
    ultimately have "p = q" "mount_section m1 = mount_section m2" using value_items_unique by blast+
    then show ?thesis using mount_section_unique m by blast
  qed
  then show ?thesis using env by (simp add: p_def q_def)
qed

definition env_of :: "env_map option \<Rightarrow> env_map" where
  "env_of vars = (case vars of Some m \<Rightarrow> m | None \<Rightarrow> Mapping.empty)"

lemma env_list_eq:
  assumes "pred_option (\<lambda>m. finite (Mapping.keys m)) e1" "pred_option (\<lambda>m. finite (Mapping.keys m)) e2"
  shows "env_list e1 = env_list e2 \<longleftrightarrow> env_of e1 = env_of e2"
proof
  have list: "env_list e = sort (Mapping.ordered_entries (env_of e))" for e
    by (simp add: env_list_def env_of_def split: option.splits)
  show "env_list e1 = env_list e2" if "env_of e1 = env_of e2" using that by (simp add: list)
  have fin: "finite (Mapping.keys (env_of e1))" "finite (Mapping.keys (env_of e2))"
    using assms by (auto simp: env_of_def split: option.splits)
  show "env_of e1 = env_of e2" if e: "env_list e1 = env_list e2"
  proof (rule mapping_eqI)
    have "set (env_list e1) = set (env_list e2)" using e by simp
    then have "Mapping.entries (env_of e1) = Mapping.entries (env_of e2)" using fin by (simp add: list)
    then show "Mapping.lookup (env_of e1) k = Mapping.lookup (env_of e2) k" for k
      by (metis in_entriesD in_entriesI not_None_eq)
  qed
qed

lemma sort_eq_mset: "sort xs = sort ys \<longleftrightarrow> mset xs = mset ys" for xs :: "'a::linorder list"
  by (metis mset_sort properties_for_sort sorted_sort)

text \<open>C40: the fingerprint identifies what a build bakes. For inputs without NUL bytes and without the
  section words as names, and digests that collide neither on the values baked nor on the two
  streams, two builds have the same fingerprint exactly when they export the same variables, write the
  same cap-files with the same values, and mount the data disk at the same place (or both not at all).
  A rotated value, an added cap-file or a flipped mount is never served from the old build's cache.\<close>

theorem fingerprint_tells_builds_apart:
  assumes "clean_inputs e1 c1 m1" "clean_inputs e2 c2 m2"
    and "values_told_apart bl (snd ` (set c1 \<union> set c2))"
    and "take 16 (hex_of (bl (fingerprint_stream bl e1 c1 m1))) =
           take 16 (hex_of (bl (fingerprint_stream bl e2 c2 m2))) \<Longrightarrow>
         fingerprint_stream bl e1 c1 m1 = fingerprint_stream bl e2 c2 m2"
  shows "rootfs_env_fingerprint bl e1 c1 m1 = rootfs_env_fingerprint bl e2 c2 m2 \<longleftrightarrow>
    env_of e1 = env_of e2 \<and> mset c1 = mset c2 \<and> m1 = m2"
proof -
  have f: "env_list e1 = env_list e2 \<longleftrightarrow> env_of e1 = env_of e2"
    using env_list_eq assms(1,2) by (simp add: clean_inputs_def)
  have "rootfs_env_fingerprint bl e1 c1 m1 = rootfs_env_fingerprint bl e2 c2 m2 \<longleftrightarrow>
      fingerprint_stream bl e1 c1 m1 = fingerprint_stream bl e2 c2 m2"
    using assms(4) by (auto simp: rootfs_env_fingerprint_def)
  also have "\<dots> \<longleftrightarrow> env_list e1 = env_list e2 \<and> sort c1 = sort c2 \<and> m1 = m2"
    using streams_equal [OF assms(1-3)] by (auto simp: fingerprint_stream_alt)
  finally show ?thesis by (simp add: f sort_eq_mset)
qed

text \<open>A digest of 32 bytes that is the length of its input.\<close>

definition demo_digest :: blake3 where
  "demo_digest s = replicate 8 (word_of_nat (length s)) @ replicate 24 0"

lemma clean_None [simp]: "clean_inputs None [] None"
  by (simp add: clean_inputs_def env_list_def)

theorem fingerprint_tells_builds_apart_witness:
  "rootfs_env_fingerprint demo_digest None [(''a.url'', ''x'')] (Some ''/d'') \<noteq>
   rootfs_env_fingerprint demo_digest None [(''a.url'', ''x''), (''b.url'', ''xy'')] (Some ''/d'')"
proof -
  have c: "clean_inputs None [(''a.url'', ''x'')] (Some ''/d'')"
    "clean_inputs None [(''a.url'', ''x''), (''b.url'', ''xy'')] (Some ''/d'')"
    by (simp_all add: clean_inputs_def env_list_def nul_free_def NUL_def)
  have v: "values_told_apart demo_digest
      (snd ` (set [(''a.url'', ''x'')] \<union> set [(''a.url'', ''x''), (''b.url'', ''xy'')]))"
    by (auto simp: values_told_apart_def demo_digest_def inj_on_def)
  have h: "take 16 (hex_of (demo_digest (fingerprint_stream demo_digest None [(''a.url'', ''x'')] (Some ''/d'')))) \<noteq>
    take 16 (hex_of (demo_digest (fingerprint_stream demo_digest None
      [(''a.url'', ''x''), (''b.url'', ''xy'')] (Some ''/d''))))"
    by code_simp
  have "mset [(''a.url'', ''x'')] \<noteq> mset [(''a.url'', ''x''), (''b.url'', ''xy'')]" by simp
  with h show ?thesis
    using fingerprint_tells_builds_apart [OF c v] by blast
qed


text \<open>The framing is ambiguous outside the clean inputs: a variable called \<open>caps\<close> is read as the section
  word.\<close>

lemma framing_collision:
  "rootfs_env_fingerprint bl (Some (Mapping.update ''caps'' ''statefulmount'' Mapping.empty)) [] None =
   rootfs_env_fingerprint bl None [] (Some ''caps'')"
  by (simp add: rootfs_env_fingerprint_def fingerprint_stream_alt env_list_def values_section_def
      mount_section_def NUL_def insort_insert_key_def)

section \<open>What a diff says\<close>

lemma keys_diff_empty:
  assumes "finite (Mapping.keys old)" "finite (Mapping.keys new)"
  shows "keys_diff old new = ([], [], []) \<longleftrightarrow> old = new"
proof
  assume d: "keys_diff old new = ([], [], [])"
  have dom: "k \<in> Mapping.keys m \<longleftrightarrow> Mapping.lookup m k \<noteq> None" for k and m :: env_map
    by (simp add: keys_dom_lookup domIff)
  have e: "\<forall>k \<in> Mapping.keys new. Mapping.lookup old k \<noteq> None"
    "\<forall>k \<in> Mapping.keys old. Mapping.lookup new k \<noteq> None"
    "\<forall>k \<in> Mapping.keys new. Mapping.lookup old k \<noteq> None \<longrightarrow> Mapping.lookup old k = Mapping.lookup new k"
    using d assms by (simp_all add: keys_diff_def filter_empty_conv) (force split: option.splits)
  show "old = new"
  proof (rule mapping_eqI)
    fix k
    show "Mapping.lookup old k = Mapping.lookup new k"
    proof (cases "k \<in> Mapping.keys new")
      case True
      then show ?thesis using e(1,3) by blast
    next
      case False
      then have "Mapping.lookup new k = None" using dom by blast
      moreover from this have "Mapping.lookup old k = None" using e(2) dom by blast
      ultimately show ?thesis by simp
    qed
  qed
next
  assume "old = new"
  then show "keys_diff old new = ([], [], [])"
    using assms by (auto simp: keys_diff_def keys_dom_lookup filter_empty_conv split: option.splits)
qed

lemma diff_is_empty_iff:
  assumes "finite (Mapping.keys (fm_env a))" "finite (Mapping.keys (fm_env b))"
    "finite (Mapping.keys (fm_cap_values a))" "finite (Mapping.keys (fm_cap_values b))"
  shows "diff_is_empty (diff a b) \<longleftrightarrow>
    fm_env a = fm_env b \<and> fm_cap_values a = fm_cap_values b \<and> fm_data_mount a = fm_data_mount b"
  using keys_diff_empty [OF assms(1,2)] keys_diff_empty [OF assms(3,4)]
  by (auto simp: diff_is_empty_def diff_def split: prod.splits)

end
