(* ===== verification/Lifecycle.thy ===== *)
theory Lifecycle
  imports Monitor EnvHash
begin

text \<open>
  The lifecycle operations of the control API (\<open>src/src/orchestrator/api.rs\<close>): start, stop, purge,
  snapshot, deploy and reset of one app, the summaries, and the manifest retention a deploy obeys
  (\<open>src/src/orchestrator/manifest_retention.rs\<close>, \<open>src/src/build.rs\<close>). Every operation holds the app's
  lifecycle lock, so it is one step of the host here; what the world does to the host while an
  operation sleeps between two polls is the parameter \<open>between\<close>.
\<close>

section \<open>Manifest retention\<close>

record ManagedPersistence =
  mp_stateful :: bool
  mp_data_mount :: "string option"

definition default_ManagedPersistence :: ManagedPersistence where
  "default_ManagedPersistence = \<lparr>mp_stateful = False, mp_data_mount = None\<rparr>"

text \<open>What the TOML parser reads as the persistence of the \<open>[runtime]\<close> table, \<open>None\<close> for a syntax
  error.\<close>

type_synonym managed_toml = "string \<Rightarrow> ManagedPersistence option"

definition managed_persistence :: "managed_toml \<Rightarrow> string option \<Rightarrow> ManagedPersistence" where
  "managed_persistence toml manifest =
     (case Option.bind manifest toml of Some v \<Rightarrow> v | None \<Rightarrow> default_ManagedPersistence)"

definition retained :: "string option \<Rightarrow> string option \<Rightarrow> string option" where
  "retained incoming persisted = opt_or incoming persisted"

record StatefulRegression =
  previous_mount :: "string option"
  next_mount :: "string option"
  next_stateful :: bool

definition stateful_regression ::
  "managed_toml \<Rightarrow> string option \<Rightarrow> string option \<Rightarrow> StatefulRegression option" where
  "stateful_regression toml persisted effective =
     (let before = managed_persistence toml persisted in
      if \<not> mp_stateful before then None
      else let after = managed_persistence toml effective in
        if mp_stateful after \<and> mp_data_mount after = mp_data_mount before then None
        else Some \<lparr>previous_mount = mp_data_mount before, next_mount = mp_data_mount after,
                   next_stateful = mp_stateful after\<rparr>)"

section \<open>Types of the API\<close>

datatype AppState = AppRunning | AppStopped

record AppSummary =
  su_uuid :: string
  su_app_ula :: string
  su_state :: AppState
  su_restart_status :: string
  su_restart_count :: u32
  su_next_retry_at :: u64
  su_last_exit_at :: u64
  su_requested_runtime :: "string option"

record DeployNetwork =
  dn_network :: "string option"
  dn_runner_join_token :: "string option"

text \<open>Why the cold-spawn gate gave up: what the last poll had said, and whether the process was dead
  or the deadline over.\<close>

datatype poll_reason = AppSaid string | RunnerErr string | SocketUnreachable

datatype gate_reason = ProcessExited "poll_reason option" | DeadlineElapsed "poll_reason option"

datatype ColdStart = ColdServing | ColdCrashLoop gate_reason

datatype api_error =
    Core lifecycle_error
  | UnexpectedHealth | IdentityMismatch string | ProbeFailed
  | DuplicateRunner | NeverHealthy | NoRunnerRecord | ReconcileFailed RecordOutcome
  | RunnerRejected string | UnexpectedReply | TransportFailed
  | Regression StatefulRegression | ColdStartUnhealthy gate_reason "string option"
  | CachePurgeFailed | LinkReleaseFailed link_error

definition restart_status_str :: "RestartStatus \<Rightarrow> string" where
  "restart_status_str rs =
     (case rs of StRunning \<Rightarrow> ''running'' | StBackoff \<Rightarrow> ''backoff'' | StCrashLoop \<Rightarrow> ''crashloop'')"


section \<open>Building the launch spec\<close>

definition spawn_spec_from_record :: "orch \<Rightarrow> RunnerHandle \<Rightarrow> host \<Rightarrow> SpawnSpec" where
  "spawn_spec_from_record orc r h = port_or_backfill (spawn_spec_for (shared orc) r) h"

definition spawn_spec_for_uuid :: "orch \<Rightarrow> string \<Rightarrow> host \<Rightarrow> SpawnSpec" where
  "spawn_spec_for_uuid orc u h =
     (let sh = shared orc in
      \<lparr>sp_runner_bin = sh_runner_bin sh, sp_uuid = u, sp_control_sock = control_sock_for orc u,
       sp_s3_base_url = sh_s3_base_url sh, sp_data_dir = sh_data_dir sh, sp_parent = sh_parent sh,
       sp_no_mesh = sh_no_mesh sh, sp_relay_url = sh_relay_url sh, sp_relay_only = sh_relay_only sh,
       sp_wg_listen_port = port_for_runner (records h) u, sp_image_ref = None, sp_network = None,
       sp_runner_join_token = None, sp_manifest_toml = None, sp_extra_env = None,
       sp_egress_allow = None\<rparr>)"

definition spawn_spec_for_start ::
  "orch \<Rightarrow> string \<Rightarrow> host \<Rightarrow> lifecycle_error + (SpawnSpec \<times> RunnerHandle option)" where
  "spawn_spec_for_start orc u h =
     (case load_runner_record orc h u of
        Inl e \<Rightarrow> Inl e
      | Inr (Some r) \<Rightarrow> Inr (spawn_spec_from_record orc r h, Some r)
      | Inr None \<Rightarrow> Inr (spawn_spec_for_uuid orc u h, None))"

text \<open>What a deploy supplies.\<close>

record DeployBody =
  db_reff :: string
  db_runtime_override :: "string option"
  db_manifest_toml :: "string option"
  db_net :: DeployNetwork
  db_extra_env :: "env_map option"
  db_egress_allow :: "string list option"

definition spawn_spec_for_deploy ::
  "orch \<Rightarrow> string \<Rightarrow> RunnerHandle option \<Rightarrow> DeployBody \<Rightarrow> string option \<Rightarrow> host \<Rightarrow> SpawnSpec" where
  "spawn_spec_for_deploy orc u existing body manifest h =
     (let spec = (case existing of None \<Rightarrow> spawn_spec_for_uuid orc u h
                  | Some r \<Rightarrow> spawn_spec_from_record orc r h)
      in spec\<lparr>sp_image_ref := Some (db_reff body),
              sp_manifest_toml := opt_or manifest (sp_manifest_toml spec),
              sp_network := opt_or (dn_network (db_net body)) (sp_network spec),
              sp_runner_join_token := opt_or (dn_runner_join_token (db_net body)) (sp_runner_join_token spec),
              sp_extra_env := opt_or (db_extra_env body) (sp_extra_env spec),
              sp_egress_allow := opt_or (db_egress_allow body) (sp_egress_allow spec)\<rparr>)"

section \<open>Probes\<close>

definition runner_health_for :: "orch \<Rightarrow> host \<Rightarrow> string \<Rightarrow> api_error + Reply option" where
  "runner_health_for orc h u =
     (case health h (control_sock_for orc u) of
        None \<Rightarrow> Inr None
      | Some r \<Rightarrow> (case r of
            Health _ _ app_u _ _ _ _ \<Rightarrow> if app_u \<noteq> u then Inl (IdentityMismatch app_u) else Inr (Some r)
          | _ \<Rightarrow> Inl UnexpectedHealth))"

text \<open>\<open>socket_live || client.socket_reachable(..)?\<close>.\<close>

definition socket_present :: "orch \<Rightarrow> host \<Rightarrow> string \<Rightarrow> bool \<Rightarrow> api_error + bool" where
  "socket_present orc h u live =
     (if live then Inr True
      else case socket_reachable h (control_sock_for orc u) of Inl _ \<Rightarrow> Inl ProbeFailed | Inr b \<Rightarrow> Inr b)"

definition app_ula_for :: "orch \<Rightarrow> string \<Rightarrow> api_error + string" where
  "app_ula_for orc u =
     (case parse_uuid orc u of
        None \<Rightarrow> Inl (Core InvalidUuid)
      | Some bytes \<Rightarrow> Inr (show_ipv6 (derive_app_ula (digest orc) bytes)))"

definition app_state :: "orch \<Rightarrow> host \<Rightarrow> string \<Rightarrow> api_error + AppState" where
  "app_state orc h u =
     (case app_ula_for orc u of
        Inl e \<Rightarrow> Inl e
      | Inr _ \<Rightarrow> (case runner_health_for orc h u of
            Inl e \<Rightarrow> Inl e
          | Inr (Some _) \<Rightarrow> Inr AppRunning
          | Inr None \<Rightarrow> Inr AppStopped))"

definition record_summary :: "RunnerHandle \<Rightarrow> AppState \<Rightarrow> u64 \<Rightarrow> AppSummary" where
  "record_summary r st now =
     \<lparr>su_uuid = uuid r, su_app_ula = app_ula r, su_state = st,
      su_restart_status = restart_status_str (status (restart r) default_BackoffParams now),
      su_restart_count = consecutive_failures (restart r), su_next_retry_at = next_retry_at (restart r),
      su_last_exit_at = last_exit_at (restart r), su_requested_runtime = None\<rparr>"

definition socket_state :: "host \<Rightarrow> string \<Rightarrow> AppState" where
  "socket_state h sock = (if health h sock \<noteq> None then AppRunning else AppStopped)"

definition app_summaries :: "host \<Rightarrow> io_error + AppSummary list" where
  "app_summaries h =
     (case list_records (records h) of
        Inl e \<Rightarrow> Inl e
      | Inr rs \<Rightarrow> Inr (map (\<lambda>r. record_summary r (socket_state h (control_sock r)) (clock h)) rs))"

definition app_summary :: "orch \<Rightarrow> host \<Rightarrow> string \<Rightarrow> api_error + AppSummary option" where
  "app_summary orc h u =
     (case app_ula_for orc u of
        Inl e \<Rightarrow> Inl e
      | Inr _ \<Rightarrow> (case load_runner_record orc h u of
            Inl e \<Rightarrow> Inl (Core e)
          | Inr None \<Rightarrow> Inr None
          | Inr (Some r) \<Rightarrow> Inr (Some (record_summary r (socket_state h (control_sock r)) (clock h)))))"

definition running_summary :: "string \<Rightarrow> string \<Rightarrow> string option \<Rightarrow> AppSummary" where
  "running_summary u ula rt =
     \<lparr>su_uuid = u, su_app_ula = ula, su_state = AppRunning, su_restart_status = restart_status_str StRunning,
      su_restart_count = 0, su_next_retry_at = 0, su_last_exit_at = 0, su_requested_runtime = rt\<rparr>"

section \<open>Waiting for a runner\<close>

text \<open>How often an operation may poll before its deadline, and what the world does to the host in
  between.\<close>

record waiting =
  polls :: nat
  between :: "host \<Rightarrow> host"

fun wait_healthy :: "(host \<Rightarrow> host) \<Rightarrow> string \<Rightarrow> nat \<Rightarrow> host \<Rightarrow> Reply option \<times> host" where
  "wait_healthy world sock 0 h = (None, h)"
| "wait_healthy world sock (Suc n) h =
     (case health h sock of
        Some reply \<Rightarrow> (Some reply, h)
      | None \<Rightarrow> wait_healthy world sock n (world h))"

definition poll_says :: "Reply option \<Rightarrow> poll_reason option \<Rightarrow> poll_reason option" where
  "poll_says reply seen =
     (case reply of
        Some (Health _ _ _ _ _ app_health reason) \<Rightarrow>
          Some (AppSaid (case reason of Some x \<Rightarrow> x | None \<Rightarrow> ''app_health='' @ app_health))
      | Some (ErrReply message) \<Rightarrow> Some (RunnerErr message)
      | Some _ \<Rightarrow> seen
      | None \<Rightarrow> Some SocketUnreachable)"

definition says_serving :: "Reply option \<Rightarrow> bool" where
  "says_serving reply =
     (case reply of Some (Health _ _ _ _ _ app_health _) \<Rightarrow> app_health = ''serving'' | _ \<Rightarrow> False)"

fun wait_cold_serving ::
  "(host \<Rightarrow> host) \<Rightarrow> string \<Rightarrow> u32 \<Rightarrow> nat \<Rightarrow> poll_reason option \<Rightarrow> host \<Rightarrow> ColdStart \<times> host" where
  "wait_cold_serving world sock pd 0 seen h = (ColdCrashLoop (DeadlineElapsed seen), h)"
| "wait_cold_serving world sock pd (Suc n) seen h =
     (let reply = health h sock; seen' = poll_says reply seen in
      if says_serving reply then (ColdServing, h)
      else if \<not> runner_is_alive h pd then (ColdCrashLoop (ProcessExited seen'), h)
      else wait_cold_serving world sock pd n seen' (world h))"

section \<open>The reason in the runner's log\<close>

definition boot_markers :: "string list" where
  "boot_markers = [''never became ready'', ''not listening'', ''cap_net_admin'']"

definition boot_failure_diagnostic :: "string \<Rightarrow> string option" where
  "boot_failure_diagnostic tail =
     Option.bind
       (List.find (\<lambda>line. list_ex (\<lambda>m. contains m (map ascii_lower line)) boot_markers)
         (rev (lines_of tail)))
       (\<lambda>line. if trim line = [] then None else Some (trim line))"

fun joined :: "string \<Rightarrow> string list \<Rightarrow> string" where
  "joined sep [] = []"
| "joined sep [x] = x"
| "joined sep (x # y # ys) = x @ sep @ joined sep (y # ys)"

definition LOG_CHUNK :: nat where "LOG_CHUNK = 8192"

definition read_last_lines :: "string \<Rightarrow> nat \<Rightarrow> string" where
  "read_last_lines content n =
     (let chunk = take LOG_CHUNK (drop (length content - LOG_CHUNK) content);
          tail = rev (take n (rev (lines_of chunk)))
      in joined [char_of (10 :: nat)] tail)"

definition runner_log_tail :: "(string \<Rightarrow> string option) \<Rightarrow> orch \<Rightarrow> string \<Rightarrow> nat \<Rightarrow> string option" where
  "runner_log_tail logs orc u n =
     (case logs (runner_log_path (data_dir orc) u) of
        None \<Rightarrow> None
      | Some content \<Rightarrow>
          let t = read_last_lines content n in if trim t = [] then None else Some t)"


section \<open>Start and stop\<close>

type_synonym 'a outcome = "(api_error + 'a) \<times> host"

definition teardown_fc :: "orch \<Rightarrow> string \<Rightarrow> string option \<Rightarrow> host \<Rightarrow> unit outcome" where
  "teardown_fc orc u img h =
     (let (complete, h') = kill_fc_child_for_uuid orc u img h
      in (if complete then Inr () else Inl (Core TeardownUnconfirmed), h'))"

definition save_record :: "RunnerHandle \<Rightarrow> host \<Rightarrow> unit outcome" where
  "save_record r h =
     (case do_save r h of (Inl _, h') \<Rightarrow> (Inl (Core RecordNotSaved), h') | (Inr _, h') \<Rightarrow> (Inr (), h'))"

text \<open>Sequencing with early return, for the \<open>?\<close> operator.\<close>

definition and_then :: "'a outcome \<Rightarrow> ('a \<Rightarrow> host \<Rightarrow> 'b outcome) \<Rightarrow> 'b outcome" where
  "and_then m k = (case m of (Inl e, h) \<Rightarrow> (Inl e, h) | (Inr x, h) \<Rightarrow> k x h)"

definition shut_down :: "orch \<Rightarrow> string \<Rightarrow> u32 \<Rightarrow> host \<Rightarrow> unit outcome" where
  "shut_down orc u pd h =
     (case shutdown_runner_definitive orc u pd h of
        (Inl e, h') \<Rightarrow> (Inl (Core e), h') | (Inr _, h') \<Rightarrow> (Inr (), h'))"

definition reap_runner_for_cold_respawn :: "orch \<Rightarrow> RunnerHandle \<Rightarrow> host \<Rightarrow> unit outcome" where
  "reap_runner_for_cold_respawn orc r h =
     and_then (shut_down orc (uuid r) (pid r) h) (\<lambda>_ h1.
       and_then (teardown_fc orc (uuid r) (image_ref r) h1) (\<lambda>_ h2.
         save_record (r\<lparr>pid := 0\<rparr>) h2))"

definition reap_untracked :: "orch \<Rightarrow> string \<Rightarrow> host \<Rightarrow> unit outcome" where
  "reap_untracked orc u h =
     and_then (shut_down orc u 0 h) (\<lambda>_ h1. teardown_fc orc u None h1)"

definition reap_before_spawn :: "orch \<Rightarrow> string \<Rightarrow> RunnerHandle option \<Rightarrow> bool \<Rightarrow> host \<Rightarrow> unit outcome" where
  "reap_before_spawn orc u existing there h =
     (case existing of
        Some r \<Rightarrow> reap_runner_for_cold_respawn orc r h
      | None \<Rightarrow> if there then reap_untracked orc u h else (Inr (), h))"

definition spawned :: "orch \<Rightarrow> SpawnSpec \<Rightarrow> host \<Rightarrow> RunnerHandle outcome" where
  "spawned orc spec h =
     (case spawn_runner orc spec h of (Inl e, h') \<Rightarrow> (Inl (Core e), h') | (Inr r, h') \<Rightarrow> (Inr r, h'))"

definition wants_to_run :: "RunnerHandle option \<Rightarrow> bool" where
  "wants_to_run existing = (case existing of Some r \<Rightarrow> \<not> stopped r | None \<Rightarrow> False)"

definition start_app :: "orch \<Rightarrow> waiting \<Rightarrow> string \<Rightarrow> string option \<Rightarrow> host \<Rightarrow> AppSummary outcome" where
  "start_app orc w u rt h =
     (case app_ula_for orc u of
        Inl e \<Rightarrow> (Inl e, h)
      | Inr ula \<Rightarrow>
     (case spawn_spec_for_start orc u h of
        Inl e \<Rightarrow> (Inl (Core e), h)
      | Inr (spec, existing) \<Rightarrow>
     (case runner_health_for orc h u of
        Inl e \<Rightarrow> (Inl e, h)
      | Inr reply \<Rightarrow>
     (case socket_present orc h u (reply \<noteq> None) of
        Inl e \<Rightarrow> (Inl e, h)
      | Inr there \<Rightarrow>
          if wants_to_run existing \<and> reply \<noteq> None then (Inr (running_summary u ula rt), h)
          else if wants_to_run existing \<and> runner_pid_may_still_match h u (pid (the existing))
          then (Inl DuplicateRunner, h)
          else and_then (reap_before_spawn orc u existing there h) (\<lambda>_ h1.
               and_then (spawned orc spec h1) (\<lambda>r h2.
               (case wait_healthy (between w) (control_sock r) (polls w) h2 of
                  (None, h3) \<Rightarrow> (Inl NeverHealthy, h3)
                | (Some _, h3) \<Rightarrow> (Inr (running_summary u ula rt), h3))))))))"

definition stop_recorded :: "orch \<Rightarrow> RunnerHandle \<Rightarrow> host \<Rightarrow> unit outcome" where
  "stop_recorded orc r h =
     and_then (save_record (r\<lparr>stopped := True\<rparr>) h) (\<lambda>_ h1.
     and_then (shut_down orc (uuid r) (pid r) h1) (\<lambda>_ h2.
     and_then (teardown_fc orc (uuid r) (image_ref r) h2) (\<lambda>_ h3.
       save_record (r\<lparr>stopped := True, pid := 0\<rparr>) h3)))"

definition stop_locked :: "orch \<Rightarrow> string \<Rightarrow> host \<Rightarrow> unit outcome" where
  "stop_locked orc u h =
     (case load_runner_record orc h u of
        Inl e \<Rightarrow> (Inl (Core e), h)
      | Inr None \<Rightarrow> reap_untracked orc u h
      | Inr (Some r) \<Rightarrow> stop_recorded orc r h)"

definition stop_app :: "orch \<Rightarrow> string \<Rightarrow> host \<Rightarrow> unit outcome" where
  "stop_app orc u h =
     (case app_ula_for orc u of Inl e \<Rightarrow> (Inl e, h) | Inr _ \<Rightarrow> stop_locked orc u h)"

section \<open>Snapshot and reset\<close>

definition command :: "nat \<Rightarrow> Cmd \<Rightarrow> host \<Rightarrow> string \<Rightarrow> Reply option" where
  "command deadline cmd h sock =
     Option.bind (listening h sock) (\<lambda>e. if ep_delay e < deadline then ep_reply e cmd else None)"

definition snapshot_app :: "orch \<Rightarrow> host \<Rightarrow> string \<Rightarrow> api_error + unit" where
  "snapshot_app orc h u =
     (case app_ula_for orc u of
        Inl e \<Rightarrow> Inl e
      | Inr _ \<Rightarrow> (case command DEPLOY_TIMEOUT SnapshotCmd h (control_sock_for orc u) of
            None \<Rightarrow> Inl TransportFailed
          | Some OkReply \<Rightarrow> Inr ()
          | Some (ErrReply message) \<Rightarrow> Inl (RunnerRejected message)
          | Some _ \<Rightarrow> Inl UnexpectedReply))"

definition unreset :: "RunnerHandle \<Rightarrow> RunnerHandle" where
  "unreset r = r\<lparr>restart := reset (restart r), crash_looped := False, stopped := False\<rparr>"

definition reset_app :: "orch \<Rightarrow> string \<Rightarrow> host \<Rightarrow> AppSummary outcome" where
  "reset_app orc u h =
     (case app_ula_for orc u of
        Inl e \<Rightarrow> (Inl e, h)
      | Inr _ \<Rightarrow> (case load_runner_record orc h u of
            Inl e \<Rightarrow> (Inl (Core e), h)
          | Inr None \<Rightarrow> (Inl NoRunnerRecord, h)
          | Inr (Some r) \<Rightarrow>
              and_then (save_record (unreset r) h) (\<lambda>_ h1.
                let (out, h2) = reconcile_record_locked orc (unreset r) h1 in
                if out = RespawnFailed \<or> out = Missing \<or> out = Busy then (Inl (ReconcileFailed out), h2)
                else case load_runner_record orc h2 u of
                  Inl e \<Rightarrow> (Inl (Core e), h2)
                | Inr None \<Rightarrow> (Inl NoRunnerRecord, h2)
                | Inr (Some r') \<Rightarrow>
                    (Inr (record_summary r' (socket_state h2 (control_sock_for orc u)) (clock h2)), h2))))"

section \<open>Deploy\<close>

record formats =
  cap_text :: cap_json
  managed :: managed_toml
  log_text :: "string \<Rightarrow> string option"

definition SWAP_MAX_ATTEMPTS :: nat where "SWAP_MAX_ATTEMPTS = 3"

fun swap_with_retry :: "nat \<Rightarrow> (host \<Rightarrow> host) \<Rightarrow> string \<Rightarrow> string \<Rightarrow> host \<Rightarrow> unit outcome" where
  "swap_with_retry 0 world sock reff h = (Inl TransportFailed, h)"
| "swap_with_retry (Suc n) world sock reff h =
     (case command DEPLOY_TIMEOUT (Deploy reff) h sock of
        Some OkReply \<Rightarrow> (Inr (), h)
      | Some (ErrReply message) \<Rightarrow> (Inl (RunnerRejected message), h)
      | Some _ \<Rightarrow> (Inl UnexpectedReply, h)
      | None \<Rightarrow> if n = 0 then (Inl TransportFailed, h) else swap_with_retry n world sock reff (world h))"

definition persist_warm_deploy ::
  "orch \<Rightarrow> RunnerHandle \<Rightarrow> string option \<Rightarrow> string \<Rightarrow> host \<Rightarrow> unit outcome" where
  "persist_warm_deploy orc r previous_ref reff h =
     (case do_save r h of
        (Inr _, h1) \<Rightarrow> (Inr (), h1)
      | (Inl _, h1) \<Rightarrow>
          (let (res, h2) = shut_down orc (uuid r) (pid r) h1;
               (complete, h3) = kill_fc_child_for_uuid orc (uuid r) (Some reff) h2;
               (complete', h4) = (case previous_ref of
                  None \<Rightarrow> (True, h3) | Some prev \<Rightarrow> kill_fc_child_for_uuid orc (uuid r) (Some prev) h3)
           in (case res of
                 Inl e \<Rightarrow> (Inl e, h4)
               | Inr _ \<Rightarrow> (Inl (Core (if complete \<and> complete' then RecordNotSaved else TeardownUnconfirmed)), h4))))"

definition warm_record :: "RunnerHandle \<Rightarrow> DeployBody \<Rightarrow> string option \<Rightarrow> RunnerHandle" where
  "warm_record r body manifest =
     r\<lparr>image_ref := Some (db_reff body), manifest_toml := manifest,
       network := opt_or (dn_network (db_net body)) (network r),
       runner_join_token := opt_or (dn_runner_join_token (db_net body)) (runner_join_token r),
       extra_env := opt_or (db_extra_env body) (extra_env r),
       egress_allow := opt_or (db_egress_allow body) (egress_allow r)\<rparr>"

definition deploy_warm ::
  "orch \<Rightarrow> waiting \<Rightarrow> string \<Rightarrow> RunnerHandle \<Rightarrow> DeployBody \<Rightarrow> string option \<Rightarrow> host \<Rightarrow> unit outcome" where
  "deploy_warm orc w u r body manifest h =
     and_then (swap_with_retry SWAP_MAX_ATTEMPTS (between w) (control_sock_for orc u) (db_reff body) h) (\<lambda>_ h1.
       persist_warm_deploy orc (warm_record r body manifest) (image_ref r) (db_reff body) h1)"

definition deploy_cold ::
  "orch \<Rightarrow> formats \<Rightarrow> waiting \<Rightarrow> string \<Rightarrow> RunnerHandle option \<Rightarrow> bool \<Rightarrow> DeployBody \<Rightarrow> string option \<Rightarrow>
   host \<Rightarrow> unit outcome" where
  "deploy_cold orc fm w u existing there body manifest h =
     and_then (reap_before_spawn orc u existing there h) (\<lambda>_ h1.
     and_then (spawned orc (spawn_spec_for_deploy orc u existing body manifest h1) h1) (\<lambda>r h2.
       case wait_cold_serving (between w) (control_sock r) (pid r) (polls w) None h2 of
         (ColdServing, h3) \<Rightarrow> (Inr (), h3)
       | (ColdCrashLoop reason, h3) \<Rightarrow>
           (Inl (ColdStartUnhealthy reason
                  (Option.bind (runner_log_tail (log_text fm) orc u 40) boot_failure_diagnostic)), h3)))"

definition env_changed :: "orch \<Rightarrow> formats \<Rightarrow> env_map option \<Rightarrow> RunnerHandle option \<Rightarrow> bool" where
  "env_changed orc fm vars existing =
     (case (vars, existing) of
        (Some _, Some r) \<Rightarrow>
          effective_env_hash (digest orc) (cap_text fm) vars \<noteq>
          effective_env_hash (digest orc) (cap_text fm) (extra_env r)
      | _ \<Rightarrow> False)"

definition deploy_locked ::
  "orch \<Rightarrow> formats \<Rightarrow> waiting \<Rightarrow> string \<Rightarrow> DeployBody \<Rightarrow> host \<Rightarrow> unit outcome" where
  "deploy_locked orc fm w u body h =
     (case load_runner_record orc h u of
        Inl e \<Rightarrow> (Inl (Core e), h)
      | Inr existing \<Rightarrow>
     (let persisted = Option.bind existing manifest_toml;
          manifest = retained (db_manifest_toml body) persisted in
      case stateful_regression (managed fm) persisted manifest of
        Some reg \<Rightarrow> (Inl (Regression reg), h)
      | None \<Rightarrow>
     (case runner_health_for orc h u of
        Inl e \<Rightarrow> (Inl e, h)
      | Inr reply \<Rightarrow>
     (case socket_present orc h u (reply \<noteq> None) of
        Inl e \<Rightarrow> (Inl e, h)
      | Inr there \<Rightarrow>
          if reply \<noteq> None \<and> wants_to_run existing \<and> \<not> env_changed orc fm (db_extra_env body) existing
          then deploy_warm orc w u (the existing) body manifest h
          else deploy_cold orc fm w u existing there body manifest h))))"

definition begin_deploy :: "string \<Rightarrow> host \<Rightarrow> host" where
  "begin_deploy u h = h\<lparr>deploying := List.insert u (deploying h)\<rparr>"

definition end_deploy :: "string \<Rightarrow> host \<Rightarrow> host" where
  "end_deploy u h = h\<lparr>deploying := removeAll u (deploying h)\<rparr>"

definition deploy_app ::
  "orch \<Rightarrow> formats \<Rightarrow> waiting \<Rightarrow> string \<Rightarrow> DeployBody \<Rightarrow> host \<Rightarrow> AppSummary outcome" where
  "deploy_app orc fm w u body h =
     (case app_ula_for orc u of
        Inl e \<Rightarrow> (Inl e, h)
      | Inr ula \<Rightarrow>
          (let (res, h1) = deploy_locked orc fm w u body (begin_deploy u h)
           in (case res of Inl e \<Rightarrow> Inl e
                 | Inr _ \<Rightarrow> Inr (running_summary u ula (db_runtime_override body)), end_deploy u h1)))"


section \<open>Purge\<close>

text \<open>The host with what only a purge removes: the cached artifacts by app, the link assignments, the
  auxiliary files by path, and the entries of the legacy graveyard (\<open>None\<close>: missing or unreadable).\<close>

record node =
  nd_host :: host
  nd_cached :: "string list"
  nd_links :: assign_file
  nd_aux :: "string list"
  nd_stale :: "string list option"

text \<open>How the calls a purge makes outside the host end.\<close>

record purge_env =
  pe_links :: link_env
  pe_root_exists :: bool
  pe_live :: "LiveLinks option"
  pe_cache_ok :: bool
  pe_remove_ok :: "string \<Rightarrow> bool"
  pe_record_ok :: bool

definition purge_cache :: "bool \<Rightarrow> string \<Rightarrow> node \<Rightarrow> bool \<times> node" where
  "purge_cache io_ok u n =
     (if u \<notin> set (nd_cached n) then (True, n)
      else if io_ok then (True, n\<lparr>nd_cached := removeAll u (nd_cached n)\<rparr>) else (False, n))"

definition remove_artifact_file :: "(string \<Rightarrow> bool) \<Rightarrow> string \<Rightarrow> string list \<Rightarrow> string list" where
  "remove_artifact_file io_ok p ps = (if io_ok p then removeAll p ps else ps)"

definition aux_paths :: "orch \<Rightarrow> string \<Rightarrow> string list" where
  "aux_paths orc u =
     (let d = data_dir orc; runner_log = runner_log_path d u in
      [join_path (join_path d ''runners'') (u @ ''.meshkey''), rotated_log_path runner_log, runner_log,
       control_sock_for orc u, console_log_path d u, join_path (join_path d ''build'') (u @ ''.log''),
       join_path (join_path d ''build'') (u @ ''.progress.log'')])"

definition LEGACY_STALE_RUNNERS_DIR :: string where "LEGACY_STALE_RUNNERS_DIR = ''runners.stale''"

definition stale_path :: "orch \<Rightarrow> string \<Rightarrow> string" where
  "stale_path orc name = join_path (join_path (data_dir orc) LEGACY_STALE_RUNNERS_DIR) name"

definition remove_stale_graveyard_entries ::
  "orch \<Rightarrow> (string \<Rightarrow> bool) \<Rightarrow> string \<Rightarrow> string list option \<Rightarrow> string list option" where
  "remove_stale_graveyard_entries orc io_ok u stale =
     map_option (filter (\<lambda>name. \<not> (starts_with (u @ ''.'') name \<and> io_ok (stale_path orc name)))) stale"

definition remove_app_artifacts :: "orch \<Rightarrow> (string \<Rightarrow> bool) \<Rightarrow> string \<Rightarrow> node \<Rightarrow> node" where
  "remove_app_artifacts orc io_ok u n =
     n\<lparr>nd_aux := fold (remove_artifact_file io_ok) (aux_paths orc u) (nd_aux n),
       nd_stale := remove_stale_graveyard_entries orc io_ok u (nd_stale n)\<rparr>"

text \<open>The \<open>Purge\<close> command to a live runner only clears the cache that is removed below anyway, and its
  answer is ignored, so it does not appear.\<close>

definition purge_app :: "orch \<Rightarrow> purge_env \<Rightarrow> string \<Rightarrow> node \<Rightarrow> (api_error + unit) \<times> node" where
  "purge_app orc env u n =
     (case app_ula_for orc u of
        Inl e \<Rightarrow> (Inl e, n)
      | Inr _ \<Rightarrow>
     (case stop_locked orc u (nd_host n) of
        (Inl e, h) \<Rightarrow> (Inl e, n\<lparr>nd_host := h\<rparr>)
      | (Inr _, h) \<Rightarrow>
     (case purge_cache (pe_cache_ok env) u (n\<lparr>nd_host := h\<rparr>) of
        (False, n1) \<Rightarrow> (Inl CachePurgeFailed, n1)
      | (True, n1) \<Rightarrow>
     (case release_uuid (pe_links env) (pe_root_exists env) u (pe_live env) (nd_links n1) of
        (Inl e, links') \<Rightarrow> (Inl (LinkReleaseFailed e), n1\<lparr>nd_links := links'\<rparr>)
      | (Inr _, links') \<Rightarrow>
     (let n2 = remove_app_artifacts orc (pe_remove_ok env) u (n1\<lparr>nd_links := links'\<rparr>) in
      case forget_record u (pe_record_ok env) (records (nd_host n2)) of
        (Inl _, _) \<Rightarrow> (Inl (Core RecordNotDeleted), n2)
      | (Inr _, d) \<Rightarrow> (Inr (), n2\<lparr>nd_host := (nd_host n2)\<lparr>records := d\<rparr>\<rparr>))))))"

text \<open>The sweep of the graveyard at startup: an entry goes when its uuid has no record.\<close>

definition graveyard_keeps :: "host \<Rightarrow> string \<Rightarrow> bool" where
  "graveyard_keeps h name =
     (case split_once CHR ''.'' name of
        None \<Rightarrow> True
      | Some (u, _) \<Rightarrow> u = [] \<or> map_of (files (records h)) (record_path u) \<noteq> None)"

definition sweep_stale_runner_graveyard :: "orch \<Rightarrow> (string \<Rightarrow> bool) \<Rightarrow> node \<Rightarrow> node" where
  "sweep_stale_runner_graveyard orc io_ok n =
     n\<lparr>nd_stale := map_option
         (filter (\<lambda>name. graveyard_keeps (nd_host n) name \<or> \<not> io_ok (stale_path orc name))) (nd_stale n)\<rparr>"

section \<open>The host an operation leaves\<close>

lemma snd_save_record: "snd (save_record r h) = snd (do_save r h)"
  by (auto simp: save_record_def split: prod.splits sum.splits)

lemma snd_teardown: "snd (teardown_fc orc v img h) = snd (kill_fc_child_for_uuid orc v img h)"
  by (simp add: teardown_fc_def case_prod_unfold Let_def)

lemma snd_shut_down: "snd (shut_down orc v pd h) = snd (shutdown_runner_definitive orc v pd h)"
  by (auto simp: shut_down_def split: prod.splits sum.splits)

lemma and_then_cases:
  "snd (and_then m k) = (case fst m of Inl _ \<Rightarrow> snd m | Inr x \<Rightarrow> snd (k x (snd m)))"
  by (cases m) (auto simp: and_then_def split: sum.splits)

end
