(* ===== verification/Fleet.thy ===== *)
theory Fleet
  imports Lifecycle
begin

text \<open>
  The fleet as a transition system: every operation of the control API and of the monitor on one app,
  and the moves of the world around it, with the invariant that no reachable host runs an app twice.
\<close>

section \<open>The invariant\<close>

fun born_pids :: "birth list \<Rightarrow> u32 list" where
  "born_pids [] = []"
| "born_pids (Born nb # bs) = nb_pid nb # born_pids bs"
| "born_pids (NoExec # bs) = born_pids bs"
| "born_pids (NoPid # bs) = born_pids bs"

definition has_record :: "host \<Rightarrow> string \<Rightarrow> bool" where
  "has_record h u \<longleftrightarrow> map_of (files (records h)) (record_path u) \<noteq> None"

text \<open>A host on which SIGKILL works, \<open>/proc\<close> can be listed, the record directory is there and the
  kernel gives new processes new pids.\<close>

definition sane :: "host \<Rightarrow> bool" where
  "sane h \<longleftrightarrow>
     wf_procs h \<and> proc_listable h \<and> present (records h) \<and>
     (\<forall>pd p. find_proc h pd = Some p \<longrightarrow> \<not> unkillable p) \<and>
     (\<forall>nb. Born nb \<in> set (births h) \<longrightarrow> nb_pid nb \<noteq> 0 \<and> \<not> nb_unkillable nb \<and> find_proc h (nb_pid nb) = None) \<and>
     distinct (born_pids (births h))"

text \<open>At most one process carries the app's identity, and a process that does has a record.\<close>

definition one_runner :: "string \<Rightarrow> host \<Rightarrow> bool" where
  "one_runner u h \<longleftrightarrow>
     sane h \<and> length (runner_pids_for_uuid h u) \<le> 1 \<and>
     (runner_pids_for_uuid h u \<noteq> [] \<longrightarrow> has_record h u)"

text \<open>What the world may do on its own: processes come and go, but none with the app's identity comes,
  and the app's record stays.\<close>

definition world_step :: "string \<Rightarrow> host \<Rightarrow> host \<Rightarrow> bool" where
  "world_step u h h' \<longleftrightarrow>
     sane h' \<and> set (runner_pids_for_uuid h' u) \<subseteq> set (runner_pids_for_uuid h u) \<and>
     (has_record h u \<longrightarrow> has_record h' u)"

lemma born_pids_mem: "Born nb \<in> set bs \<Longrightarrow> nb_pid nb \<in> set (born_pids bs)"
  by (induction bs rule: born_pids.induct) auto

lemma distinct_runner_pids: "wf_procs h \<Longrightarrow> distinct (runner_pids_for_uuid h u)"
  unfolding runner_pids_for_uuid_def select_matching_runner_pids_def readable_pids
  by (simp add: wf_procs_def distinct_map_filter)

lemma world_one_runner:
  assumes "one_runner u h" "world_step u h h'"
  shows "one_runner u h'"
proof -
  have "wf_procs h" "wf_procs h'" using assms by (simp_all add: one_runner_def world_step_def sane_def)
  then have "length (runner_pids_for_uuid h' u) \<le> length (runner_pids_for_uuid h u)"
    using assms(2) distinct_card [OF distinct_runner_pids] card_mono [OF finite_set]
    unfolding world_step_def by metis
  with assms show ?thesis by (auto simp: one_runner_def world_step_def)
qed

lemma aged_world:
  assumes "ages h h'" "sane h"
  shows "world_step u h h'"
proof -
  have wf: "wf_procs h" using assms(2) by (simp add: sane_def)
  have o: "only_procs h h'" using assms(1) by (simp add: ages_def)
  have gone: "find_proc h pd = None \<Longrightarrow> find_proc h' pd = None" for pd
    using assms(1) unfolding ages_def by (metis not_None_eq option.distinct(1))
  have "\<not> unkillable p'" if "find_proc h' pd = Some p'" for pd p'
    using assms that core_fields(5) unfolding ages_def sane_def by metis
  then have "sane h'"
    using assms gone only_procs_fields [OF o] by (auto simp: sane_def ages_def)
  moreover have "set (runner_pids_for_uuid h' u) \<subseteq> set (runner_pids_for_uuid h u)"
  proof
    fix pd assume pd: "pd \<in> set (runner_pids_for_uuid h' u)"
    then have "find_proc h' pd \<noteq> None" using runner_pids_iff assms(1) unfolding ages_def by fastforce
    with pd runner_pids_aged [OF wf assms(1)] show "pd \<in> set (runner_pids_for_uuid h u)" by blast
  qed
  ultimately show ?thesis
    using only_procs_fields(3) [OF o] by (simp add: world_step_def has_record_def)
qed

lemma world_refl: "sane h \<Longrightarrow> world_step u h h"
  by (simp add: world_step_def)

lemma world_trans: "world_step u h h' \<Longrightarrow> world_step u h' h'' \<Longrightarrow> world_step u h h''"
  by (auto simp: world_step_def)

lemma world_sane: "world_step u h h' \<Longrightarrow> sane h'"
  by (simp add: world_step_def)

lemma world_idle: "world_step u h h' \<Longrightarrow> runner_pids_for_uuid h u = [] \<Longrightarrow> runner_pids_for_uuid h' u = []"
  by (simp add: world_step_def)

lemma world_fewer: "fewer_procs h h' \<Longrightarrow> sane h \<Longrightarrow> world_step u h h'"
  by (rule aged_world [OF ages_fewer]) (auto simp: sane_def)

section \<open>The pieces of an operation\<close>

lemma files_save: "map_of (files d) k \<noteq> None \<Longrightarrow> map_of (files (snd (save io r d))) k \<noteq> None"
  by (cases io) (auto simp: save_def put_file_def update_conv')

lemma has_record_save: "has_record h u \<Longrightarrow> has_record (snd (do_save r h)) u"
  unfolding has_record_def records_do_save by (rule files_save)

lemma world_save: "sane h \<Longrightarrow> world_step u h (snd (do_save r h))"
  using has_record_save by (simp add: world_step_def sane_def wf_procs_def)

lemma has_record_saved: "fst (do_save r h) = Inr () \<Longrightarrow> has_record (snd (do_save r h)) (uuid r)"
  using do_save_ok [of r h]
  by (auto simp: has_record_def load_def split: if_splits option.splits)

lemma world_deferral: "sane h \<Longrightarrow> world_step u h (snd (pull_deferral_active orc v now h))"
  by (simp add: world_step_def sane_def wf_procs_def find_proc_def has_record_def runner_pids_for_uuid_def)

lemma world_kill_fc: "sane h \<Longrightarrow> world_step u h (snd (kill_fc_child_for_uuid orc v img h))"
  by (rule world_fewer [OF fewer_kill_fc])

lemma ages_shutdown: "wf_procs h \<Longrightarrow> ages h (snd (shutdown_runner_definitive orc u pd h))"
proof (cases "recovered_pids orc u h")
  case (Inl e)
  then show "wf_procs h \<Longrightarrow> ?thesis" by (simp add: shutdown_runner_definitive_def ages_refl)
next
  case (Inr healthy)
  assume wf: "wf_procs h"
  define h1 where "h1 = snd (shutdown_cmd h (control_sock_for orc u))"
  have a1: "ages h h1" unfolding h1_def by (rule ages_shutdown_cmd [OF wf])
  then have w1: "wf_procs h1" by (simp add: ages_def)
  have wait: "ages h (snd (wait_runner_exit orc u known unc n h1))" for known unc n
    by (rule ages_trans [OF a1 ages_wait [OF w1]])
  have wait2: "ages h (snd (wait_runner_exit orc u known' unc' m
      (fold (kill_validated u) live (snd (wait_runner_exit orc u known unc n h1)))))"
    for known unc n live known' unc' m
  proof -
    let ?h2 = "snd (wait_runner_exit orc u known unc n h1)"
    have w2: "wf_procs ?h2" using wait by (simp add: ages_def)
    have "ages ?h2 (fold (kill_validated u) live ?h2)" by (rule ages_fewer [OF fewer_kill_all_validated w2])
    then have a: "ages h (fold (kill_validated u) live ?h2)" by (rule ages_trans [OF wait])
    then have "wf_procs (fold (kill_validated u) live ?h2)" by (simp add: ages_def)
    then show ?thesis by (rule ages_trans [OF a ages_wait])
  qed
  define unc where "unc = (if runner_pid_identity h pd u = Unknown then Some pd else None)"
  define known where "known = remdups (healthy @ (if runner_pid_identity h pd u = Matches then [pd] else [])
      @ runner_pids_for_uuid h u)"
  define w2 where "w2 = wait_runner_exit orc u known unc (reap_polls h1) h1"
  define known' where "known' = remdups (known @ runner_pids_for_uuid (snd w2) u)"
  define live where "live = filter (\<lambda>pd. runner_identity_allows_sigkill (runner_pid_identity (snd w2) pd u))
      (known' @ (case unc of Some pd \<Rightarrow> [pd] | None \<Rightarrow> []))"
  define h3 where "h3 = fold (kill_validated u) live (snd w2)"
  have res: "snd (shutdown_runner_definitive orc u pd h) =
      (if fst w2 then snd w2 else snd (wait_runner_exit orc u known' unc (reap_polls h3) h3))"
    by (simp add: shutdown_runner_definitive_def Inr Let_def case_prod_unfold unc_def known_def h1_def
        w2_def known'_def live_def h3_def)
  show ?thesis unfolding res unfolding h3_def w2_def using wait wait2 by auto
qed

lemma world_shutdown: "sane h \<Longrightarrow> world_step u h (snd (shutdown_runner_definitive orc v pd h))"
  by (rule aged_world [OF ages_shutdown]) (simp_all add: sane_def)

text \<open>A spawn on a host where nothing of the app runs.\<close>

lemma one_runner_spawn:
  assumes "sane h" "runner_pids_for_uuid h (sp_uuid spec) = []"
  shows "one_runner (sp_uuid spec) (snd (spawn_runner orc spec h))"
proof -
  let ?u = "sp_uuid spec"
  have idle: "one_runner ?u h'" if "sane h'" "runner_pids_for_uuid h' ?u = []" for h'
    using that by (simp add: one_runner_def)
  define h0 where "h0 = open_runner_log (sp_data_dir spec) ?u h"
  have s0: "sane h0" "runner_pids_for_uuid h0 ?u = []"
    using assms by (simp_all add: h0_def sane_def wf_procs_def find_proc_def runner_pids_for_uuid_def)
  have tail: "sane (h0\<lparr>births := bs\<rparr>)" if "births h0 = b # bs" for b bs
    using s0(1) that by (cases b) (simp_all add: sane_def wf_procs_def find_proc_def)
  have tail_idle: "runner_pids_for_uuid (h0\<lparr>births := bs\<rparr>) ?u = []" for bs
    by (rule trans [OF runner_pids_cong s0(2)]) simp_all
  show ?thesis
  proof (cases "parse_uuid orc ?u = None \<or> has_nul orc spec \<or> births h0 = [] \<or>
      hd (births h0) = NoExec \<or> hd (births h0) = NoPid")
    case True
    show ?thesis
    proof (cases "parse_uuid orc ?u")
      case None
      then show ?thesis using idle assms by (simp add: spawn_runner_def)
    next
      case (Some bytes)
      then show ?thesis
        using True idle [OF s0] idle [OF tail tail_idle]
        by (cases "births h0") (auto simp: spawn_runner_def Let_def h0_def [symmetric])
    qed
  next
    case False
    then obtain bytes and nb :: newborn and rest where b: "parse_uuid orc ?u = Some bytes" "births h0 = Born nb # rest"
      "\<not> has_nul orc spec"
      by (cases "births h0"; cases "hd (births h0)") auto
    define p where "p = spawned_proc orc spec nb"
    define h1 where "h1 = h0\<lparr>births := rest, procs := procs h0 @ [(nb_pid nb, p)]\<rparr>"
    define r where "r = spawned_handle orc spec bytes (nb_pid nb) (clock h1)"
    have r: "uuid r = ?u" "pid r = nb_pid nb" by (simp_all add: r_def spawned_handle_def)
    have "Born nb \<in> set (births h0)" using b(2) by simp
    then have nb: "nb_pid nb \<noteq> 0" "\<not> nb_unkillable nb" "find_proc h0 (nb_pid nb) = None"
      using s0(1) unfolding sane_def by blast+
    have found: "find_proc h1 pd = (if pd = nb_pid nb then Some p else find_proc h0 pd)" for pd
      using nb(3) by (auto simp: find_proc_def h1_def map_add_def split: option.splits)
    have dist: "distinct (nb_pid nb # born_pids rest)"
      using s0(1) unfolding sane_def b(2) by simp
    have fresh: "nb_pid nb' \<noteq> nb_pid nb" if "Born nb' \<in> set rest" for nb'
      using dist born_pids_mem [OF that] by auto
    have f1: "proc_listable h1 = proc_listable h0" "records h1 = records h0" "births h1 = rest"
      by (simp_all add: h1_def)
    have "fst ` set (procs h0) = {pd. find_proc h0 pd \<noteq> None}"
      by (auto simp: find_proc_def map_of_eq_None_iff)
    then have wf1: "wf_procs h1" using s0(1) nb(3) by (auto simp: wf_procs_def sane_def h1_def)
    have "\<not> unkillable p" using nb(2) by (simp add: p_def spawned_proc_def)
    then have k1: "\<forall>pd q. find_proc h1 pd = Some q \<longrightarrow> \<not> unkillable q"
      using s0(1) unfolding found sane_def by (metis option.inject)
    have sub: "set rest \<subseteq> set (births h0)" using b(2) by auto
    have b1: "\<forall>nb'. Born nb' \<in> set rest \<longrightarrow>
        nb_pid nb' \<noteq> 0 \<and> \<not> nb_unkillable nb' \<and> find_proc h1 (nb_pid nb') = None"
      using s0(1) sub fresh unfolding found sane_def by (metis subsetD)
    have "proc_listable h1" "present (records h1)" using s0(1) unfolding f1 sane_def by blast+
    then have s1: "sane h1" using wf1 k1 b1 dist unfolding sane_def f1 by simp
    have only: "set (runner_pids_for_uuid h1 ?u) \<subseteq> {nb_pid nb}"
    proof
      fix pd assume "pd \<in> set (runner_pids_for_uuid h1 ?u)"
      then obtain q where q: "proc_listable h1" "find_proc h1 pd = Some q" "runner_proc ?u q"
        using runner_pids_iff [OF wf1] by blast
      have "pd \<in> set (runner_pids_for_uuid h0 ?u)" if "pd \<noteq> nb_pid nb"
        using that q s0(1) found runner_pids_iff [of h0 pd ?u] by (simp add: sane_def f1)
      with s0(2) show "pd \<in> {nb_pid nb}" by auto
    qed
    define hs where "hs = snd (do_save r h1)"
    have ws: "world_step ?u h1 hs" unfolding hs_def by (rule world_save [OF s1])
    have sp: "snd (spawn_runner orc spec h) = snd (persist_handle_or_reap orc r h1)"
      using b by (simp add: spawn_runner_def Let_def case_prod_unfold h0_def [symmetric] h1_def r_def p_def
          split: sum.splits)
    have onlys: "set (runner_pids_for_uuid hs ?u) \<subseteq> {nb_pid nb}" using only ws by (auto simp: world_step_def)
    show ?thesis
    proof (cases "fst (do_save r h1)")
      case (Inr x)
      then have "has_record hs ?u" using has_record_saved [of r h1] r by (simp add: hs_def)
      moreover have "length (runner_pids_for_uuid hs ?u) \<le> 1"
        using distinct_card [OF distinct_runner_pids, of hs ?u] card_mono [OF _ onlys] world_sane [OF ws]
        by (simp add: sane_def)
      moreover have "snd (spawn_runner orc spec h) = hs"
        using Inr by (simp add: sp persist_handle_or_reap_def Let_def case_prod_unfold hs_def)
      ultimately show ?thesis using world_sane [OF ws] by (simp add: one_runner_def)
    next
      case (Inl e)
      define h2 where "h2 = kill_pid (nb_pid nb) hs"
      have w2: "world_step ?u hs h2" unfolding h2_def by (rule world_fewer [OF fewer_kill_pid world_sane [OF ws]])
      have "find_proc h2 (nb_pid nb) = None"
      proof (rule ccontr)
        assume "find_proc h2 (nb_pid nb) \<noteq> None"
        then obtain q where "(nb_pid nb, q) \<in> set (procs h2)" using find_proc_SomeD by blast
        then have "(nb_pid nb, q) \<in> set (procs hs)" "unkillable q"
          using nb(1) by (auto simp: h2_def kill_pid_def remove_pid_def)
        with world_sane [OF ws] show False using find_proc_mem by (fastforce simp: sane_def)
      qed
      then have "nb_pid nb \<notin> set (runner_pids_for_uuid h2 ?u)"
        using runner_pids_iff world_sane [OF w2] by (simp add: sane_def)
      then have "runner_pids_for_uuid h2 ?u = []"
        using onlys w2 by (cases "runner_pids_for_uuid h2 ?u") (auto simp: world_step_def)
      moreover have k: "world_step ?u h2 (snd (kill_fc_child_for_uuid orc ?u (image_ref r) h2))"
        by (rule world_kill_fc [OF world_sane [OF w2]])
      moreover have "snd (spawn_runner orc spec h) = snd (kill_fc_child_for_uuid orc ?u (image_ref r) h2)"
        using Inl r by (simp add: sp persist_handle_or_reap_def Let_def case_prod_unfold hs_def h2_def)
      ultimately show ?thesis using idle [OF world_sane [OF k]] world_idle [OF k] by simp
    qed
  qed
qed


section \<open>The monitor\<close>

lemma one_runner_sane: "one_runner u h \<Longrightarrow> sane h"
  by (simp add: one_runner_def)

lemma idle_one_runner: "sane h \<Longrightarrow> runner_pids_for_uuid h u = [] \<Longrightarrow> one_runner u h"
  by (simp add: one_runner_def)

lemma one_runner_save: "one_runner u h \<Longrightarrow> one_runner u (snd (do_save r h))"
  by (rule world_one_runner [OF _ world_save]) (simp_all add: one_runner_sane)

lemma one_runner_kill_fc: "one_runner u h \<Longrightarrow> one_runner u (snd (kill_fc_child_for_uuid orc v img h))"
  by (rule world_one_runner [OF _ world_kill_fc]) (simp_all add: one_runner_sane)

lemma one_runner_shutdown: "one_runner u h \<Longrightarrow> one_runner u (snd (shutdown_runner_definitive orc v pd h))"
  by (rule world_one_runner [OF _ world_shutdown]) (simp_all add: one_runner_sane)

lemma one_runner_deferral: "one_runner u h \<Longrightarrow> one_runner u (snd (pull_deferral_active orc v now h))"
  by (rule world_one_runner [OF _ world_deferral]) (simp_all add: one_runner_sane)

lemmas one_runner_quiet = one_runner_save one_runner_kill_fc one_runner_shutdown one_runner_deferral

lemma idle_kill_fc:
  "one_runner u h \<Longrightarrow> runner_pids_for_uuid h u = [] \<Longrightarrow>
     runner_pids_for_uuid (snd (kill_fc_child_for_uuid orc v img h)) u = []"
  by (rule world_idle [OF world_kill_fc]) (simp_all add: one_runner_sane)

lemma one_runner_respawn:
  assumes "one_runner u h" "runner_pids_for_uuid h u = []" "uuid r = u"
  shows "one_runner u (snd (do_respawn orc r s h))"
proof -
  define spec where "spec = port_or_backfill (spawn_spec_for (shared orc) r) h"
  have "one_runner u (snd (spawn_runner orc spec h))"
    using one_runner_spawn [of h spec orc] assms by (simp add: spec_def one_runner_sane)
  then show ?thesis
    by (cases "spawn_runner orc spec h")
      (auto simp: do_respawn_def Let_def spec_def [symmetric] one_runner_quiet split: sum.splits)
qed

lemma one_runner_after_teardown:
  assumes "one_runner u h" "runner_pids_for_uuid h u = []" "uuid r = u"
  shows "one_runner u (snd (let (complete, h1) = kill_fc_child_for_uuid orc v img h in
     if \<not> complete then (RespawnFailed, h1)
     else if CRASH_LOOP_PARK_THRESHOLD \<le> n then park_runner r s h1 else do_respawn orc r s h1))"
  using one_runner_kill_fc [OF assms(1), of orc v img] idle_kill_fc [OF assms(1,2), of orc v img]
    one_runner_respawn [OF _ _ assms(3)]
  by (auto simp: case_prod_unfold Let_def park_runner_def one_runner_quiet)

lemma one_runner_dead:
  assumes "one_runner u h" "runner_pids_for_uuid h u = []" "uuid cur = u"
  shows "one_runner u (snd (reconcile_dead orc r cur now h))"
proof -
  let ?s = "on_exit (restart r) default_BackoffParams now"
  have "reconcile_dead orc r cur now h = (if backoff_action (restart r) now = Wait then (Backoff, h)
     else let (complete, h1) = kill_fc_child_for_uuid orc (uuid cur) (image_ref cur) h in
     if \<not> complete then (RespawnFailed, h1)
     else if CRASH_LOOP_PARK_THRESHOLD \<le> consecutive_failures ?s then park_runner cur ?s h1
     else do_respawn orc cur ?s h1)"
    by (simp add: reconcile_dead_def Let_def case_prod_unfold)
  then show ?thesis using one_runner_after_teardown [OF assms] assms(1) by (simp split: if_splits)
qed

lemma one_runner_hung:
  assumes "one_runner u h" "uuid cur = u"
  shows "one_runner u (snd (reconcile_hung orc r cur now h))"
proof -
  define k where "k = shutdown_runner_definitive orc (uuid cur) (pid cur) h"
  have k: "one_runner u (snd k)" unfolding k_def by (rule one_runner_shutdown [OF assms(1)])
  have idle: "runner_pids_for_uuid (snd k) u = []" if "fst k = Inr ()"
    using shutdown_confirmed that assms(2) unfolding k_def by blast
  show ?thesis
    using one_runner_after_teardown [OF k idle assms(2), of orc "uuid cur" "image_ref cur"] k assms(1)
    by (cases k; cases "fst k") (simp_all add: reconcile_hung_def Let_def k_def [symmetric])
qed

lemma one_runner_alive:
  assumes "one_runner u h" "uuid cur = u"
  shows "one_runner u (snd (reconcile_alive orc r cur now h))"
  using one_runner_hung [OF one_runner_deferral assms(2)] assms
  by (auto simp: reconcile_alive_def adopt_health_eq Let_def case_prod_unfold one_runner_quiet
      split: HealthProbe.splits)

lemma one_runner_decided:
  assumes "one_runner u h" "uuid cur = u" "ident = Matches \<or> runner_pids_for_uuid h u = []"
  shows "one_runner u (snd (reconcile_decided orc r cur ident now h))"
  using one_runner_alive one_runner_dead assms
  by (auto simp: reconcile_decided_def persist_healthy_if_changed_def decide_pid_grace_def Let_def one_runner_quiet)

lemma one_runner_stopped:
  "one_runner u h \<Longrightarrow> one_runner u (snd (reconcile_stopped orc r h))"
  by (auto simp: reconcile_stopped_def Let_def case_prod_unfold one_runner_quiet split: sum.splits prod.splits
      dest: one_runner_shutdown [of u h orc "uuid r" "pid r"])

lemma one_runner_reconcile_locked:
  assumes "one_runner u h" "uuid r = u"
  shows "one_runner u (snd (reconcile_record_locked orc r h))"
  using assms one_runner_stopped [OF assms(1)] one_runner_decided [OF assms(1), of r] one_runner_decided [OF assms(1)]
  by (auto simp: reconcile_record_locked_def adopt_health_eq Let_def one_runner_quiet
      split: HealthProbe.splits list.splits)

lemma loaded_uuid: "load_runner_record orc h u = Inr (Some r) \<Longrightarrow> uuid r = u"
  by (auto simp: load_runner_record_def split: sum.splits option.splits if_splits)

lemma loaded_none: "load_runner_record orc h u = Inr None \<Longrightarrow> present (records h) \<Longrightarrow> \<not> has_record h u"
  by (auto simp: load_runner_record_def load_def has_record_def
      split: sum.splits option.splits if_splits file_text.splits)

lemma one_runner_reconcile: "one_runner u h \<Longrightarrow> one_runner u (snd (reconcile_record orc u h))"
  using one_runner_reconcile_locked loaded_uuid [of orc h u]
  by (auto simp: reconcile_record_def split: sum.splits option.splits)

lemma one_runner_sweep: "one_runner u h \<Longrightarrow> one_runner u (snd (sweep_orphan_fcs orc h))"
  by (rule world_one_runner [OF _ world_fewer [OF sweep_frame]]) (simp_all add: one_runner_sane)

section \<open>The operations of the API\<close>

text \<open>\<open>idle\<close>: nothing of the app runs. \<open>holds P m\<close>: the host that \<open>m\<close> leaves satisfies \<open>P\<close>, and
  \<open>Q\<close> as well when \<open>m\<close> succeeded.\<close>

definition idle :: "string \<Rightarrow> host \<Rightarrow> bool" where
  "idle u h \<longleftrightarrow> sane h \<and> runner_pids_for_uuid h u = []"

definition holds :: "(host \<Rightarrow> bool) \<Rightarrow> (host \<Rightarrow> bool) \<Rightarrow> 'a outcome \<Rightarrow> bool" where
  "holds P Q m \<longleftrightarrow> P (snd m) \<and> (\<forall>x. fst m = Inr x \<longrightarrow> Q (snd m))"

lemma holdsI: "P (snd m) \<Longrightarrow> (\<And>x. fst m = Inr x \<Longrightarrow> Q (snd m)) \<Longrightarrow> holds P Q m"
  by (simp add: holds_def)

lemma holds_fst: "holds P Q m \<Longrightarrow> P (snd m)"
  by (simp add: holds_def)

lemma holds_bind:
  assumes "holds P Q m" "\<And>x h. Q h \<Longrightarrow> holds P R (k x h)"
  shows "holds P R (and_then m k)"
proof -
  obtain res h where m: "m = (res, h)" by fastforce
  show ?thesis using assms unfolding m
    by (cases res) (simp_all add: and_then_def holds_def)
qed

lemma idle_one: "idle u h \<Longrightarrow> one_runner u h"
  by (simp add: idle_def idle_one_runner)

lemma idle_world: "idle u h \<Longrightarrow> world_step u h h' \<Longrightarrow> idle u h'"
  using world_idle world_sane by (auto simp: idle_def)

lemma one_world: "one_runner u h \<Longrightarrow> (sane h \<Longrightarrow> world_step u h h') \<Longrightarrow> one_runner u h'"
  using world_one_runner one_runner_sane by blast

lemma idle_step: "idle u h \<Longrightarrow> (sane h \<Longrightarrow> world_step u h h') \<Longrightarrow> idle u h'"
  using idle_world unfolding idle_def by blast

lemma shut_down_idle: "one_runner u h \<Longrightarrow> holds (one_runner u) (idle u) (shut_down orc u pd h)"
proof (rule holdsI)
  assume o: "one_runner u h"
  then show one: "one_runner u (snd (shut_down orc u pd h))"
    by (simp add: snd_shut_down one_runner_shutdown)
  fix x assume "fst (shut_down orc u pd h) = Inr x"
  then have "fst (shutdown_runner_definitive orc u pd h) = Inr ()"
    by (auto simp: shut_down_def split: prod.splits sum.splits)
  from shutdown_confirmed [OF this] one show "idle u (snd (shut_down orc u pd h))"
    by (simp add: idle_def snd_shut_down one_runner_sane)
qed

lemma quiet_one:
  assumes "one_runner u h" "sane h \<Longrightarrow> world_step u h (snd m)"
  shows "holds (one_runner u) (one_runner u) m"
  using one_world [OF assms] by (simp add: holds_def)

lemma quiet_idle:
  assumes "idle u h" "sane h \<Longrightarrow> world_step u h (snd m)"
  shows "holds (one_runner u) (idle u) m"
  using idle_step [OF assms] idle_one [of u "snd m"] by (simp add: holds_def)

lemma save_idle: "idle u h \<Longrightarrow> holds (one_runner u) (idle u) (save_record r h)"
  by (rule quiet_idle [where h = h]) (simp_all add: snd_save_record world_save)

lemma save_one: "one_runner u h \<Longrightarrow> holds (one_runner u) (one_runner u) (save_record r h)"
  by (rule quiet_one [where h = h]) (simp_all add: snd_save_record world_save)

lemma teardown_idle: "idle u h \<Longrightarrow> holds (one_runner u) (idle u) (teardown_fc orc v img h)"
  by (rule quiet_idle [where h = h]) (simp_all add: snd_teardown world_kill_fc)

lemma done_idle: "idle u h \<Longrightarrow> holds (one_runner u) (idle u) (Inr x, h)"
  by (simp add: holds_def idle_one)

lemma reap_untracked_idle: "one_runner u h \<Longrightarrow> holds (one_runner u) (idle u) (reap_untracked orc u h)"
  unfolding reap_untracked_def by (rule holds_bind [OF shut_down_idle teardown_idle])

lemma reap_respawn_idle:
  assumes "one_runner u h" "uuid r = u"
  shows "holds (one_runner u) (idle u) (reap_runner_for_cold_respawn orc r h)"
  unfolding reap_runner_for_cold_respawn_def assms(2)
  by (intro holds_bind [OF shut_down_idle [OF assms(1)]] holds_bind [OF teardown_idle] save_idle) assumption+

lemma reap_before_idle:
  assumes "one_runner u h" "load_runner_record orc h u = Inr existing"
  shows "holds (one_runner u) (idle u) (reap_before_spawn orc u existing there h)"
proof (cases existing)
  case None
  have "idle u h" using assms None loaded_none [of orc h u]
    by (auto simp: idle_def one_runner_def sane_def)
  then show ?thesis using assms(1) None
    by (simp add: reap_before_spawn_def reap_untracked_idle done_idle)
next
  case (Some r)
  then show ?thesis using assms loaded_uuid [of orc h u r]
    by (simp add: reap_before_spawn_def reap_respawn_idle)
qed

lemma stop_idle: "one_runner u h \<Longrightarrow> holds (one_runner u) (idle u) (stop_locked orc u h)"
proof -
  assume o: "one_runner u h"
  have "holds (one_runner u) (idle u) (stop_recorded orc r h)" if "uuid r = u" for r
    unfolding stop_recorded_def that
    by (intro holds_bind [OF save_one [OF o]] holds_bind [OF shut_down_idle] holds_bind [OF teardown_idle]
        save_idle) assumption+
  then show ?thesis
    using o loaded_uuid [of orc h u]
    by (auto simp: stop_locked_def reap_untracked_idle holds_def [of _ _ "(Inl _, _)"]
        split: sum.splits option.splits)
qed

lemma spawned_one:
  assumes "idle u h" "sp_uuid spec = u"
  shows "holds (one_runner u) (one_runner u) (spawned orc spec h)"
proof -
  have "snd (spawned orc spec h) = snd (spawn_runner orc spec h)"
    by (auto simp: spawned_def split: prod.splits sum.splits)
  then show ?thesis
    using one_runner_spawn [of h spec orc] assms by (simp add: holds_def idle_def)
qed

text \<open>What the world may do while an operation on the app sleeps.\<close>

definition patient :: "string \<Rightarrow> waiting \<Rightarrow> bool" where
  "patient u w \<longleftrightarrow> (\<forall>h. sane h \<longrightarrow> world_step u h (between w h))"

lemma patient_one: "patient u w \<Longrightarrow> one_runner u h \<Longrightarrow> one_runner u (between w h)"
  unfolding patient_def using one_world one_runner_sane by blast

lemma one_wait_healthy:
  "patient u w \<Longrightarrow> one_runner u h \<Longrightarrow> one_runner u (snd (wait_healthy (between w) sock n h))"
  by (induction n arbitrary: h) (auto simp: patient_one split: option.splits)

lemma one_wait_cold:
  "patient u w \<Longrightarrow> one_runner u h \<Longrightarrow> one_runner u (snd (wait_cold_serving (between w) sock pd n seen h))"
  by (induction n arbitrary: h seen) (auto simp: patient_one Let_def)

lemma one_swap:
  "patient u w \<Longrightarrow> one_runner u h \<Longrightarrow>
     holds (one_runner u) (one_runner u) (swap_with_retry n (between w) sock reff h)"
  by (induction n arbitrary: h) (auto simp: patient_one holds_def split: option.splits Reply.splits)

lemma spec_uuids:
  "sp_uuid (spawn_spec_for_deploy orc u existing body m h) = (case existing of None \<Rightarrow> u | Some r \<Rightarrow> uuid r)"
  "sp_uuid (spawn_spec_from_record orc r h) = uuid r"
  "sp_uuid (spawn_spec_for_uuid orc u h) = u"
  by (simp_all add: spawn_spec_for_deploy_def spawn_spec_from_record_def spawn_spec_for_uuid_def Let_def
      split: option.splits)

lemma start_spec:
  "spawn_spec_for_start orc u h = Inr (spec, existing) \<Longrightarrow>
     sp_uuid spec = u \<and> load_runner_record orc h u = Inr existing"
  by (auto simp: spawn_spec_for_start_def spec_uuids split: sum.splits option.splits dest: loaded_uuid)

lemma one_runner_start:
  assumes "one_runner u h" "patient u w"
  shows "one_runner u (snd (start_app orc w u rt h))"
proof -
  have tail: "holds (one_runner u) (\<lambda>_. True) (and_then (reap_before_spawn orc u existing there h) (\<lambda>_ h1.
      and_then (spawned orc spec h1) (\<lambda>r h2.
        case wait_healthy (between w) (control_sock r) (polls w) h2 of
          (None, h3) \<Rightarrow> (Inl NeverHealthy, h3)
        | (Some _, h3) \<Rightarrow> (Inr (running_summary u ula rt), h3))))"
    if "spawn_spec_for_start orc u h = Inr (spec, existing)" for spec existing there ula
  proof (intro holds_bind [OF reap_before_idle [OF assms(1)]] holds_bind [OF spawned_one])
    fix r h2 assume "one_runner u h2"
    from one_wait_healthy [OF assms(2) this]
    show "holds (one_runner u) (\<lambda>_. True) (case wait_healthy (between w) (control_sock r) (polls w) h2 of
          (None, h3) \<Rightarrow> (Inl NeverHealthy, h3)
        | (Some _, h3) \<Rightarrow> (Inr (running_summary u ula rt), h3))"
      by (cases "wait_healthy (between w) (control_sock r) (polls w) h2"; cases "fst (wait_healthy (between w) (control_sock r) (polls w) h2)")
        (auto simp: holds_def split: option.splits dest!: arg_cong [of _ _ snd])
  qed (use start_spec [OF that] in simp_all)
  show ?thesis
    using assms(1) holds_fst [OF tail]
    by (auto simp: start_app_def split: sum.splits)
qed

lemma one_runner_stop: "one_runner u h \<Longrightarrow> one_runner u (snd (stop_app orc u h))"
  using holds_fst [OF stop_idle] by (auto simp: stop_app_def split: sum.splits)

lemma one_runner_reset:
  assumes "one_runner u h"
  shows "one_runner u (snd (reset_app orc u h))"
proof -
  have "one_runner u (snd (and_then (save_record (unreset r) h) (\<lambda>_ h1.
      let (out, h2) = reconcile_record_locked orc (unreset r) h1 in
      if out = RespawnFailed \<or> out = Missing \<or> out = Busy then (Inl (ReconcileFailed out), h2)
      else case load_runner_record orc h2 u of
        Inl e \<Rightarrow> (Inl (Core e), h2)
      | Inr None \<Rightarrow> (Inl NoRunnerRecord, h2)
      | Inr (Some r') \<Rightarrow>
          (Inr (record_summary r' (socket_state h2 (control_sock_for orc u)) (clock h2)), h2))))"
    if u: "uuid r = u" for r
  proof (rule holds_fst [OF holds_bind [OF save_one [OF assms]]])
    fix h1 assume "one_runner u h1"
    moreover have "uuid (unreset r) = u" using u by (simp add: unreset_def)
    ultimately have "one_runner u (snd (reconcile_record_locked orc (unreset r) h1))"
      by (rule one_runner_reconcile_locked)
    then show "holds (one_runner u) (\<lambda>_. True) (let (out, h2) = reconcile_record_locked orc (unreset r) h1 in
      if out = RespawnFailed \<or> out = Missing \<or> out = Busy then (Inl (ReconcileFailed out), h2)
      else case load_runner_record orc h2 u of
        Inl e \<Rightarrow> (Inl (Core e), h2)
      | Inr None \<Rightarrow> (Inl NoRunnerRecord, h2)
      | Inr (Some r') \<Rightarrow>
          (Inr (record_summary r' (socket_state h2 (control_sock_for orc u)) (clock h2)), h2))"
      by (auto simp: holds_def Let_def case_prod_unfold split: sum.splits option.splits)
  qed
  then show ?thesis
    using assms loaded_uuid [of orc h u]
    by (auto simp: reset_app_def split: sum.splits option.splits)
qed

lemma one_runner_persist_warm:
  assumes "one_runner u h"
  shows "one_runner u (snd (persist_warm_deploy orc r prev reff h))"
proof -
  have s: "one_runner u (snd (do_save r h))" using assms by (rule one_runner_save)
  have k: "one_runner u (snd (shut_down orc (uuid r) (pid r) h1))" if "one_runner u h1" for h1
    using that by (simp add: snd_shut_down one_runner_shutdown)
  show ?thesis
    using s by (auto simp: persist_warm_deploy_def Let_def case_prod_unfold k one_runner_kill_fc
        split: prod.splits sum.splits option.splits)
qed

lemma one_runner_warm:
  assumes "one_runner u h" "patient u w"
  shows "holds (one_runner u) (\<lambda>_. True) (deploy_warm orc w u r body manifest h)"
  unfolding deploy_warm_def
  by (rule holds_bind [OF one_swap [OF assms(2,1)]]) (simp add: holds_def one_runner_persist_warm)

lemma one_runner_cold:
  assumes "one_runner u h" "patient u w" "load_runner_record orc h u = Inr existing"
  shows "holds (one_runner u) (\<lambda>_. True) (deploy_cold orc fm w u existing there body manifest h)"
  unfolding deploy_cold_def
proof (intro holds_bind [OF reap_before_idle [OF assms(1,3)]] holds_bind [OF spawned_one])
  fix r h2 assume "one_runner u h2"
  then have one: "one_runner u h3"
    if "wait_cold_serving (between w) (control_sock r) (pid r) (polls w) None h2 = (out, h3)" for out h3
    using one_wait_cold [OF assms(2), of h2 "control_sock r" "pid r" "polls w" None] that by simp
  show "holds (one_runner u) (\<lambda>_. True)
      (case wait_cold_serving (between w) (control_sock r) (pid r) (polls w) None h2 of
         (ColdServing, h3) \<Rightarrow> (Inr (), h3)
       | (ColdCrashLoop reason, h3) \<Rightarrow>
           (Inl (ColdStartUnhealthy reason
                  (Option.bind (runner_log_tail (log_text fm) orc u 40) boot_failure_diagnostic)), h3))"
    using one by (auto simp: holds_def split: ColdStart.splits prod.splits)
next
  fix h1 show "sp_uuid (spawn_spec_for_deploy orc u existing body manifest h1) = u"
    using loaded_uuid assms(3) by (auto simp: spec_uuids split: option.splits)
qed

lemma one_runner_deploying [simp]: "one_runner u (h\<lparr>deploying := ds\<rparr>) = one_runner u h"
proof -
  have "sane (h\<lparr>deploying := ds\<rparr>) = sane h"
    unfolding sane_def wf_procs_def find_proc_def by simp
  then show ?thesis by (simp add: one_runner_def has_record_def runner_pids_for_uuid_def)
qed

lemma one_runner_deploy:
  assumes "one_runner u h" "patient u w"
  shows "one_runner u (snd (deploy_app orc fm w u body h))"
proof -
  define h0 where "h0 = begin_deploy u h"
  have h0: "one_runner u h0" using assms(1) by (simp add: h0_def begin_deploy_def)
  have "one_runner u (snd (deploy_locked orc fm w u body h0))"
    using h0 holds_fst [OF one_runner_warm [OF h0 assms(2)]]
      holds_fst [OF one_runner_cold [OF h0 assms(2)]]
    by (auto simp: deploy_locked_def Let_def split: sum.splits option.splits)
  then show ?thesis
    using assms(1)
    by (auto simp: deploy_app_def h0_def [symmetric] Let_def case_prod_unfold end_deploy_def split: sum.splits)
qed

lemma one_runner_purge:
  assumes "one_runner u (nd_host n)"
  shows "one_runner u (nd_host (snd (purge_app orc env u n)))"
proof -
  have one: "one_runner u (snd (stop_locked orc u (nd_host n)))"
    by (rule holds_fst [OF stop_idle [OF assms]])
  have idle: "idle u (snd (stop_locked orc u (nd_host n)))" if "fst (stop_locked orc u (nd_host n)) = Inr x" for x
    using stop_idle [OF assms, of orc] that by (simp add: holds_def)
  have forgot: "one_runner u (h\<lparr>records := snd (forget_record u io (records h))\<rparr>)" if "idle u h" for h io
  proof (rule idle_one)
    have "sane (h\<lparr>records := snd (forget_record u io (records h))\<rparr>)"
      using that unfolding idle_def sane_def wf_procs_def find_proc_def by (simp add: forget_record_def)
    then show "idle u (h\<lparr>records := snd (forget_record u io (records h))\<rparr>)"
      using that by (simp add: idle_def) (simp add: runner_pids_for_uuid_def split: if_splits)
  qed
  have cache: "nd_host (snd (purge_cache io u m)) = nd_host m" for io m
    by (simp add: purge_cache_def)
  have art: "nd_host (remove_app_artifacts orc io u m) = nd_host m" for io m
    by (simp add: remove_app_artifacts_def)
  show ?thesis
  proof (cases "fst (stop_locked orc u (nd_host n))")
    case (Inl e)
    then show ?thesis using assms one
      by (cases "stop_locked orc u (nd_host n)") (auto simp: purge_app_def split: sum.splits)
  next
    case (Inr x)
    define h where "h = snd (stop_locked orc u (nd_host n))"
    have st: "stop_locked orc u (nd_host n) = (Inr x, h)" using Inr by (simp add: h_def prod_eq_iff)
    have h: "one_runner u h" "idle u h" using one idle [OF Inr] by (simp_all add: h_def)
    obtain ok n1 where c: "purge_cache (pe_cache_ok env) u (n\<lparr>nd_host := h\<rparr>) = (ok, n1)" by fastforce
    have n1: "nd_host n1 = h" using cache [of "pe_cache_ok env" "n\<lparr>nd_host := h\<rparr>"] c by simp
    obtain res links where l: "release_uuid (pe_links env) (pe_root_exists env) u (pe_live env) (nd_links n1)
        = (res, links)" by fastforce
    show ?thesis
      using h n1 assms forgot [OF h(2), of "pe_record_ok env"] art
      by (auto simp: purge_app_def st c l Let_def split: sum.splits prod.splits bool.splits
          dest!: arg_cong [of _ _ snd])
  qed
qed

section \<open>The transition system\<close>

inductive fleet_step :: "orch \<Rightarrow> string \<Rightarrow> host \<Rightarrow> host \<Rightarrow> bool" for orc u where
  step_start: "patient u w \<Longrightarrow> fleet_step orc u h (snd (start_app orc w u rt h))"
| step_stop: "fleet_step orc u h (snd (stop_app orc u h))"
| step_reset: "fleet_step orc u h (snd (reset_app orc u h))"
| step_deploy: "patient u w \<Longrightarrow> fleet_step orc u h (snd (deploy_app orc fm w u body h))"
| step_purge: "fleet_step orc u (nd_host n) (nd_host (snd (purge_app orc env u n)))"
| step_reconcile: "fleet_step orc u h (snd (reconcile_record orc u h))"
| step_sweep: "fleet_step orc u h (snd (sweep_orphan_fcs orc h))"
| step_world: "world_step u h h' \<Longrightarrow> fleet_step orc u h h'"

inductive_cases fleet_stepE: "fleet_step orc u h h'"

lemma one_runner_step: "fleet_step orc u h h' \<Longrightarrow> one_runner u h \<Longrightarrow> one_runner u h'"
proof (induction rule: fleet_step.induct)
  case (step_world h h')
  then show ?case by (simp add: world_one_runner)
qed (simp_all add: one_runner_start one_runner_stop one_runner_reset one_runner_deploy one_runner_purge
    one_runner_reconcile one_runner_sweep)

section \<open>Properties\<close>

text \<open>C1: no app runs twice. On a host where SIGKILL works and \<open>/proc\<close> can be listed, no sequence of
  starts, stops, deploys, resets, purges, reconciliations and sweeps, in any order, with any outcome of
  each, and with processes dying in between, ever leaves two processes with the app's runner identity,
  nor one without a record.\<close>

theorem an_app_never_runs_twice:
  assumes "(fleet_step orc u)\<^sup>*\<^sup>* h h'" "one_runner u h"
  shows "length (runner_pids_for_uuid h' u) \<le> 1 \<and> (runner_pids_for_uuid h' u \<noteq> [] \<longrightarrow> has_record h' u)"
proof -
  have "one_runner u h'"
    using assms by (induction rule: rtranclp_induct) (auto intro: one_runner_step)
  then show ?thesis by (simp add: one_runner_def)
qed

theorem an_app_never_runs_twice_witness:
  "length (runner_pids_for_uuid (snd (reset_app demo_orch ''a'' (snd (stop_app demo_orch ''a''
     (demo_host [demo_born] demo_dir))))) ''a'') \<le> 1"
proof -
  define h where "h = demo_host [demo_born] demo_dir"
  have hs: "procs h = []" "proc_listable h" "records h = demo_dir" "births h = [demo_born]"
    by (simp_all add: h_def demo_host_def)
  have "sane h"
    unfolding sane_def by (simp add: hs wf_procs_def find_proc_def demo_born_def) (simp add: demo_dir_def)
  then have "one_runner ''a'' h"
    by (simp add: one_runner_def runner_pids_for_uuid_def select_matching_runner_pids_def hs)
  moreover have "(fleet_step demo_orch ''a'')\<^sup>*\<^sup>* h (snd (reset_app demo_orch ''a'' (snd (stop_app demo_orch ''a'' h))))"
    using step_stop step_reset by (meson rtranclp.rtrancl_into_rtrancl rtranclp.rtrancl_refl)
  ultimately show ?thesis
    using an_app_never_runs_twice unfolding h_def by blast
qed

end
