(* ===== verification/Intent.thy ===== *)
theory Intent
  imports Lifecycle
begin

text \<open>
  What the operator asked for, and that the lifecycle operations keep it: the durable intent of an app,
  read off its record, as an abstract specification that start, stop and deploy refine whatever fails
  on the way.
\<close>

section \<open>The abstract specification\<close>

record intent =
  in_wanted :: bool
  in_image :: "string option"
  in_manifest :: "string option"
  in_network :: "string option"
  in_token :: "string option"
  in_env :: "env_map option"
  in_egress :: "string list option"

definition intent_of :: "RunnerHandle \<Rightarrow> intent" where
  "intent_of r =
     \<lparr>in_wanted = (\<not> stopped r), in_image = image_ref r, in_manifest = manifest_toml r, in_network = network r,
      in_token = runner_join_token r, in_env = extra_env r, in_egress = egress_allow r\<rparr>"

definition intent_at :: "host \<Rightarrow> string \<Rightarrow> intent option" where
  "intent_at h u = (case load (records h) u of Inr (Some r) \<Rightarrow> Some (intent_of r) | _ \<Rightarrow> None)"

definition blank :: intent where
  "blank = \<lparr>in_wanted = True, in_image = None, in_manifest = None, in_network = None, in_token = None,
     in_env = None, in_egress = None\<rparr>"

definition ask_start :: "intent option \<Rightarrow> intent option" where
  "ask_start i = Some ((case i of None \<Rightarrow> blank | Some j \<Rightarrow> j)\<lparr>in_wanted := True\<rparr>)"

definition ask_stop :: "intent option \<Rightarrow> intent option" where
  "ask_stop i = map_option (in_wanted_update (\<lambda>_. False)) i"

text \<open>A deploy is a patch: it sets the image, and of the rest only what the body carries.\<close>

definition ask_deploy :: "DeployBody \<Rightarrow> intent option \<Rightarrow> intent option" where
  "ask_deploy body i =
     (let j = (case i of None \<Rightarrow> blank | Some j \<Rightarrow> j)
      in Some \<lparr>in_wanted = True, in_image = Some (db_reff body),
               in_manifest = opt_or (db_manifest_toml body) (in_manifest j),
               in_network = opt_or (dn_network (db_net body)) (in_network j),
               in_token = opt_or (dn_runner_join_token (db_net body)) (in_token j),
               in_env = opt_or (db_extra_env body) (in_env j),
               in_egress = opt_or (db_egress_allow body) (in_egress j)\<rparr>)"

text \<open>An operation refines a request: when it succeeds the intent is the requested one, and when it
  fails the intent is the old or the requested one, never a mixture and never lost.\<close>

definition refines :: "string \<Rightarrow> (intent option \<Rightarrow> intent option) \<Rightarrow> host \<Rightarrow> 'a outcome \<Rightarrow> bool" where
  "refines u g h m \<longleftrightarrow>
     intent_at (snd m) u \<in> {intent_at h u, g (intent_at h u)} \<and>
     (\<forall>x. fst m = Inr x \<longrightarrow> intent_at (snd m) u = g (intent_at h u))"

text \<open>Nobody else writes the app's record while the operation sleeps.\<close>

definition leaves_record :: "string \<Rightarrow> waiting \<Rightarrow> bool" where
  "leaves_record u w \<longleftrightarrow> (\<forall>h. load (records (between w h)) u = load (records h) u)"

section \<open>Lemmas\<close>

lemma opt_or_absorb [simp]: "opt_or (opt_or a b) b = opt_or a b"
  by (cases a; cases b) simp_all

definition same :: "string \<Rightarrow> host \<Rightarrow> host \<Rightarrow> bool" where
  "same u h h' \<longleftrightarrow> load (records h') u = load (records h) u"

lemma same_intent: "same u h h' \<Longrightarrow> intent_at h' u = intent_at h u"
  by (simp add: same_def intent_at_def)

lemma same_trans: "same u h h' \<Longrightarrow> same u h' h'' \<Longrightarrow> same u h h''"
  by (simp add: same_def)

lemma leaves_same: "leaves_record u w \<Longrightarrow> same u h (between w h)"
  by (simp add: leaves_record_def same_def)

lemma same_shut_down [simp]: "same u h (snd (shut_down orc v pd h))"
  by (auto simp: same_def shut_down_def records_shutdown split: prod.splits sum.splits
      dest!: arg_cong [of _ _ "\<lambda>x. records (snd x)"])

lemma same_teardown [simp]: "same u h (snd (teardown_fc orc v img h))"
  by (simp add: same_def teardown_fc_def case_prod_unfold Let_def records_kill_fc)

lemma same_kill_fc [simp]: "same u h (snd (kill_fc_child_for_uuid orc v img h))"
  by (simp add: same_def records_kill_fc)

lemma save_intent:
  "intent_at (snd (do_save r h)) (uuid r) \<in> {intent_at h (uuid r), Some (intent_of r)}"
  by (auto simp: intent_at_def records_do_save save_result store.get_put split: sum.splits option.splits)

lemma save_intent_ok:
  "fst (save_record r h) = Inr x \<Longrightarrow> intent_at (snd (save_record r h)) (uuid r) = Some (intent_of r)"
  using do_save_ok [of r h]
  by (cases "do_save r h"; cases "fst (do_save r h)") (auto simp: save_record_def intent_at_def)

lemma intent_quiet [simp]:
  "intent_at (snd (shut_down orc v pd h)) u = intent_at h u"
  "intent_at (snd (teardown_fc orc v img h)) u = intent_at h u"
  by (rule same_intent, simp)+

text \<open>One more step of an operation, after one that kept the intent.\<close>

lemma refines_same:
  "same u h h' \<Longrightarrow> refines u g h' m \<Longrightarrow> refines u g h m"
  using same_intent [of u h h'] by (simp add: refines_def)

lemma refines_error: "intent_at h' u \<in> {intent_at h u, g (intent_at h u)} \<Longrightarrow> refines u g h (Inl e, h')"
  by (simp add: refines_def)

lemma refines_keep:
  assumes "intent_at (snd m) u = intent_at h u"
    and "\<And>x h'. fst m = Inr x \<Longrightarrow> h' = snd m \<Longrightarrow> refines u g h' (k x h')"
  shows "refines u g h (and_then m k)"
proof -
  obtain res h1 where m: "m = (res, h1)" by fastforce
  show ?thesis
    using assms unfolding m
    by (cases res) (auto simp: and_then_def refines_def)
qed

text \<open>Once the requested intent is on disk, the rest of the operation need only keep it.\<close>

definition keeps :: "string \<Rightarrow> host \<Rightarrow> 'a outcome \<Rightarrow> bool" where
  "keeps u h m \<longleftrightarrow> intent_at (snd m) u = intent_at h u"

lemma keeps_bind: "keeps u h m \<Longrightarrow> (\<And>x h'. keeps u h' (k x h')) \<Longrightarrow> keeps u h (and_then m k)"
  by (cases m) (auto simp: keeps_def and_then_def split: sum.splits)

lemma keeps_same: "same u h (snd m) \<Longrightarrow> keeps u h m"
  by (simp add: keeps_def same_intent)

lemma refines_done:
  assumes "intent_at h' u = g (intent_at h u)" "keeps u h' m"
  shows "refines u g h m"
  using assms by (simp add: refines_def keeps_def)

lemma loaded_intent: "load_runner_record orc h u = Inr (Some r) \<Longrightarrow>
    uuid r = u \<and> load (records h) u = Inr (Some r) \<and> intent_at h u = Some (intent_of r)"
  by (auto simp: load_runner_record_def intent_at_def split: sum.splits option.splits if_splits)

lemma unloaded_intent: "load_runner_record orc h u = Inr None \<Longrightarrow>
    load (records h) u = Inr None \<and> intent_at h u = None"
  by (auto simp: load_runner_record_def intent_at_def split: sum.splits option.splits if_splits)

lemma save_same_intent:
  assumes "intent_at h (uuid r) = Some (intent_of r)"
  shows "keeps (uuid r) h (save_record r h)"
  using save_intent [of r h] assms by (simp add: keeps_def snd_save_record)

lemma reap_keeps:
  assumes "load_runner_record orc h u = Inr existing"
  shows "keeps u h (reap_before_spawn orc u existing there h)"
proof (cases existing)
  case None
  then show ?thesis
    by (simp add: reap_before_spawn_def reap_untracked_def keeps_bind keeps_same)
      (simp add: keeps_def)
next
  case (Some r)
  have r: "uuid r = u" "intent_at h u = Some (intent_of r)" using loaded_intent assms Some by auto
  have s: "intent_at (snd (shut_down orc u (pid r) h)) u = intent_at h u" by (rule same_intent) simp
  have t: "intent_at (snd (teardown_fc orc u (image_ref r) h')) u = intent_at h' u" for h'
    by (rule same_intent) simp
  have i: "intent_of (r\<lparr>pid := 0\<rparr>) = intent_of r" by (simp add: intent_of_def)
  have k: "intent_at (snd (save_record (r\<lparr>pid := 0\<rparr>) h')) u = Some (intent_of r)"
    if "intent_at h' u = Some (intent_of r)" for h'
    using save_same_intent [of h' "r\<lparr>pid := 0\<rparr>"] that r(1) by (simp add: keeps_def i)
  show ?thesis
    using r s t k by (simp add: Some reap_before_spawn_def reap_runner_for_cold_respawn_def keeps_def
        and_then_cases split: sum.split)
qed

text \<open>The intent that a spawn on a specification records.\<close>

definition spec_intent :: "SpawnSpec \<Rightarrow> intent" where
  "spec_intent spec = \<lparr>in_wanted = True, in_image = sp_image_ref spec, in_manifest = sp_manifest_toml spec,
    in_network = sp_network spec, in_token = sp_runner_join_token spec, in_env = sp_extra_env spec,
    in_egress = sp_egress_allow spec\<rparr>"

lemma spawned_intent:
  "intent_of (spawned_handle orc spec b pd t) = spec_intent spec"
  "uuid (spawned_handle orc spec b pd t) = sp_uuid spec"
  by (simp_all add: spawned_handle_def intent_of_def spec_intent_def)

lemma intent_kill [simp]: "intent_at (kill_pid pd h) u = intent_at h u"
  by (simp add: intent_at_def only_procs_fields(3) [OF fewer_procs_only [OF fewer_kill_pid]])

lemma intent_kill_fc [simp]: "intent_at (snd (kill_fc_child_for_uuid orc v img h)) u = intent_at h u"
  by (rule same_intent) simp

lemma intent_updates [simp]:
  "intent_at (h\<lparr>births := bs\<rparr>) u = intent_at h u" "intent_at (h\<lparr>births := bs, procs := ps\<rparr>) u = intent_at h u"
  "intent_at (open_runner_log d v h) u = intent_at h u" "intent_at (h\<lparr>deploying := ds\<rparr>) u = intent_at h u"
  by (simp_all add: intent_at_def)

lemma persist_intent:
  "intent_at (snd (persist_handle_or_reap orc r h)) (uuid r) \<in> {intent_at h (uuid r), Some (intent_of r)}"
  using save_intent [of r h]
  by (auto simp: persist_handle_or_reap_def Let_def case_prod_unfold split: sum.splits)

lemma spawn_intent:
  "intent_at (snd (spawn_runner orc spec h)) (sp_uuid spec)
     \<in> {intent_at h (sp_uuid spec), Some (spec_intent spec)}"
proof (cases "parse_uuid orc (sp_uuid spec)")
  case None
  then show ?thesis by (simp add: spawn_runner_def)
next
  case (Some b)
  let ?h0 = "open_runner_log (sp_data_dir spec) (sp_uuid spec) h"
  have born: "snd (spawn_runner orc spec h) = snd (persist_handle_or_reap orc
      (spawned_handle orc spec b (nb_pid nb) (clock h))
      (?h0\<lparr>births := rest, procs := procs h @ [(nb_pid nb, spawned_proc orc spec nb)]\<rparr>))"
    if "\<not> has_nul orc spec" "births ?h0 = Born nb # rest" for nb rest
    using Some that by (simp add: spawn_runner_def Let_def case_prod_unfold split: sum.splits)
  have "intent_at (snd (persist_handle_or_reap orc (spawned_handle orc spec b pd t)
      (?h0\<lparr>births := rest, procs := ps\<rparr>))) (sp_uuid spec) \<in> {intent_at h (sp_uuid spec), Some (spec_intent spec)}"
    for pd t rest ps
    using persist_intent [of orc "spawned_handle orc spec b pd t" "?h0\<lparr>births := rest, procs := ps\<rparr>"]
    by (simp add: spawned_intent)
  note persisted = this
  show ?thesis
  proof (cases "\<not> has_nul orc spec \<and> (\<exists>nb rest. births ?h0 = Born nb # rest)")
    case True
    then obtain nb :: newborn and rest where "\<not> has_nul orc spec" "births ?h0 = Born nb # rest" by blast
    from born [OF this] persisted show ?thesis by simp
  next
    case False
    then show ?thesis using Some
      by (auto simp: spawn_runner_def Let_def split: list.split birth.split)
  qed
qed

lemma spawn_intent_ok:
  "fst (spawn_runner orc spec h) = Inr r \<Longrightarrow>
     intent_at (snd (spawn_runner orc spec h)) (sp_uuid spec) = Some (spec_intent spec)"
  using spawn_runner_ok [of orc spec h r] by (auto simp: intent_at_def spawned_intent)

lemma spawned_refines:
  assumes "sp_uuid spec = u" "Some (spec_intent spec) = g (intent_at h u)"
    and "\<And>r h'. keeps u h' (k r h')"
  shows "refines u g h (and_then (spawned orc spec h) k)"
proof -
  have s: "snd (spawned orc spec h) = snd (spawn_runner orc spec h)"
    by (auto simp: spawned_def split: prod.splits sum.splits)
  have f: "fst (spawned orc spec h) = Inr r \<Longrightarrow> fst (spawn_runner orc spec h) = Inr r" for r
    by (auto simp: spawned_def split: prod.splits sum.splits)
  show ?thesis
  proof (cases "fst (spawned orc spec h)")
    case (Inl e)
    then have "and_then (spawned orc spec h) k = (Inl e, snd (spawn_runner orc spec h))"
      unfolding s [symmetric] by (cases "spawned orc spec h") (simp add: and_then_def)
    then show ?thesis
      using spawn_intent [of orc spec h] assms(1,2) by (simp add: refines_def)
  next
    case (Inr r)
    then have "and_then (spawned orc spec h) k = k r (snd (spawn_runner orc spec h))"
      unfolding s [symmetric] by (cases "spawned orc spec h") (simp add: and_then_def)
    then show ?thesis
      using spawn_intent_ok [OF f [OF Inr]] assms by (simp add: refines_done)
  qed
qed

section \<open>Start\<close>

lemma keeps_wait_healthy:
  "leaves_record u w \<Longrightarrow> intent_at (snd (wait_healthy (between w) sock n h)) u = intent_at h u"
  by (induction n arbitrary: h) (auto simp: same_intent [OF leaves_same] split: option.splits)

lemma keeps_wait_cold:
  "leaves_record u w \<Longrightarrow> intent_at (snd (wait_cold_serving (between w) sock pd n seen h)) u = intent_at h u"
  by (induction n arbitrary: h seen) (auto simp: same_intent [OF leaves_same] Let_def)

lemma keeps_swap:
  "leaves_record u w \<Longrightarrow> keeps u h (swap_with_retry n (between w) sock reff h)"
  by (induction n arbitrary: h)
    (auto simp: keeps_def same_intent [OF leaves_same] split: option.splits Reply.splits)

lemma backfill_intent [simp]: "spec_intent (port_or_backfill spec h) = spec_intent spec"
  by (simp add: spec_intent_def port_or_backfill_def split: option.splits)

lemma start_spec_intent:
  assumes "spawn_spec_for_start orc u h = Inr (spec, existing)"
  shows "load_runner_record orc h u = Inr existing \<and> sp_uuid spec = u \<and>
    Some (spec_intent spec) = ask_start (intent_at h u)"
proof -
  have "sp_uuid spec = u \<and> load_runner_record orc h u = Inr existing"
    using assms by (auto simp: spawn_spec_for_start_def spawn_spec_from_record_def spawn_spec_for_uuid_def Let_def
        split: sum.splits option.splits dest: loaded_intent)
  moreover have "Some (spec_intent (spawn_spec_from_record orc r h)) = ask_start (Some (intent_of r))" for r
    by (simp add: spawn_spec_from_record_def) (simp add: spec_intent_def spawn_spec_for_def ask_start_def intent_of_def)
  moreover have "Some (spec_intent (spawn_spec_for_uuid orc u h)) = ask_start None"
    by (simp add: spawn_spec_for_uuid_def Let_def spec_intent_def ask_start_def blank_def)
  ultimately show ?thesis
    using assms loaded_intent unloaded_intent
    by (auto simp: spawn_spec_for_start_def split: sum.splits option.splits)
qed

lemma start_refines:
  assumes "leaves_record u w"
  shows "refines u ask_start h (start_app orc w u rt h)"
proof -
  have tail: "refines u ask_start h (and_then (reap_before_spawn orc u existing there h) (\<lambda>_ h1.
      and_then (spawned orc spec h1) (\<lambda>r h2.
        case wait_healthy (between w) (control_sock r) (polls w) h2 of
          (None, h3) \<Rightarrow> (Inl NeverHealthy, h3)
        | (Some _, h3) \<Rightarrow> (Inr (running_summary u ula rt), h3))))"
    if "spawn_spec_for_start orc u h = Inr (spec, existing)" for spec existing there ula
  proof (rule refines_keep)
    note st = start_spec_intent [OF that]
    show k: "intent_at (snd (reap_before_spawn orc u existing there h)) u = intent_at h u"
      using reap_keeps st by (simp add: keeps_def)
    fix x h' assume "h' = snd (reap_before_spawn orc u existing there h)"
    with k st have h': "Some (spec_intent spec) = ask_start (intent_at h' u)" by simp
    show "refines u ask_start h' (and_then (spawned orc spec h') (\<lambda>r h2.
        case wait_healthy (between w) (control_sock r) (polls w) h2 of
          (None, h3) \<Rightarrow> (Inl NeverHealthy, h3)
        | (Some _, h3) \<Rightarrow> (Inr (running_summary u ula rt), h3)))"
    proof (rule spawned_refines [where g = ask_start])
      fix r h2
      show "keeps u h2 (case wait_healthy (between w) (control_sock r) (polls w) h2 of
          (None, h3) \<Rightarrow> (Inl NeverHealthy, h3)
        | (Some _, h3) \<Rightarrow> (Inr (running_summary u ula rt), h3))"
        using keeps_wait_healthy [OF assms, of "control_sock r" "polls w" h2]
        by (auto simp: keeps_def split: prod.splits option.splits)
    qed (use st h' in simp_all)
  qed
  have live: "intent_at h u = ask_start (intent_at h u)"
    if st: "spawn_spec_for_start orc u h = Inr (spec, existing)" and run: "wants_to_run existing" for spec existing
  proof -
    obtain r where "existing = Some r" "\<not> stopped r"
      using run by (auto simp: wants_to_run_def split: option.splits)
    then have "intent_at h u = Some (intent_of r)" "in_wanted (intent_of r)"
      using start_spec_intent [OF st] loaded_intent by (auto simp: intent_of_def)
    then show ?thesis by (cases "intent_of r") (simp add: ask_start_def)
  qed
  show ?thesis
    using tail live
    by (auto simp: start_app_def refines_error split: sum.splits prod.splits)
      (auto simp: refines_def)
qed

section \<open>Stop\<close>

lemma stop_refines: "refines u ask_stop h (stop_app orc u h)"
proof -
  have rec: "refines u ask_stop h (stop_recorded orc r h)" if l: "load_runner_record orc h u = Inr (Some r)" for r
  proof -
    have r: "uuid r = u" "intent_at h u = Some (intent_of r)" using loaded_intent [OF l] by auto
    let ?i = "Some (intent_of (r\<lparr>stopped := True\<rparr>))"
    have i: "?i = ask_stop (intent_at h u)" "intent_of (r\<lparr>stopped := True, pid := 0\<rparr>) = intent_of (r\<lparr>stopped := True\<rparr>)"
      by (simp_all add: r(2) ask_stop_def intent_of_def)
    have sv: "keeps u h' (save_record (r\<lparr>stopped := True, pid := 0\<rparr>) h')" if "intent_at h' u = ?i" for h'
      using save_same_intent [of h' "r\<lparr>stopped := True, pid := 0\<rparr>"] that r(1) by (simp add: i(2))
    have td: "intent_at (snd (teardown_fc orc u img h')) u = intent_at h' u"
      "intent_at (snd (shut_down orc u pd h')) u = intent_at h' u" for img pd h'
      by (rule same_intent, simp)+
    have rest: "intent_at (snd (and_then (shut_down orc u (pid r) h1) (\<lambda>_ h2.
        and_then (teardown_fc orc u (image_ref r) h2) (\<lambda>_ h3.
          save_record (r\<lparr>stopped := True, pid := 0\<rparr>) h3)))) u = ?i" if "intent_at h1 u = ?i" for h1
      using that td sv by (simp add: and_then_cases keeps_def split: sum.split)
    show ?thesis
    proof (cases "fst (save_record (r\<lparr>stopped := True\<rparr>) h)")
      case (Inl e)
      then have "stop_recorded orc r h = (Inl e, snd (do_save (r\<lparr>stopped := True\<rparr>) h))"
        unfolding snd_save_record [symmetric]
        by (cases "save_record (r\<lparr>stopped := True\<rparr>) h") (simp add: stop_recorded_def and_then_def)
      then show ?thesis
        using save_intent [of "r\<lparr>stopped := True\<rparr>" h] r(1) i(1) by (auto intro: refines_error)
    next
      case (Inr x)
      let ?h1 = "snd (save_record (r\<lparr>stopped := True\<rparr>) h)"
      have h1: "intent_at ?h1 u = ?i" using save_intent_ok [OF Inr] r(1) by simp
      have "intent_at (snd (stop_recorded orc r h)) u = ?i"
        using rest [OF h1] Inr r(1) by (simp add: stop_recorded_def and_then_cases)
      then show ?thesis by (simp add: refines_def i(1))
    qed
  qed
  have "refines u ask_stop h (reap_untracked orc u h)" if "load_runner_record orc h u = Inr None"
    using unloaded_intent [OF that]
    by (simp add: refines_def ask_stop_def reap_untracked_def and_then_cases split: sum.split)
  with rec show ?thesis
    by (auto simp: stop_app_def stop_locked_def refines_error split: sum.splits option.splits)
qed

section \<open>Deploy\<close>

lemma deploy_spec_intent:
  assumes "load_runner_record orc h u = Inr existing"
  shows "sp_uuid (spawn_spec_for_deploy orc u existing body
      (retained (db_manifest_toml body) (Option.bind existing manifest_toml)) h') = u \<and>
    Some (spec_intent (spawn_spec_for_deploy orc u existing body
      (retained (db_manifest_toml body) (Option.bind existing manifest_toml)) h')) = ask_deploy body (intent_at h u)"
proof (cases existing)
  case None
  then show ?thesis using unloaded_intent [of orc h u] assms
    by (simp add: spawn_spec_for_deploy_def spawn_spec_for_uuid_def Let_def spec_intent_def ask_deploy_def
        blank_def retained_def)
next
  case (Some r)
  define sp where "sp = spawn_spec_from_record orc r h'"
  have "sp_uuid sp = uuid r" "sp_manifest_toml sp = manifest_toml r" "sp_network sp = network r"
    "sp_runner_join_token sp = runner_join_token r" "sp_extra_env sp = extra_env r"
    "sp_egress_allow sp = egress_allow r"
    by (simp_all add: sp_def spawn_spec_from_record_def port_or_backfill_def spawn_spec_for_def
        split: option.splits)
  then show ?thesis using loaded_intent [of orc h u r] assms Some
    by (simp add: spawn_spec_for_deploy_def Let_def spec_intent_def ask_deploy_def intent_of_def retained_def
        opt_or_absorb sp_def [symmetric])
qed

lemma keeps_persist_error:
  "intent_at (snd (persist_warm_deploy orc r prev reff h)) (uuid r) \<in> {intent_at h (uuid r), Some (intent_of r)} \<and>
   (\<forall>x. fst (persist_warm_deploy orc r prev reff h) = Inr x \<longrightarrow>
      intent_at (snd (persist_warm_deploy orc r prev reff h)) (uuid r) = Some (intent_of r))"
proof -
  have sd: "intent_at (snd (shut_down orc v pd h')) u = intent_at h' u" for v pd h' u by (rule same_intent) simp
  show ?thesis
  proof (cases "fst (do_save r h)")
    case (Inl e)
    then show ?thesis using save_intent [of r h] sd
      by (cases "do_save r h")
        (auto simp: persist_warm_deploy_def Let_def case_prod_unfold split: option.splits sum.splits)
  next
    case (Inr x)
    then show ?thesis using do_save_ok [of r h]
      by (cases "do_save r h") (auto simp: persist_warm_deploy_def intent_at_def)
  qed
qed

lemma warm_refines:
  assumes w: "leaves_record u w" and l: "load_runner_record orc h u = Inr (Some r)" and "\<not> stopped r"
  shows "refines u (ask_deploy body) h
    (deploy_warm orc w u r body (retained (db_manifest_toml body) (manifest_toml r)) h)"
  unfolding deploy_warm_def
proof (rule refines_keep)
  let ?r = "warm_record r body (retained (db_manifest_toml body) (manifest_toml r))"
  show k: "intent_at (snd (swap_with_retry SWAP_MAX_ATTEMPTS (between w) (control_sock_for orc u) (db_reff body) h)) u
      = intent_at h u"
    using keeps_swap [OF w] by (simp add: keeps_def)
  have r: "uuid ?r = u" "Some (intent_of ?r) = ask_deploy body (intent_at h u)"
    using loaded_intent [OF l] assms(3)
    by (simp_all add: warm_record_def intent_of_def ask_deploy_def retained_def)
  fix x h'
  assume "h' = snd (swap_with_retry SWAP_MAX_ATTEMPTS (between w) (control_sock_for orc u) (db_reff body) h)"
  with k r keeps_persist_error [of orc ?r "image_ref r" "db_reff body" h']
  show "refines u (ask_deploy body) h' (persist_warm_deploy orc ?r (image_ref r) (db_reff body) h')"
    by (simp add: refines_def)
qed

lemma cold_refines:
  assumes w: "leaves_record u w" and l: "load_runner_record orc h u = Inr existing"
  shows "refines u (ask_deploy body) h (deploy_cold orc fm w u existing there body
    (retained (db_manifest_toml body) (Option.bind existing manifest_toml)) h)"
  unfolding deploy_cold_def
proof (rule refines_keep)
  let ?spec = "\<lambda>h. spawn_spec_for_deploy orc u existing body
    (retained (db_manifest_toml body) (Option.bind existing manifest_toml)) h"
  show k: "intent_at (snd (reap_before_spawn orc u existing there h)) u = intent_at h u"
    using reap_keeps [OF l] by (simp add: keeps_def)
  fix x h' assume "h' = snd (reap_before_spawn orc u existing there h)"
  with k have h': "intent_at h' u = intent_at h u" by simp
  let ?k = "\<lambda>r h2. case wait_cold_serving (between w) (control_sock r) (pid r) (polls w) None h2 of
         (ColdServing, h3) \<Rightarrow> (Inr (), h3)
       | (ColdCrashLoop reason, h3) \<Rightarrow>
           (Inl (ColdStartUnhealthy reason
                  (Option.bind (runner_log_tail (log_text fm) orc u 40) boot_failure_diagnostic)), h3)"
  have wait: "keeps u h2 (?k r h2)" for r h2
    using keeps_wait_cold [OF w, of "control_sock r" "pid r" "polls w" None h2]
    by (auto simp: keeps_def split: prod.splits ColdStart.splits)
  show "refines u (ask_deploy body) h' (and_then (spawned orc (?spec h') h') ?k)"
    by (rule spawned_refines [where g = "ask_deploy body" and k = ?k])
      (use deploy_spec_intent [OF l, of body h'] h' wait in simp_all)
qed

lemma deploy_locked_refines:
  assumes "leaves_record u w"
  shows "refines u (ask_deploy body) h (deploy_locked orc fm w u body h)"
proof (cases "load_runner_record orc h u")
  case (Inl e)
  then show ?thesis by (simp add: deploy_locked_def refines_error)
next
  case (Inr existing)
  have warm: "refines u (ask_deploy body) h (deploy_warm orc w u (the existing) body
      (retained (db_manifest_toml body) (Option.bind existing manifest_toml)) h)" if "wants_to_run existing"
    using warm_refines [OF assms] Inr that by (auto simp: wants_to_run_def split: option.splits)
  show ?thesis
    using warm cold_refines [OF assms Inr]
    by (auto simp: deploy_locked_def Inr Let_def refines_error split: option.split sum.split)
qed

lemma deploy_refines:
  assumes "leaves_record u w"
  shows "refines u (ask_deploy body) h (deploy_app orc fm w u body h)"
proof -
  have "refines u (ask_deploy body) (begin_deploy u h) (deploy_locked orc fm w u body (begin_deploy u h))"
    by (rule deploy_locked_refines [OF assms])
  then show ?thesis
    by (auto simp: deploy_app_def refines_def Let_def case_prod_unfold begin_deploy_def end_deploy_def
        split: sum.splits)
qed

section \<open>Properties\<close>

text \<open>C11: start, stop and deploy refine what the operator asks for. On success the durable intent of the
  app (wanted or not, image, manifest, network, join token, environment, egress list) is exactly the
  requested one, whether the deploy was a warm swap or a cold respawn; on any failure at any point it is
  either still the old one or already the requested one, never a mixture and never lost.\<close>

theorem operations_refine_intent:
  assumes "leaves_record u w"
  shows "refines u ask_start h (start_app orc w u rt h) \<and> refines u ask_stop h (stop_app orc u h) \<and>
    refines u (ask_deploy body) h (deploy_app orc fm w u body h)"
  by (intro conjI start_refines stop_refines deploy_refines assms)

definition demo_waiting :: waiting where
  "demo_waiting = \<lparr>polls = 2, between = (\<lambda>h. h\<lparr>clock := clock h + 1\<rparr>)\<rparr>"

theorem operations_refine_intent_witness:
  "refines ''a'' ask_stop (demo_host [demo_born] demo_dir)
     (stop_app demo_orch ''a'' (demo_host [demo_born] demo_dir))"
proof -
  have "leaves_record ''a'' demo_waiting" by (simp add: leaves_record_def demo_waiting_def)
  from operations_refine_intent [OF this] show ?thesis by blast
qed

text \<open>C12: a deploy never loses a data disk. If the recorded manifest makes the app stateful, then after
  any deploy, successful or not and whatever manifest it carries or omits, the recorded manifest still
  makes it stateful with the same data mount.\<close>

theorem deploy_never_loses_the_disk:
  assumes "leaves_record u w" "intent_at h u = Some i"
    and "mp_stateful (managed_persistence (managed fm) (in_manifest i))"
  shows "\<exists>j. intent_at (snd (deploy_app orc fm w u body h)) u = Some j \<and>
    managed_persistence (managed fm) (in_manifest j) = managed_persistence (managed fm) (in_manifest i)"
proof (cases "intent_at (snd (deploy_app orc fm w u body h)) u = Some i")
  case True
  then show ?thesis by blast
next
  case False
  have new: "intent_at (snd (deploy_app orc fm w u body h)) u = ask_deploy body (Some i)"
    using deploy_refines [OF assms(1), of body h orc fm] False assms(2) by (auto simp: refines_def)
  let ?h = "begin_deploy u h"
  obtain existing where l: "load_runner_record orc ?h u = Inr existing"
    using False assms(2)
    by (cases "load_runner_record orc ?h u")
      (auto simp: deploy_app_def deploy_locked_def begin_deploy_def end_deploy_def split: sum.splits)
  have "intent_at ?h u = Some i" using assms(2) by (simp add: begin_deploy_def)
  then obtain r where r: "existing = Some r" "i = intent_of r"
    using l loaded_intent unloaded_intent by (cases existing) fastforce+
  let ?m = "retained (db_manifest_toml body) (manifest_toml r)"
  have "stateful_regression (managed fm) (manifest_toml r) ?m = None"
  proof (rule ccontr)
    assume "stateful_regression (managed fm) (manifest_toml r) ?m \<noteq> None"
    then have "snd (deploy_locked orc fm w u body ?h) = ?h"
      using l r(1) by (auto simp: deploy_locked_def)
    then have "intent_at (snd (deploy_app orc fm w u body h)) u = intent_at h u"
      by (auto simp: deploy_app_def Let_def case_prod_unfold begin_deploy_def end_deploy_def split: sum.split)
    with False assms(2) show False by simp
  qed
  with assms(3) have "managed_persistence (managed fm) ?m = managed_persistence (managed fm) (in_manifest i)"
    by (auto simp: stateful_regression_def Let_def r(2) intent_of_def split: if_splits)
  then show ?thesis
    using new r(2) by (simp add: ask_deploy_def retained_def intent_of_def)
qed

theorem deploy_never_loses_the_disk_witness:
  "\<exists>j. intent_at (snd (deploy_app demo_orch
      \<lparr>cap_text = (\<lambda>_. None), managed = (\<lambda>t. Some \<lparr>mp_stateful = t = ''s'', mp_data_mount = None\<rparr>), log_text = (\<lambda>_. None)\<rparr>
      demo_waiting ''a'' \<lparr>db_reff = ''img'', db_runtime_override = None, db_manifest_toml = Some ''x'',
        db_net = \<lparr>dn_network = None, dn_runner_join_token = None\<rparr>, db_extra_env = None, db_egress_allow = None\<rparr>
      (demo_host [demo_born] (put_file (demo_record\<lparr>manifest_toml := Some ''s''\<rparr>) demo_dir)))) ''a'' = Some j \<and>
    in_manifest j = Some ''s''"
proof -
  let ?fm = "\<lparr>cap_text = (\<lambda>_. None), managed = (\<lambda>t. Some \<lparr>mp_stateful = t = ''s'', mp_data_mount = None\<rparr>),
    log_text = (\<lambda>_. None)\<rparr>"
  let ?h = "demo_host [demo_born] (put_file (demo_record\<lparr>manifest_toml := Some ''s''\<rparr>) demo_dir)"
  have w: "leaves_record ''a'' demo_waiting" by (simp add: leaves_record_def demo_waiting_def)
  have u: "uuid demo_record = ''a''" by (simp add: demo_record_def demo_handle_def)
  have h: "intent_at ?h ''a'' = Some (intent_of (demo_record\<lparr>manifest_toml := Some ''s''\<rparr>))"
    by (simp add: intent_at_def demo_host_def load_def put_file_def u) (simp add: demo_dir_def)
  have m: "in_manifest (intent_of (demo_record\<lparr>manifest_toml := Some ''s''\<rparr>)) = Some ''s''"
    by (simp add: intent_of_def)
  have st: "mp_stateful (managed_persistence (managed ?fm) (Some ''s''))"
    by (simp add: managed_persistence_def)
  have only: "in_manifest j = Some ''s''"
    if "managed_persistence (managed ?fm) (in_manifest j) = managed_persistence (managed ?fm) (Some ''s'')" for j
    using that by (cases "in_manifest j") (auto simp: managed_persistence_def default_ManagedPersistence_def)
  from deploy_never_loses_the_disk [OF w h, unfolded m, of ?fm, OF st] only show ?thesis by blast
qed

end
