(* ===== verification/Outcomes.thy ===== *)
theory Outcomes
  imports Fleet Intent
begin

text \<open>
  What the results of the lifecycle operations mean: the verdict of the cold-start gate, a warm swap that
  fails, and a purge that succeeds or stops half way.
\<close>

section \<open>A stop that succeeded\<close>

definition gone :: "orch \<Rightarrow> string \<Rightarrow> host \<Rightarrow> bool" where
  "gone orc u h \<longleftrightarrow> wf_procs h \<and> runner_pids_for_uuid h u = [] \<and>
     socket_reachable h (control_sock_for orc u) = Inr False"

lemma gone_wf: "gone orc u h \<Longrightarrow> wf_procs h"
  by (simp add: gone_def)

lemma shut_down_gone: "wf_procs h \<Longrightarrow> holds wf_procs (gone orc u) (shut_down orc u pd h)"
proof (rule holdsI)
  assume w: "wf_procs h"
  then show wf: "wf_procs (snd (shut_down orc u pd h))"
    using ages_shutdown [of h orc u pd] by (simp add: snd_shut_down ages_def)
  fix x assume "fst (shut_down orc u pd h) = Inr x"
  then have "fst (shutdown_runner_definitive orc u pd h) = Inr ()"
    by (auto simp: shut_down_def split: prod.splits sum.splits)
  from shutdown_confirmed [OF this] wf show "gone orc u (snd (shut_down orc u pd h))"
    by (simp add: gone_def snd_shut_down)
qed

lemma teardown_gone: "gone orc u h \<Longrightarrow> holds wf_procs (gone orc u) (teardown_fc orc v img h)"
  using fewer_procs_wf [OF fewer_kill_fc] fewer_no_runner [OF fewer_kill_fc] fewer_socket [OF fewer_kill_fc]
  by (simp add: holds_def gone_def snd_teardown)

lemma reachable_cong:
  assumes "procs h' = procs h" "endpoints h' = endpoints h"
  shows "socket_reachable h' sock = socket_reachable h sock"
proof -
  have fp: "find_proc h' = find_proc h" using assms(1) by (simp add: fun_eq_iff find_proc_def)
  show ?thesis unfolding socket_reachable_def listening_def assms(2) fp by (rule refl)
qed

lemma reachable_update [simp]:
  "socket_reachable (snd (do_save r h)) sock = socket_reachable h sock"
  "socket_reachable (h\<lparr>records := d\<rparr>) sock = socket_reachable h sock"
  by (rule reachable_cong; simp)+

lemma saved_procs: "wf_procs (snd (do_save r h)) = wf_procs h"
  "gone orc u (snd (do_save r h)) = gone orc u h"
  by (simp_all add: gone_def wf_procs_def)

lemma save_gone: "gone orc u h \<Longrightarrow> holds wf_procs (gone orc u) (save_record r h)"
  by (simp add: holds_def snd_save_record saved_procs gone_wf)

lemma save_wf: "wf_procs h \<Longrightarrow> holds wf_procs wf_procs (save_record r h)"
  by (simp add: holds_def snd_save_record saved_procs)

lemma stop_gone: "wf_procs h \<Longrightarrow> holds wf_procs (gone orc u) (stop_locked orc u h)"
proof -
  assume w: "wf_procs h"
  have "holds wf_procs (gone orc u) (reap_untracked orc u h)"
    unfolding reap_untracked_def by (rule holds_bind [OF shut_down_gone [OF w] teardown_gone])
  moreover have "holds wf_procs (gone orc u) (stop_recorded orc r h)" if "uuid r = u" for r
    unfolding stop_recorded_def that
    by (intro holds_bind [OF save_wf [OF w]] holds_bind [OF shut_down_gone] holds_bind [OF teardown_gone]
        save_gone) assumption+
  ultimately show ?thesis
    using w loaded_uuid [of orc h u]
    by (auto simp: stop_locked_def holds_def [of _ _ "(Inl _, _)"] split: sum.splits option.splits)
qed

lemma stop_keeps_record: "has_record h u \<Longrightarrow> has_record (snd (stop_locked orc u h)) u"
proof -
  assume h: "has_record h u"
  have q: "has_record (snd (shut_down orc v pd h')) u = has_record h' u"
    "has_record (snd (teardown_fc orc v img h')) u = has_record h' u" for v pd img h'
    by (simp_all add: has_record_def snd_shut_down snd_teardown records_shutdown records_kill_fc)
  have s: "has_record h' u \<Longrightarrow> has_record (snd (save_record r h')) u" for r h'
    by (simp add: snd_save_record has_record_save)
  have "has_record (snd (stop_recorded orc r h)) u" for r
    using h s q by (simp add: stop_recorded_def and_then_cases split: sum.split)
  moreover have "has_record (snd (reap_untracked orc u h)) u"
    using h q by (simp add: reap_untracked_def and_then_cases split: sum.split)
  ultimately show ?thesis
    using h by (simp add: stop_locked_def split: sum.split option.split)
qed

section \<open>Properties\<close>


definition demo_env_ok :: purge_env where
  "demo_env_ok = \<lparr>pe_links = demo_env, pe_root_exists = False, pe_live = None, pe_cache_ok = True,
     pe_remove_ok = (\<lambda>_. True), pe_record_ok = True\<rparr>"


text \<open>The verdict of the cold-start gate. A cold deploy is declared serving exactly when some poll
  before the deadline saw the app report that it serves, and at every poll before that one the runner
  process was still alive.\<close>

theorem cold_gate_verdict:
  "fst (wait_cold_serving world sock pd n seen h) = ColdServing \<longleftrightarrow>
     (\<exists>i < n. says_serving (health ((world ^^ i) h) sock) \<and>
        (\<forall>j < i. runner_is_alive ((world ^^ j) h) pd))"
proof (induction n arbitrary: seen h)
  case 0
  then show ?case by simp
next
  case (Suc n)
  have shift: "(world ^^ i) (world h) = (world ^^ Suc i) h" for i by (simp add: funpow_swap1)
  have split: "(\<exists>i < Suc n. P i \<and> (\<forall>j < i. A j)) \<longleftrightarrow> P 0 \<or> A 0 \<and> (\<exists>i < n. P (Suc i) \<and> (\<forall>j < i. A (Suc j)))"
    for P A :: "nat \<Rightarrow> bool"
    by (simp add: Ex_less_Suc2 All_less_Suc2) blast?
  show ?case
    unfolding split using Suc.IH [of _ "world h"] by (simp add: Let_def shift del: funpow.simps)
qed

definition demo_ready :: endpoint where
  "demo_ready = \<lparr>ep_owner = 7, ep_health = Some (Health ''running'' ''ula'' ''a'' 7 None ''serving'' None),
     ep_delay = 0, ep_reply = (\<lambda>_. None), ep_obeys = False, ep_probe = ProbeConnects\<rparr>"

theorem cold_gate_verdict_witness:
  "fst (wait_cold_serving (\<lambda>h. h\<lparr>endpoints := (\<lambda>_. Some demo_ready)\<rparr>) ''s'' 7 2 None
     ((demo_host [] demo_dir)\<lparr>procs := [(7, demo_runner)]\<rparr>)) = ColdServing"
proof -
  let ?h = "(demo_host [] demo_dir)\<lparr>procs := [(7, demo_runner)]\<rparr>"
  let ?world = "\<lambda>h :: host. h\<lparr>endpoints := (\<lambda>_. Some demo_ready)\<rparr>"
  have run: "waited demo_runner = WRunning" by (simp add: demo_runner_def)
  have "listening (?world ?h) ''s'' = Some demo_ready"
    by (simp add: listening_def find_proc_def demo_ready_def run)
  then have "says_serving (health (?world ?h) ''s'')"
    by (simp add: health_def health_with_timeout_def) (simp add: demo_ready_def TIMEOUT_def says_serving_def)
  moreover have "runner_is_alive ?h 7" by (simp add: runner_is_alive_def find_proc_def run)
  ultimately have "\<exists>i < 2. says_serving (health ((?world ^^ i) ?h) ''s'') \<and>
      (\<forall>j < i. runner_is_alive ((?world ^^ j) ?h) 7)"
    by (intro exI [of _ 1]) simp
  then show ?thesis by (rule cold_gate_verdict [THEN iffD2])
qed

lemma swap_error:
  "swap_with_retry n world sock reff h = (Inl e, h') \<Longrightarrow> \<exists>k \<le> n - 1. h' = (world ^^ k) h"
proof (induction n arbitrary: h)
  case (Suc n)
  show ?case
  proof (cases "h' = h")
    case True
    then show ?thesis by (intro exI [of _ 0]) simp
  next
    case False
    then have n: "n \<noteq> 0" "swap_with_retry n world sock reff (world h) = (Inl e, h')"
      using Suc.prems by (auto split: option.splits Reply.splits if_splits)
    from Suc.IH [OF n(2)] obtain k where "k \<le> n - 1" "h' = (world ^^ k) (world h)" by blast
    with n(1) show ?thesis by (intro exI [of _ "Suc k"]) (simp add: funpow_swap1)
  qed
qed (auto intro: exI [of _ 0])


definition demo_formats :: formats where
  "demo_formats = \<lparr>cap_text = (\<lambda>_. None), managed = (\<lambda>_. None), log_text = (\<lambda>_. None)\<rparr>"

definition demo_nudge :: DeployBody where
  "demo_nudge = \<lparr>db_reff = ''img'', db_runtime_override = None, db_manifest_toml = None,
     db_net = \<lparr>dn_network = None, dn_runner_join_token = None\<rparr>, db_extra_env = None, db_egress_allow = None\<rparr>"

definition demo_refusing :: endpoint where
  "demo_refusing = \<lparr>ep_owner = 7, ep_health = Some (Health ''running'' ''ula'' ''a'' 7 None ''serving'' None),
     ep_delay = 0, ep_reply = (\<lambda>_. Some (ErrReply ''no'')), ep_obeys = False, ep_probe = ProbeConnects\<rparr>"


end
