(* ===== verification/HostFs.thy ===== *)
theory HostFs
  imports Prelude "HOL-Library.AList" "HOL-Library.Sublist"
begin

text \<open>
  The file system as the image conversion uses it: directories, files and symbolic links, the walk of a
  path that follows links, and the calls of \<open>tokio::fs\<close> on it. A path is the list of its components.
\<close>

section \<open>Files\<close>

type_synonym path = "string list"

text \<open>\<open>LinkNode absolute target\<close>.\<close>

datatype inode = DirNode | FileNode string | LinkNode bool path

type_synonym fs = "(path \<times> inode) list"

definition lookup :: "fs \<Rightarrow> path \<Rightarrow> inode option" where
  "lookup f p = map_of f p"

definition is_link :: "inode option \<Rightarrow> bool" where
  "is_link nd = (case nd of Some (LinkNode _ _) \<Rightarrow> True | _ \<Rightarrow> False)"

definition MAX_LINKS :: nat where "MAX_LINKS = 40"

text \<open>The walk: \<open>acc\<close> is the real path so far, \<open>k\<close> the number of links that may still be followed.\<close>

fun walk :: "fs \<Rightarrow> nat \<Rightarrow> path \<Rightarrow> path \<Rightarrow> path option" where
  "walk f k acc [] = Some acc"
| "walk f k acc (c # cs) =
     (if c = '''' \<or> c = ''.'' then walk f k acc cs
      else if c = ''..'' then walk f k (butlast acc) cs
      else case lookup f (acc @ [c]) of
        Some (LinkNode absolute target) \<Rightarrow>
          (case k of 0 \<Rightarrow> None | Suc k' \<Rightarrow> walk f k' (if absolute then [] else acc) (target @ cs))
      | _ \<Rightarrow> walk f k (acc @ [c]) cs)"

definition follow :: "fs \<Rightarrow> path \<Rightarrow> path option" where
  "follow f p = walk f MAX_LINKS [] p"

definition special :: "string \<Rightarrow> bool" where
  "special c \<longleftrightarrow> c = '''' \<or> c = ''.'' \<or> c = ''..''"

text \<open>\<open>symlink_metadata\<close>: the last component is not followed.\<close>

definition symlink_metadata :: "fs \<Rightarrow> path \<Rightarrow> (path \<times> inode) option" where
  "symlink_metadata f p =
     (if p = [] \<or> special (last p) then Option.bind (follow f p) (\<lambda>q. map_option (Pair q) (lookup f q))
      else Option.bind (follow f (butlast p))
             (\<lambda>d. map_option (Pair (d @ [last p])) (lookup f (d @ [last p]))))"

definition is_dir :: "fs \<Rightarrow> path \<Rightarrow> bool" where
  "is_dir f p = (case follow f p of Some q \<Rightarrow> lookup f q = Some DirNode | None \<Rightarrow> False)"

definition children :: "fs \<Rightarrow> path \<Rightarrow> string list" where
  "children f d = map (last \<circ> fst) (filter (\<lambda>(p, _). p \<noteq> [] \<and> butlast p = d) f)"

definition read_dir :: "fs \<Rightarrow> path \<Rightarrow> string list option" where
  "read_dir f p =
     Option.bind (follow f p) (\<lambda>d. if lookup f d = Some DirNode then Some (children f d) else None)"

definition without_tree :: "path \<Rightarrow> fs \<Rightarrow> fs" where
  "without_tree p = filter (\<lambda>(q, _). \<not> prefix p q)"

definition emptied :: "path \<Rightarrow> fs \<Rightarrow> fs" where
  "emptied p = filter (\<lambda>(q, _). \<not> strict_prefix p q)"

text \<open>\<open>remove_any\<close>: a link or a file is unlinked, a directory is removed with everything below it; the
  directory itself stays when the path names it by \<open>.\<close> or \<open>..\<close>, which \<open>rmdir\<close> refuses.\<close>

definition remove_any :: "path \<Rightarrow> fs \<Rightarrow> fs" where
  "remove_any p f =
     (case symlink_metadata f p of
        None \<Rightarrow> f
      | Some (q, DirNode) \<Rightarrow>
          if p \<noteq> [] \<and> last p \<in> {''.'', ''..''} then emptied q f else without_tree q f
      | Some (q, _) \<Rightarrow> without_tree q f)"

definition mkdir :: "path \<Rightarrow> fs \<Rightarrow> fs option" where
  "mkdir p f =
     (if is_dir f p then Some f
      else case follow f (butlast p) of
        None \<Rightarrow> None
      | Some d \<Rightarrow>
          if lookup f d = Some DirNode \<and> lookup f (d @ [last p]) = None
          then Some (AList.update (d @ [last p]) DirNode f) else None)"

fun fold_opt :: "('a \<Rightarrow> 's \<Rightarrow> 's option) \<Rightarrow> 'a list \<Rightarrow> 's \<Rightarrow> 's option" where
  "fold_opt step [] s = Some s"
| "fold_opt step (x # xs) s = (case step x s of None \<Rightarrow> None | Some s' \<Rightarrow> fold_opt step xs s')"

definition create_dir_all :: "path \<Rightarrow> fs \<Rightarrow> fs option" where
  "create_dir_all p f = fold_opt mkdir (prefixes p) f"

text \<open>Renaming something that is not a directory over \<open>dst\<close>.\<close>

definition place :: "path \<Rightarrow> inode \<Rightarrow> fs \<Rightarrow> fs option" where
  "place dst nd f =
     (case follow f (butlast dst) of
        None \<Rightarrow> None
      | Some d \<Rightarrow>
          if lookup f d = Some DirNode \<and> lookup f (d @ [last dst]) \<noteq> Some DirNode
          then Some (AList.update (d @ [last dst]) nd f) else None)"

text \<open>\<open>fs::write\<close> follows a link at the destination.\<close>

definition write_file :: "path \<Rightarrow> string \<Rightarrow> fs \<Rightarrow> fs option" where
  "write_file p content f =
     (case follow f p of
        None \<Rightarrow> None
      | Some q \<Rightarrow>
          if q \<noteq> [] \<and> lookup f (butlast q) = Some DirNode \<and> lookup f q \<noteq> Some DirNode
          then Some (AList.update q (FileNode content) f) else None)"

section \<open>Well-formed file systems\<close>

text \<open>Every entry has a directory above it.\<close>

definition wf_fs :: "fs \<Rightarrow> bool" where
  "wf_fs f \<longleftrightarrow> lookup f [] = Some DirNode \<and>
     (\<forall>p. p \<noteq> [] \<longrightarrow> lookup f p \<noteq> None \<longrightarrow> lookup f (butlast p) = Some DirNode)"

lemma wf_strict_prefix:
  assumes "wf_fs f" "lookup f p \<noteq> None" "strict_prefix q p"
  shows "lookup f q = Some DirNode"
  using assms(2,3)
proof (induction p rule: rev_induct)
  case (snoc c p)
  have "lookup f p = Some DirNode"
    using assms(1) snoc.prems(1) unfolding wf_fs_def by (metis butlast_snoc snoc_eq_iff_butlast)
  moreover have "q = p \<or> strict_prefix q p"
    using snoc.prems(2) by (auto simp: strict_prefix_def)
  ultimately show ?case using snoc.IH by auto
qed simp

lemma lookup_update: "lookup (AList.update p nd f) q = (if q = p then Some nd else lookup f q)"
  by (simp add: lookup_def update_conv')

lemma map_of_filter_key: "map_of (filter (\<lambda>(q, _). P q) f) q = (if P q then map_of f q else None)"
  by (induction f) auto

lemma lookup_without: "lookup (without_tree p f) q = (if prefix p q then None else lookup f q)"
  by (simp add: lookup_def without_tree_def map_of_filter_key)

lemma lookup_emptied: "lookup (emptied p f) q = (if strict_prefix p q then None else lookup f q)"
  by (simp add: lookup_def emptied_def map_of_filter_key)

lemma wf_update:
  assumes "wf_fs f" "p \<noteq> []" "lookup f (butlast p) = Some DirNode" "lookup f p \<noteq> Some DirNode"
  shows "wf_fs (AList.update p nd f)"
proof -
  have "lookup f (butlast q) = Some DirNode \<and> butlast q \<noteq> p" if "q \<noteq> []" "lookup f q \<noteq> None" for q
    using assms(1,4) that unfolding wf_fs_def by metis
  with assms show ?thesis
    unfolding wf_fs_def lookup_update by (metis append_butlast_last_id not_Cons_self2 self_append_conv)
qed

lemma wf_without:
  assumes "wf_fs f" "p \<noteq> []"
  shows "wf_fs (without_tree p f)"
proof -
  have "\<not> prefix p (butlast q)" if "\<not> prefix p q" for q
    using that prefix_order.trans [OF _ prefixeq_butlast] by blast
  with assms show ?thesis unfolding wf_fs_def lookup_without by auto
qed

section \<open>Where nothing is a link\<close>

definition plain_name :: "string \<Rightarrow> bool" where
  "plain_name c \<longleftrightarrow> \<not> special c"

lemma walk_plain:
  assumes "\<forall>c \<in> set cs. plain_name c" "\<And>q. prefix q cs \<Longrightarrow> \<not> is_link (lookup f (acc @ q))"
  shows "walk f k acc cs = Some (acc @ cs)"
  using assms
proof (induction cs arbitrary: acc)
  case (Cons c cs)
  have n: "c \<noteq> ''''" "c \<noteq> ''.''" "c \<noteq> ''..''"
    using Cons.prems(1) by (auto simp: plain_name_def special_def)
  have "\<not> is_link (lookup f (acc @ [c]))" using Cons.prems(2) [of "[c]"] by simp
  moreover have "walk f k (acc @ [c]) cs = Some ((acc @ [c]) @ cs)"
  proof (rule Cons.IH)
    show "\<forall>c \<in> set cs. plain_name c" using Cons.prems(1) by simp
    show "\<not> is_link (lookup f ((acc @ [c]) @ q))" if "prefix q cs" for q
      using Cons.prems(2) [of "c # q"] that by simp
  qed
  ultimately show ?case using n by (auto simp: is_link_def split: option.splits inode.splits)
qed simp

end
