(* ===== verification/OciMerge.thy ===== *)
theory OciMerge
  imports HostFs
begin

text \<open>
  Unpacking an image: the layers of an OCI layout merged into the staging directory, and the guest init
  written over them (\<open>unpack_oci_layers\<close>, \<open>merge_layer\<close>, \<open>remove_any\<close> and \<open>inject_init\<close> of
  \<open>src/src/runner/build/firecracker.rs\<close>). What the \<open>tar\<close> crate extracted from a layer is the list of
  entries of its directory, in the order of the walk.
\<close>

section \<open>One layer\<close>

text \<open>An entry: the directory it is in, relative to the layer, its name and what it is.\<close>

type_synonym entry = "path \<times> string \<times> inode"

definition OPAQUE :: string where "OPAQUE = ''.wh..wh..opq''"

definition opaque_rel :: "entry list \<Rightarrow> path list" where
  "opaque_rel es = map fst (filter (\<lambda>(_, name, nd). nd \<noteq> DirNode \<and> name = OPAQUE) es)"

definition whiteouts :: "entry list \<Rightarrow> path list" where
  "whiteouts es = List.map_filter (\<lambda>(rel, name, nd).
     if nd \<noteq> DirNode \<and> name \<noteq> OPAQUE then map_option (\<lambda>t. rel @ [t]) (strip_prefix ''.wh.'' name) else None) es"

definition dirs_rel :: "entry list \<Rightarrow> path list" where
  "dirs_rel es = map (\<lambda>(rel, name, _). rel @ [name]) (filter (\<lambda>(_, _, nd). nd = DirNode) es)"

definition layer_files :: "entry list \<Rightarrow> (path \<times> inode) list" where
  "layer_files es = map (\<lambda>(rel, name, nd). (rel @ [name], nd)) (filter (\<lambda>(_, name, nd).
     nd \<noteq> DirNode \<and> name \<noteq> OPAQUE \<and> strip_prefix ''.wh.'' name = None) es)"

definition clear_opaque :: "path \<Rightarrow> path \<Rightarrow> fs \<Rightarrow> fs" where
  "clear_opaque staging rel f =
     (case read_dir f (staging @ rel) of
        None \<Rightarrow> f
      | Some names \<Rightarrow> fold (\<lambda>name. remove_any (staging @ rel @ [name])) names f)"

definition overlay_dir :: "path \<Rightarrow> path \<Rightarrow> fs \<Rightarrow> fs option" where
  "overlay_dir staging rel f =
     create_dir_all (staging @ rel)
       (case symlink_metadata f (staging @ rel) of
          Some (_, nd) \<Rightarrow> if nd = DirNode then f else remove_any (staging @ rel) f
        | None \<Rightarrow> f)"

definition overlay_file :: "path \<Rightarrow> path \<times> inode \<Rightarrow> fs \<Rightarrow> fs option" where
  "overlay_file staging e f =
     (case e of (rel, nd) \<Rightarrow>
        Option.bind (create_dir_all (staging @ butlast rel) f)
          (\<lambda>f'. place (staging @ rel) nd (remove_any (staging @ rel) f')))"

definition merge_layer :: "path \<Rightarrow> entry list \<Rightarrow> fs \<Rightarrow> fs option" where
  "merge_layer staging es f =
     (let f1 = fold (clear_opaque staging) (opaque_rel es) f;
          f2 = fold (\<lambda>rel. remove_any (staging @ rel)) (whiteouts es) f1
      in Option.bind (fold_opt (overlay_dir staging) (dirs_rel es) f2)
           (fold_opt (overlay_file staging) (layer_files es)))"

section \<open>The image\<close>

text \<open>The layers as extracted, \<open>None\<close> for one that cannot be, and the number of diff ids of the
  configuration.\<close>

definition unpack_oci_layers :: "path \<Rightarrow> entry list option list \<Rightarrow> nat \<Rightarrow> fs \<Rightarrow> fs option" where
  "unpack_oci_layers staging layers diff_ids f =
     (if length layers \<noteq> diff_ids then None
      else Option.bind (create_dir_all staging f)
        (fold_opt (\<lambda>l f. Option.bind l (\<lambda>es. merge_layer staging es f)) layers))"

definition inject_init :: "path \<Rightarrow> string \<Rightarrow> fs \<Rightarrow> fs option" where
  "inject_init staging script f = write_file (staging @ [''init'']) script f"

section \<open>The overlay a layer stands for\<close>

type_synonym tree = "path \<Rightarrow> inode option"

definition tree_at :: "path \<Rightarrow> fs \<Rightarrow> tree" where
  "tree_at root f q = lookup f (root @ q)"

definition hidden :: "entry list \<Rightarrow> path \<Rightarrow> bool" where
  "hidden es q \<longleftrightarrow>
     list_ex (\<lambda>d. strict_prefix d q) (opaque_rel es) \<or> list_ex (\<lambda>w. prefix w q) (whiteouts es) \<or>
     list_ex (\<lambda>(p, _). strict_prefix p q) (layer_files es)"

definition overlay :: "entry list \<Rightarrow> tree \<Rightarrow> tree" where
  "overlay es t q =
     (if q \<in> set (dirs_rel es) then Some DirNode
      else case map_of (layer_files es) q of
        Some nd \<Rightarrow> Some nd
      | None \<Rightarrow> if hidden es q then None else t q)"

fun parents_first :: "path list \<Rightarrow> path list \<Rightarrow> bool" where
  "parents_first seen [] = True"
| "parents_first seen (d # ds) =
     ((butlast d = [] \<or> butlast d \<in> set seen) \<and> parents_first (d # seen) ds)"

text \<open>What an extracted directory looks like: plain names, every entry once and in a directory of the
  layer, parents before children.\<close>

definition layer_ok :: "entry list \<Rightarrow> bool" where
  "layer_ok es \<longleftrightarrow>
     list_all (\<lambda>(rel, name, _). plain_name name \<and> (rel = [] \<or> rel \<in> set (dirs_rel es))) es \<and>
     list_all (\<lambda>w. plain_name (last w)) (whiteouts es) \<and>
     parents_first [] (dirs_rel es) \<and> distinct (map (\<lambda>(rel, name, _). rel @ [name]) es)"

text \<open>No marker of the layer is reached through a link that a lower layer left.\<close>

definition no_link_under_markers :: "entry list \<Rightarrow> tree \<Rightarrow> bool" where
  "no_link_under_markers es t \<longleftrightarrow>
     (\<forall>d \<in> set (opaque_rel es). \<forall>r \<in> set (prefixes d). \<not> is_link (t r)) \<and>
     (\<forall>w \<in> set (whiteouts es). \<forall>r \<in> set (prefixes (butlast w)). \<not> is_link (t r))"

section \<open>Lemmas\<close>

definition staged :: "path \<Rightarrow> fs \<Rightarrow> bool" where
  "staged root f \<longleftrightarrow>
     wf_fs f \<and> (\<forall>c \<in> set root. plain_name c) \<and> lookup f root = Some DirNode \<and>
     (\<forall>q c. lookup f (root @ q) \<noteq> None \<longrightarrow> c \<in> set q \<longrightarrow> plain_name c)"

lemma staged_prefix_dir: "staged root f \<Longrightarrow> prefix q root \<Longrightarrow> lookup f q = Some DirNode"
  using wf_strict_prefix [of f root q] by (cases "q = root") (auto simp: staged_def)

lemma follow_staged:
  assumes "staged root f" "\<forall>c \<in> set p. plain_name c" "\<And>r. prefix r p \<Longrightarrow> \<not> is_link (lookup f (root @ r))"
  shows "follow f (root @ p) = Some (root @ p)"
proof -
  have "\<not> is_link (lookup f q)" if q: "prefix q (root @ p)" for q
  proof (cases "prefix q root")
    case True
    then show ?thesis using staged_prefix_dir [OF assms(1)] by (simp add: is_link_def)
  next
    case False
    then obtain r where "q = root @ r" "prefix r p"
      using q by (metis prefix_append)
    then show ?thesis using assms(3) by blast
  qed
  then show ?thesis
    unfolding follow_def using walk_plain [of "root @ p" f "[]" MAX_LINKS] assms(1,2)
    by (auto simp: staged_def)
qed

lemma staged_below_none:
  assumes "staged root f" "lookup f p = None" "prefix p q"
  shows "lookup f q = None"
proof (rule ccontr)
  assume n: "lookup f q \<noteq> None"
  then have "strict_prefix p q" using assms by (auto simp: strict_prefix_def)
  with n assms wf_strict_prefix [of f q p] show False by (simp add: staged_def)
qed

lemma strict_prefix_butlast: "strict_prefix r p \<Longrightarrow> prefix r (butlast p)"
  by (cases p rule: rev_cases) (auto simp: strict_prefix_def)

text \<open>Metadata of a path below the root that no link lies on.\<close>

lemma metadata_staged:
  assumes "staged root f" "p \<noteq> []" "\<forall>c \<in> set p. plain_name c"
    "\<And>r. strict_prefix r p \<Longrightarrow> \<not> is_link (lookup f (root @ r))"
  shows "symlink_metadata f (root @ p) = map_option (Pair (root @ p)) (lookup f (root @ p))"
proof -
  obtain d c where p: "p = d @ [c]" using assms(2) by (metis rev_exhaust)
  have "follow f (root @ d) = Some (root @ d)"
  proof (rule follow_staged [OF assms(1)])
    fix r assume "prefix r d"
    then have "strict_prefix r p" unfolding p by (auto simp: strict_prefix_def)
    then show "\<not> is_link (lookup f (root @ r))" by (rule assms(4))
  qed (use assms(3) p in auto)
  moreover have "\<not> special c" using assms(3) p by (auto simp: plain_name_def)
  ultimately show ?thesis
    by (simp add: symlink_metadata_def p butlast_append flip: append_assoc)
qed

definition dropped :: "path \<Rightarrow> path set \<Rightarrow> fs \<Rightarrow> fs \<Rightarrow> bool" where
  "dropped root P f f' \<longleftrightarrow> staged root f' \<and>
     (\<forall>q. lookup f' q = (if \<exists>p \<in> P. prefix (root @ p) q then None else lookup f q))"

lemma staged_without:
  assumes "staged root f" "p \<noteq> []"
  shows "staged root (without_tree (root @ p) f)"
proof -
  have "\<not> prefix (root @ p) root" using assms(2) by simp
  then show ?thesis
    using assms wf_without [of f "root @ p"] unfolding staged_def lookup_without by auto
qed

lemma remove_staged:
  assumes "staged root f" "p \<noteq> []" "\<forall>c \<in> set p. plain_name c"
    "\<And>r. strict_prefix r p \<Longrightarrow> \<not> is_link (lookup f (root @ r))"
  shows "dropped root {p} f (remove_any (root @ p) f)"
proof (cases "lookup f (root @ p)")
  case None
  then have "remove_any (root @ p) f = f"
    using metadata_staged [OF assms] by (simp add: remove_any_def)
  then show ?thesis
    using assms(1) staged_below_none [OF assms(1) None] by (simp add: dropped_def)
next
  case (Some nd)
  have "plain_name (last (root @ p))" using assms(2,3) by simp
  then have "last (root @ p) \<notin> {''.'', ''..''}" by (auto simp: plain_name_def special_def)
  then have "remove_any (root @ p) f = without_tree (root @ p) f"
    using metadata_staged [OF assms] Some by (cases nd) (simp_all add: remove_any_def)
  then show ?thesis
    using staged_without [OF assms(1,2)] by (simp add: dropped_def lookup_without)
qed

lemma dropped_refl: "staged root f \<Longrightarrow> dropped root {} f f"
  by (simp add: dropped_def)

lemma dropped_trans: "dropped root P f f' \<Longrightarrow> dropped root R f' f'' \<Longrightarrow> dropped root (P \<union> R) f f''"
  by (auto simp: dropped_def)

lemma dropped_link: "dropped root P f f' \<Longrightarrow> is_link (lookup f' q) \<Longrightarrow> is_link (lookup f q)"
  by (auto simp: dropped_def is_link_def split: if_splits)

text \<open>A run of removals whose paths no link lies on.\<close>

lemma remove_all_staged:
  assumes "staged root f" "\<And>p. p \<in> set ps \<Longrightarrow> p \<noteq> [] \<and> (\<forall>c \<in> set p. plain_name c)"
    "\<And>p r. p \<in> set ps \<Longrightarrow> strict_prefix r p \<Longrightarrow> \<not> is_link (lookup f (root @ r))"
  shows "dropped root (set ps) f (fold (\<lambda>p. remove_any (root @ p)) ps f)"
  using assms
proof (induction ps arbitrary: f)
  case (Cons p ps)
  have d: "dropped root {p} f (remove_any (root @ p) f)"
    using Cons.prems by (intro remove_staged) auto
  have "dropped root (set ps) (remove_any (root @ p) f) (fold (\<lambda>p. remove_any (root @ p)) ps (remove_any (root @ p) f))"
  proof (rule Cons.IH)
    show "staged root (remove_any (root @ p) f)" using d by (simp add: dropped_def)
    show "q \<noteq> [] \<and> (\<forall>c \<in> set q. plain_name c)" if "q \<in> set ps" for q
      using Cons.prems(2) [of q] that by simp
    show "\<not> is_link (lookup (remove_any (root @ p) f) (root @ r))" if "q \<in> set ps" "strict_prefix r q" for q r
      using dropped_link [OF d] Cons.prems(3) [of q r] that by auto
  qed
  from dropped_trans [OF d this] show ?case by simp
qed (simp add: dropped_refl)

lemma children_staged:
  assumes "c \<in> set (children f d)"
  shows "lookup f (d @ [c]) \<noteq> None"
  using assms by (auto simp: children_def lookup_def map_of_eq_None_iff) (metis append_butlast_last_id fst_conv image_eqI)

lemma children_all:
  assumes "lookup f (d @ [c]) \<noteq> None"
  shows "c \<in> set (children f d)"
proof -
  obtain nd where "(d @ [c], nd) \<in> set f" using assms by (auto simp: lookup_def dest: map_of_SomeD)
  then show ?thesis by (force simp: children_def)
qed

text \<open>Clearing an opaque directory drops exactly what is strictly below it.\<close>

definition below :: "path \<Rightarrow> path set" where
  "below d = {q. strict_prefix d q}"

lemma dropped_below:
  assumes "staged root f" "dropped root ((\<lambda>c. d @ [c]) ` set (children f (root @ d))) f f'"
  shows "dropped root (below d) f f'"
proof -
  have "(\<exists>p \<in> (\<lambda>c. d @ [c]) ` set (children f (root @ d)). prefix (root @ p) q) \<longleftrightarrow>
      (\<exists>p \<in> below d. prefix (root @ p) q)" if l: "lookup f q \<noteq> None" for q
  proof
    assume "\<exists>p \<in> (\<lambda>c. d @ [c]) ` set (children f (root @ d)). prefix (root @ p) q"
    then obtain c where "prefix (root @ d @ [c]) q" by auto
    then show "\<exists>p \<in> below d. prefix (root @ p) q" by (intro bexI [of _ "d @ [c]"]) (simp_all add: below_def strict_prefixI')
  next
    assume "\<exists>p \<in> below d. prefix (root @ p) q"
    then obtain c e where "prefix (root @ d @ c # e) q" by (auto simp: below_def elim!: strict_prefixE')
    then have p: "prefix ((root @ d) @ [c]) q"
      by (metis append_Cons append_Nil append_assoc append_prefixD)
    have "lookup f ((root @ d) @ [c]) \<noteq> None"
      using staged_below_none [OF assms(1) _ p] l by auto
    then have "c \<in> set (children f (root @ d))" by (rule children_all)
    with p show "\<exists>p \<in> (\<lambda>c. d @ [c]) ` set (children f (root @ d)). prefix (root @ p) q"
      by (auto intro!: bexI [of _ c])
  qed
  with assms(2) show ?thesis unfolding dropped_def by metis
qed

lemma clear_staged:
  assumes "staged root f" "\<forall>c \<in> set d. plain_name c" "\<And>r. prefix r d \<Longrightarrow> \<not> is_link (lookup f (root @ r))"
  shows "dropped root (below d) f (clear_opaque root d f)"
proof -
  have fo: "follow f (root @ d) = Some (root @ d)" by (rule follow_staged [OF assms])
  show ?thesis
  proof (cases "lookup f (root @ d) = Some DirNode")
    case False
    then have "clear_opaque root d f = f" using fo by (simp add: clear_opaque_def read_dir_def)
    moreover have "lookup f q = None" if "p \<in> below d" "prefix (root @ p) q" for p q
    proof (rule ccontr)
      assume n: "lookup f q \<noteq> None"
      have "strict_prefix (root @ d) q"
        using that by (auto simp: below_def strict_prefix_def prefix_def)
      with n assms(1) wf_strict_prefix [of f q "root @ d"] False show False by (simp add: staged_def)
    qed
    ultimately show ?thesis using assms(1) by (auto simp: dropped_def)
  next
    case True
    let ?ps = "map (\<lambda>c. d @ [c]) (children f (root @ d))"
    have "clear_opaque root d f = fold (\<lambda>p. remove_any (root @ p)) ?ps f"
      using fo True by (simp add: clear_opaque_def read_dir_def fold_map comp_def)
    moreover have "dropped root (set ?ps) f (fold (\<lambda>p. remove_any (root @ p)) ?ps f)"
    proof (rule remove_all_staged [OF assms(1)])
      fix p assume "p \<in> set ?ps"
      then obtain c where c: "p = d @ [c]" "c \<in> set (children f (root @ d))" by auto
      have "lookup f (root @ d @ [c]) \<noteq> None" using children_staged [OF c(2)] by simp
      then have "plain_name c" using assms(1) by (auto simp: staged_def)
      with assms(2) c show "p \<noteq> [] \<and> (\<forall>c \<in> set p. plain_name c)" by auto
      fix r assume "strict_prefix r p"
      then have "prefix r d" using c by (auto simp: strict_prefix_def)
      then show "\<not> is_link (lookup f (root @ r))" by (rule assms(3))
    qed
    ultimately show ?thesis using dropped_below [OF assms(1)] by simp
  qed
qed

lemma clear_all_staged:
  assumes "staged root f" "\<And>d c. d \<in> set ds \<Longrightarrow> c \<in> set d \<Longrightarrow> plain_name c"
    "\<And>d r. d \<in> set ds \<Longrightarrow> prefix r d \<Longrightarrow> \<not> is_link (lookup f (root @ r))"
  shows "dropped root (\<Union> (below ` set ds)) f (fold (clear_opaque root) ds f)"
  using assms
proof (induction ds arbitrary: f)
  case (Cons d ds)
  have d: "dropped root (below d) f (clear_opaque root d f)"
    using Cons.prems by (intro clear_staged) auto
  have "dropped root (\<Union> (below ` set ds)) (clear_opaque root d f) (fold (clear_opaque root) ds (clear_opaque root d f))"
  proof (rule Cons.IH)
    show "staged root (clear_opaque root d f)" using d by (simp add: dropped_def)
    show "\<not> is_link (lookup (clear_opaque root d f) (root @ r))" if "e \<in> set ds" "prefix r e" for e r
      using dropped_link [OF d] Cons.prems(3) [of e r] that by auto
  qed (use Cons.prems(2) in auto)
  from dropped_trans [OF d this] show ?case by simp
qed (simp add: dropped_refl)

section \<open>Adding\<close>

text \<open>\<open>f'\<close> is \<open>f\<close> with the entries \<open>t\<close> below the root changed.\<close>

definition becomes :: "path \<Rightarrow> fs \<Rightarrow> fs \<Rightarrow> tree \<Rightarrow> bool" where
  "becomes root f f' t \<longleftrightarrow> staged root f' \<and> tree_at root f' = t \<and>
     (\<forall>q. \<not> prefix root q \<longrightarrow> lookup f' q = lookup f q)"

lemma becomes_trans: "becomes root f f' t \<Longrightarrow> becomes root f' f'' t' \<Longrightarrow> becomes root f f'' t'"
  by (simp add: becomes_def)

lemma dropped_becomes:
  "dropped root P f f' \<Longrightarrow> becomes root f f' (\<lambda>q. if \<exists>p \<in> P. prefix p q then None else tree_at root f q)"
  using append_prefixD by (fastforce simp: dropped_def becomes_def tree_at_def fun_eq_iff)

lemma staged_update:
  assumes "staged root f" "\<forall>c \<in> set p. plain_name c" "p \<noteq> []" "lookup f (root @ butlast p) = Some DirNode"
    "lookup f (root @ p) \<noteq> Some DirNode"
  shows "becomes root f (AList.update (root @ p) nd f) ((tree_at root f)(p := Some nd))"
proof -
  have "wf_fs (AList.update (root @ p) nd f)"
    using assms by (intro wf_update) (simp_all add: staged_def butlast_append)
  then have "staged root (AList.update (root @ p) nd f)"
    using assms(1-3) by (auto simp: staged_def lookup_update)
  then show ?thesis using assms(3) by (auto simp: becomes_def tree_at_def lookup_update fun_eq_iff)
qed

lemma dir_prefixes: "staged root f \<Longrightarrow> lookup f (root @ p) = Some DirNode \<Longrightarrow> prefix r p \<Longrightarrow>
    lookup f (root @ r) = Some DirNode"
  using wf_strict_prefix [of f "root @ p" "root @ r"] by (cases "r = p") (auto simp: staged_def strict_prefix_def)

lemma follow_dir:
  assumes "staged root f" "\<forall>c \<in> set p. plain_name c" "lookup f (root @ p) = Some DirNode"
  shows "follow f (root @ p) = Some (root @ p)"
  by (rule follow_staged [OF assms(1,2)]) (simp add: dir_prefixes [OF assms(1,3)] is_link_def)

lemma fold_opt_append:
  "fold_opt step (xs @ ys) s = Option.bind (fold_opt step xs s) (fold_opt step ys)"
  by (induction xs arbitrary: s) (auto split: option.splits)

lemma create_existing:
  assumes "staged root f" "\<forall>c \<in> set p. plain_name c" "lookup f (root @ p) = Some DirNode"
  shows "create_dir_all (root @ p) f = Some f"
proof -
  have dir: "is_dir f q" if q: "prefix q (root @ p)" for q
  proof -
    have l: "lookup f q' = Some DirNode" if "prefix q' (root @ p)" for q'
      using wf_strict_prefix [of f "root @ p" q'] that assms(1,3) by (cases "q' = root @ p") (auto simp: staged_def)
    have "follow f q = Some q"
      unfolding follow_def
    proof (rule walk_plain [of q f "[]", simplified])
      show "\<forall>c \<in> set q. plain_name c" using set_mono_prefix [OF q] assms(1,2) by (auto simp: staged_def)
      show "\<not> is_link (lookup f r)" if "prefix r q" for r
        using l [of r] that q prefix_order.trans [of r q] by (simp add: is_link_def)
    qed
    then show ?thesis using l [OF q] by (simp add: is_dir_def)
  qed
  have "fold_opt mkdir qs f = Some f" if "\<forall>q \<in> set qs. is_dir f q" for qs
    using that by (induction qs) (simp_all add: mkdir_def)
  then show ?thesis unfolding create_dir_all_def using dir by simp
qed

lemma create_new:
  assumes "staged root f" "\<forall>c \<in> set p. plain_name c" "p \<noteq> []" "lookup f (root @ butlast p) = Some DirNode"
    "lookup f (root @ p) \<in> {None, Some DirNode}"
  shows "\<exists>f'. create_dir_all (root @ p) f = Some f' \<and> becomes root f f' ((tree_at root f)(p := Some DirNode))"
proof (cases "lookup f (root @ p)")
  case (Some nd)
  then have d: "lookup f (root @ p) = Some DirNode" using assms(5) by simp
  then have "(tree_at root f)(p := Some DirNode) = tree_at root f" by (auto simp: tree_at_def)
  with create_existing [OF assms(1,2) d] assms(1) show ?thesis by (simp add: becomes_def)
next
  case None
  obtain d c where p: "p = d @ [c]" using assms(3) by (metis rev_exhaust)
  have d: "lookup f (root @ d) = Some DirNode" "\<forall>c \<in> set d. plain_name c"
    using assms(2,4) p by auto
  have "follow f (root @ p) = Some (root @ p)"
  proof (rule follow_staged [OF assms(1,2)])
    fix r assume "prefix r p"
    then have "r = p \<or> prefix r d" by (auto simp: p)
    then show "\<not> is_link (lookup f (root @ r))"
      using None dir_prefixes [OF assms(1) d(1)] by (auto simp: is_link_def)
  qed
  then have "mkdir (root @ p) f = Some (AList.update (root @ p) DirNode f)"
    using None d(1) follow_dir [OF assms(1) d(2,1)] by (simp add: mkdir_def is_dir_def p butlast_append flip: append_assoc)
  moreover have "prefixes (root @ p) = prefixes (root @ d) @ [root @ p]"
    by (simp add: p flip: append_assoc)
  moreover have "fold_opt mkdir (prefixes (root @ d)) f = Some f"
    using create_existing [OF assms(1) d(2,1)] by (simp add: create_dir_all_def)
  ultimately have "create_dir_all (root @ p) f = Some (AList.update (root @ p) DirNode f)"
    by (simp add: create_dir_all_def fold_opt_append)
  with staged_update [OF assms(1-4)] None show ?thesis by auto
qed

section \<open>The steps of a merge\<close>

lemma overlay_dir_staged:
  assumes "staged root f" "\<forall>c \<in> set d. plain_name c" "d \<noteq> []" "lookup f (root @ butlast d) = Some DirNode"
  shows "\<exists>f'. overlay_dir root d f = Some f' \<and> becomes root f f' ((tree_at root f)(d := Some DirNode))"
proof -
  have parents: "\<not> is_link (lookup f (root @ r))" if "strict_prefix r d" for r
  proof -
    have "prefix r (butlast d)" using that by (rule strict_prefix_butlast)
    then show ?thesis using dir_prefixes [OF assms(1,4)] by (simp add: is_link_def)
  qed
  have meta: "symlink_metadata f (root @ d) = map_option (Pair (root @ d)) (lookup f (root @ d))"
    using parents by (rule metadata_staged [OF assms(1,3,2)])
  show ?thesis
  proof (cases "lookup f (root @ d) \<in> {None, Some DirNode}")
    case True
    then have "overlay_dir root d f = create_dir_all (root @ d) f"
      using meta by (auto simp: overlay_dir_def)
    with create_new [OF assms True] show ?thesis by simp
  next
    case False
    define g where "g = remove_any (root @ d) f"
    have dr: "dropped root {d} f g" unfolding g_def using parents by (rule remove_staged [OF assms(1,3,2)])
    have "overlay_dir root d f = create_dir_all (root @ d) g"
      using False meta by (cases "lookup f (root @ d)") (auto simp: overlay_dir_def g_def)
    moreover have "\<not> prefix (root @ d) (root @ butlast d)" using assms(3) by (metis append_butlast_last_id
      not_Cons_self2 prefix_snoc same_prefix_prefix self_append_conv prefix_order.antisym prefixeq_butlast)
    then have up: "lookup g (root @ butlast d) = Some DirNode" using dr assms(4) by (simp add: dropped_def)
    have "lookup g (root @ d) = None" "staged root g" using dr by (simp_all add: dropped_def)
    ultimately obtain f' where f': "overlay_dir root d f = Some f'" "becomes root g f' ((tree_at root g)(d := Some DirNode))"
      using create_new [of root g d] assms(2,3) up by auto
    have "lookup f (root @ q) = None" if "strict_prefix d q" for q
    proof (rule ccontr)
      assume n: "lookup f (root @ q) \<noteq> None"
      have "strict_prefix (root @ d) (root @ q)" using that by (auto simp: strict_prefix_def)
      with n assms(1) wf_strict_prefix [of f "root @ q" "root @ d"] False show False by (simp add: staged_def)
    qed
    then have "(tree_at root g)(d := Some DirNode) = (tree_at root f)(d := Some DirNode)"
      using dr by (auto simp: fun_eq_iff tree_at_def dropped_def strict_prefix_def)
    with f' becomes_trans [OF dropped_becomes [OF dr] f'(2)] show ?thesis by auto
  qed
qed

lemma overlay_dirs_staged:
  assumes "staged root f" "\<And>d c. d \<in> set ds \<Longrightarrow> c \<in> set d \<Longrightarrow> plain_name c" "[] \<notin> set ds"
    "parents_first seen ds" "\<And>d. d \<in> set seen \<Longrightarrow> lookup f (root @ d) = Some DirNode"
  shows "\<exists>f'. fold_opt (overlay_dir root) ds f = Some f' \<and>
    becomes root f f' (\<lambda>q. if q \<in> set ds then Some DirNode else tree_at root f q)"
  using assms
proof (induction ds arbitrary: f seen)
  case Nil
  then show ?case by (simp add: becomes_def tree_at_def fun_eq_iff)
next
  case (Cons d ds)
  have "butlast d = [] \<or> butlast d \<in> set seen" using Cons.prems(4) by simp
  then have up: "lookup f (root @ butlast d) = Some DirNode"
    using Cons.prems(1,5) by (auto simp: staged_def)
  obtain g where g: "overlay_dir root d f = Some g" "becomes root f g ((tree_at root f)(d := Some DirNode))"
    using overlay_dir_staged [OF Cons.prems(1) _ _ up] Cons.prems(2,3) by auto
  have tg: "lookup g (root @ q) = (if q = d then Some DirNode else lookup f (root @ q))" for q
    using g(2) by (auto simp: becomes_def tree_at_def fun_eq_iff)
  have "\<exists>f'. fold_opt (overlay_dir root) ds g = Some f' \<and>
    becomes root g f' (\<lambda>q. if q \<in> set ds then Some DirNode else tree_at root g q)"
  proof (rule Cons.IH)
    show "staged root g" using g(2) by (simp add: becomes_def)
    show "plain_name c" if "e \<in> set ds" "c \<in> set e" for e c using Cons.prems(2) [of e c] that by simp
    show "[] \<notin> set ds" "parents_first (d # seen) ds" using Cons.prems(3,4) by simp_all
    show "lookup g (root @ e) = Some DirNode" if "e \<in> set (d # seen)" for e
      using Cons.prems(5) [of e] that by (auto simp: tg)
  qed
  then obtain f' where f': "fold_opt (overlay_dir root) ds g = Some f'"
    "becomes root g f' (\<lambda>q. if q \<in> set ds then Some DirNode else tree_at root g q)" by blast
  have "(\<lambda>q. if q \<in> set ds then Some DirNode else tree_at root g q) =
      (\<lambda>q. if q \<in> set (d # ds) then Some DirNode else tree_at root f q)"
    by (auto simp: fun_eq_iff tree_at_def tg)
  with f' g becomes_trans [OF g(2) f'(2)] show ?case by simp
qed

lemma overlay_file_staged:
  assumes "staged root f" "\<forall>c \<in> set p. plain_name c" "p \<noteq> []" "lookup f (root @ butlast p) = Some DirNode"
    and "nd \<noteq> DirNode"
  shows "\<exists>f'. overlay_file root (p, nd) f = Some f' \<and> becomes root f f'
    (\<lambda>q. if q = p then Some nd else if prefix p q then None else tree_at root f q)"
proof -
  have bl: "\<forall>c \<in> set (butlast p). plain_name c" using assms(2) by (auto dest: in_set_butlastD)
  have "create_dir_all (root @ butlast p) f = Some f" by (rule create_existing [OF assms(1) bl assms(4)])
  moreover define g where "g = remove_any (root @ p) f"
  have "\<not> is_link (lookup f (root @ r))" if "strict_prefix r p" for r
  proof -
    have "prefix r (butlast p)" using that by (rule strict_prefix_butlast)
    then show ?thesis using dir_prefixes [OF assms(1,4)] by (simp add: is_link_def)
  qed
  then have dr: "dropped root {p} f g" unfolding g_def by (rule remove_staged [OF assms(1,3,2)])
  have "\<not> prefix p (butlast p)" using assms(3) by (metis append_butlast_last_id
      not_Cons_self2 prefix_order.antisym prefixeq_butlast self_append_conv)
  then have up: "lookup g (root @ butlast p) = Some DirNode" using dr assms(4) by (simp add: dropped_def)
  have g: "staged root g" "lookup g (root @ p) = None" using dr by (simp_all add: dropped_def)
  have "place (root @ p) nd g = Some (AList.update (root @ p) nd g)"
    using follow_dir [OF g(1) bl up] up g(2) assms(3) by (simp add: place_def butlast_append)
  moreover have "becomes root g (AList.update (root @ p) nd g) ((tree_at root g)(p := Some nd))"
    using staged_update [OF g(1) assms(2,3) up] g(2) by simp
  moreover have "(tree_at root g)(p := Some nd) =
      (\<lambda>q. if q = p then Some nd else if prefix p q then None else tree_at root f q)"
    using dr by (auto simp: fun_eq_iff tree_at_def dropped_def)
  ultimately show ?thesis
    using becomes_trans [OF dropped_becomes [OF dr]] by (auto simp: overlay_file_def g_def)
qed

lemma overlay_files_staged:
  assumes "staged root f" "\<And>p nd c. (p, nd) \<in> set es \<Longrightarrow> c \<in> set p \<Longrightarrow> plain_name c"
    "\<And>p nd. (p, nd) \<in> set es \<Longrightarrow> p \<noteq> [] \<and> nd \<noteq> DirNode \<and> lookup f (root @ butlast p) = Some DirNode"
    "distinct (map fst es)" "\<And>p nd q md. (p, nd) \<in> set es \<Longrightarrow> (q, md) \<in> set es \<Longrightarrow> \<not> prefix p (butlast q)"
  shows "\<exists>f'. fold_opt (overlay_file root) es f = Some f' \<and> becomes root f f'
    (\<lambda>q. case map_of es q of Some nd \<Rightarrow> Some nd
       | None \<Rightarrow> if list_ex (\<lambda>(p, _). strict_prefix p q) es then None else tree_at root f q)"
  using assms
proof (induction es arbitrary: f)
  case Nil
  then show ?case by (simp add: becomes_def tree_at_def fun_eq_iff)
next
  case (Cons e es)
  obtain p nd where e: "e = (p, nd)" by fastforce
  obtain g where g: "overlay_file root e f = Some g" "becomes root f g
      (\<lambda>q. if q = p then Some nd else if prefix p q then None else tree_at root f q)"
    using overlay_file_staged [OF Cons.prems(1), of p nd] Cons.prems(2,3) [of p nd] unfolding e by auto
  have tg: "lookup g (root @ q) = (if q = p then Some nd else if prefix p q then None else lookup f (root @ q))" for q
    using g(2) by (auto simp: becomes_def tree_at_def fun_eq_iff)
  have dir: "lookup g (root @ butlast q) = Some DirNode" if "(q, md) \<in> set es" for q md
    using Cons.prems(3) [of q md] Cons.prems(5) [of p nd q md] that by (auto simp: tg e)
  have "\<exists>f'. fold_opt (overlay_file root) es g = Some f' \<and>
    becomes root g f' (\<lambda>q. case map_of es q of Some nd \<Rightarrow> Some nd
       | None \<Rightarrow> if list_ex (\<lambda>(p, _). strict_prefix p q) es then None else tree_at root g q)"
  proof (rule Cons.IH)
    show "staged root g" using g(2) by (simp add: becomes_def)
    show "plain_name c" if "(q, md) \<in> set es" "c \<in> set q" for q md c using Cons.prems(2) [of q md c] that by simp
    show "q \<noteq> [] \<and> md \<noteq> DirNode \<and> lookup g (root @ butlast q) = Some DirNode" if "(q, md) \<in> set es" for q md
      using Cons.prems(3) [of q md] dir that by simp
    show "distinct (map fst es)" using Cons.prems(4) by simp
    show "\<not> prefix q (butlast q')" if "(q, md) \<in> set es" "(q', md') \<in> set es" for q md q' md'
      using Cons.prems(5) [of q md q' md'] that by simp
  qed
  then obtain f' where f': "fold_opt (overlay_file root) es g = Some f'"
    "becomes root g f' (\<lambda>q. case map_of es q of Some nd \<Rightarrow> Some nd
       | None \<Rightarrow> if list_ex (\<lambda>(p, _). strict_prefix p q) es then None else tree_at root g q)" by blast
  have above: "\<not> strict_prefix q p" if "(q, md) \<in> set es" for q md
  proof
    assume "strict_prefix q p"
    then have "prefix q (butlast p)"
      by (rule strict_prefix_butlast)
    with Cons.prems(5) [of q md p nd] that show False by (simp add: e)
  qed
  have "(\<lambda>q. case map_of es q of Some nd \<Rightarrow> Some nd
       | None \<Rightarrow> if list_ex (\<lambda>(p, _). strict_prefix p q) es then None else tree_at root g q) =
      (\<lambda>q. case map_of (e # es) q of Some nd \<Rightarrow> Some nd
       | None \<Rightarrow> if list_ex (\<lambda>(p, _). strict_prefix p q) (e # es) then None else tree_at root f q)"
  proof
    fix q
    have "map_of es p = None" using Cons.prems(4) by (simp add: e map_of_eq_None_iff)
    moreover have "\<not> list_ex (\<lambda>(p', _). strict_prefix p' p) es" using above by (auto simp: list_ex_iff)
    moreover have "\<not> prefix p q" if "map_of es q \<noteq> None" for q
    proof
      assume pq: "prefix p q"
      from that obtain md where m: "(q, md) \<in> set es" by (auto dest: map_of_SomeD)
      have "q \<noteq> p" using Cons.prems(4) m by (force simp: e)
      with pq have "prefix p (butlast q)"
        by (metis append_butlast_last_id prefix_Nil prefix_snoc)
      with Cons.prems(5) [of p nd q md] m show False by (simp add: e)
    qed
    ultimately show "(case map_of es q of Some nd \<Rightarrow> Some nd
       | None \<Rightarrow> if list_ex (\<lambda>(p, _). strict_prefix p q) es then None else tree_at root g q) =
      (case map_of (e # es) q of Some nd \<Rightarrow> Some nd
       | None \<Rightarrow> if list_ex (\<lambda>(p, _). strict_prefix p q) (e # es) then None else tree_at root f q)"
      by (auto simp: e tree_at_def tg strict_prefix_def split: option.split)
  qed
  with f' g becomes_trans [OF g(2) f'(2)] show ?case by simp
qed

section \<open>A whole layer\<close>

lemma parents_first_plain:
  assumes "parents_first seen ds" "\<forall>d \<in> set seen. \<forall>c \<in> set d. plain_name c"
    "\<forall>d \<in> set ds. d \<noteq> [] \<and> plain_name (last d)"
  shows "\<forall>d \<in> set ds. \<forall>c \<in> set d. plain_name c"
  using assms
proof (induction ds arbitrary: seen)
  case (Cons d ds)
  obtain e c where d: "d = e @ [c]" using Cons.prems(3) by (metis list.set_intros(1) rev_exhaust)
  have "\<forall>c \<in> set e. plain_name c" using Cons.prems(1,2) by (auto simp: d)
  then have pd: "\<forall>c \<in> set d. plain_name c" using Cons.prems(3) by (auto simp: d)
  have "\<forall>d \<in> set ds. \<forall>c \<in> set d. plain_name c"
    by (rule Cons.IH [of "d # seen"]) (use Cons.prems pd in simp_all)
  with pd show ?case by simp
qed simp

lemma parents_first_ancestor:
  assumes "parents_first seen ds" "d \<in> set ds" "prefix p d" "p \<noteq> []"
  shows "p \<in> set ds \<or> (\<exists>e \<in> set seen. prefix p e)"
  using assms(1,2)
proof (induction ds arbitrary: seen)
  case (Cons e ds)
  show ?case
  proof (cases "d = e")
    case True
    then have "p = e \<or> prefix p (butlast e)"
      using assms(3) strict_prefix_butlast [of p e] by (auto simp: strict_prefix_def)
    moreover have "\<not> prefix p []" using assms(4) by simp
    ultimately show ?thesis using Cons.prems(1) by auto
  next
    case False
    then have "p \<in> set ds \<or> (\<exists>x \<in> set (e # seen). prefix p x)"
      using Cons.prems Cons.IH [of "e # seen"] by simp
    moreover have "p \<in> set (e # ds) \<or> (\<exists>x \<in> set seen. prefix p x)" if "prefix p e"
    proof -
      have "p = e \<or> prefix p (butlast e)"
        using that strict_prefix_butlast [of p e] by (auto simp: strict_prefix_def)
      moreover have "\<not> prefix p []" using assms(4) by simp
      ultimately show ?thesis using Cons.prems(1) by auto
    qed
    ultimately show ?thesis by auto
  qed
qed simp

lemma layer_facts:
  assumes "layer_ok es"
  shows layer_dirs_plain: "d \<in> set (dirs_rel es) \<Longrightarrow> d \<noteq> [] \<and> (\<forall>c \<in> set d. plain_name c)"
    and layer_rel_plain: "(rel, name, nd) \<in> set es \<Longrightarrow> c \<in> set (rel @ [name]) \<Longrightarrow> plain_name c"
    and layer_rel: "(rel, name, nd) \<in> set es \<Longrightarrow> rel = [] \<or> rel \<in> set (dirs_rel es)"
    and layer_files_apart: "(p, nd) \<in> set (layer_files es) \<Longrightarrow> prefix p d \<Longrightarrow> d \<notin> set (dirs_rel es)"
proof -
  have pf: "parents_first [] (dirs_rel es)" using assms by (simp add: layer_ok_def)
  have last: "\<forall>d \<in> set (dirs_rel es). d \<noteq> [] \<and> plain_name (last d)"
    using assms by (auto simp: layer_ok_def dirs_rel_def list_all_iff)
  have plain: "\<forall>d \<in> set (dirs_rel es). \<forall>c \<in> set d. plain_name c"
    by (rule parents_first_plain [OF pf _ last]) simp
  then show "d \<in> set (dirs_rel es) \<Longrightarrow> d \<noteq> [] \<and> (\<forall>c \<in> set d. plain_name c)" using last by blast
  show rel: "rel = [] \<or> rel \<in> set (dirs_rel es)" if "(rel, name, nd) \<in> set es" for rel name nd
    using assms that by (auto simp: layer_ok_def list_all_iff)
  show "plain_name c" if "(rel, name, nd) \<in> set es" "c \<in> set (rel @ [name])" for rel name nd
  proof (cases "c \<in> set rel")
    case True
    then show ?thesis using rel [OF that(1)] plain by auto
  next
    case False
    then have "c = name" using that(2) by simp
    then show ?thesis using assms that(1) by (auto simp: layer_ok_def list_all_iff)
  qed
  show "d \<notin> set (dirs_rel es)" if f: "(p, nd) \<in> set (layer_files es)" and pd: "prefix p d" for p nd d
  proof
    assume d: "d \<in> set (dirs_rel es)"
    have "p \<noteq> []" using f by (auto simp: layer_files_def)
    from parents_first_ancestor [OF pf d pd this] have "p \<in> set (dirs_rel es)" by simp
    then obtain rel name where e1: "(rel, name, DirNode) \<in> set es" "p = rel @ [name]"
      by (auto simp: dirs_rel_def)
    obtain rel' name' where e2: "(rel', name', nd) \<in> set es" "p = rel' @ [name']" "nd \<noteq> DirNode"
      using f by (auto simp: layer_files_def)
    have "inj_on (\<lambda>(rel, name, _). rel @ [name]) (set es)"
      using assms by (simp add: layer_ok_def distinct_map)
    from inj_onD [OF this _ e1(1) e2(1)] e1(2) e2(2,3) show False by simp
  qed
qed

lemma distinct_layer_files: "layer_ok es \<Longrightarrow> distinct (map fst (layer_files es))"
proof -
  assume "layer_ok es"
  then have "distinct (map (\<lambda>(rel, name, _). rel @ [name]) es)" by (simp add: layer_ok_def)
  then have "distinct (map (\<lambda>(rel, name, _). rel @ [name]) (filter P es))" for P
    by (rule distinct_map_filter)
  moreover have "map fst (layer_files es) = map (\<lambda>(rel, name, _). rel @ [name]) (filter (\<lambda>(_, name, nd).
     nd \<noteq> DirNode \<and> name \<noteq> OPAQUE \<and> strip_prefix ''.wh.'' name = None) es)"
    by (simp add: layer_files_def comp_def case_prod_unfold)
  ultimately show ?thesis by simp
qed

lemma merge_staged:
  assumes st: "staged root f" and ok: "layer_ok es" and nl: "no_link_under_markers es (tree_at root f)"
  shows "\<exists>f'. merge_layer root es f = Some f' \<and> becomes root f f' (overlay es (tree_at root f))"
proof -
  let ?t = "tree_at root f"
  define f1 where "f1 = fold (clear_opaque root) (opaque_rel es) f"
  have "dropped root (\<Union> (below ` set (opaque_rel es))) f f1"
    unfolding f1_def
  proof (rule clear_all_staged [OF st])
    show "plain_name c" if "d \<in> set (opaque_rel es)" "c \<in> set d" for d c
      using that layer_rel_plain [OF ok, of d _ _ c] by (auto simp: opaque_rel_def)
    show "\<not> is_link (lookup f (root @ r))" if "d \<in> set (opaque_rel es)" "prefix r d" for d r
      using nl that by (auto simp: no_link_under_markers_def tree_at_def)
  qed
  note d1 = this
  define f2 where "f2 = fold (\<lambda>rel. remove_any (root @ rel)) (whiteouts es) f1"
  have wh: "\<exists>rel t name nd. w = rel @ [t] \<and> (rel, name, nd) \<in> set es" if "w \<in> set (whiteouts es)" for w
    using that by (auto simp: whiteouts_def map_filter_def split: if_splits) blast
  have "dropped root (set (whiteouts es)) f1 f2"
    unfolding f2_def
  proof (rule remove_all_staged)
    show "staged root f1" using d1 by (simp add: dropped_def)
    fix w assume w: "w \<in> set (whiteouts es)"
    then obtain rel t name nd where r: "w = rel @ [t]" "(rel, name, nd) \<in> set es" using wh by blast
    have "plain_name t" using ok w r(1) by (auto simp: layer_ok_def list_all_iff)
    with r layer_rel_plain [OF ok r(2)] show "w \<noteq> [] \<and> (\<forall>c \<in> set w. plain_name c)" by auto
    fix p assume "strict_prefix p w"
    then have "prefix p (butlast w)" by (rule strict_prefix_butlast)
    then have "\<not> is_link (lookup f (root @ p))" using nl w by (auto simp: no_link_under_markers_def tree_at_def)
    then show "\<not> is_link (lookup f1 (root @ p))" using dropped_link [OF d1] by blast
  qed
  from dropped_trans [OF d1 this]
  have d2: "dropped root (\<Union> (below ` set (opaque_rel es)) \<union> set (whiteouts es)) f f2" .
  then have s2: "staged root f2" by (simp add: dropped_def)
  obtain f3 where f3: "fold_opt (overlay_dir root) (dirs_rel es) f2 = Some f3"
    "becomes root f2 f3 (\<lambda>q. if q \<in> set (dirs_rel es) then Some DirNode else tree_at root f2 q)"
    using overlay_dirs_staged [OF s2, of "dirs_rel es" "[]"] layer_dirs_plain [OF ok] ok
    by (auto simp: layer_ok_def)
  have t3: "lookup f3 (root @ q) = (if q \<in> set (dirs_rel es) then Some DirNode else lookup f2 (root @ q))" for q
    using f3(2) by (auto simp: becomes_def tree_at_def fun_eq_iff)
  have s3: "staged root f3" using f3(2) by (simp add: becomes_def)
  have fl: "\<exists>rel name. p = rel @ [name] \<and> (rel, name, nd) \<in> set es \<and> nd \<noteq> DirNode"
    if "(p, nd) \<in> set (layer_files es)" for p nd
    using that by (auto simp: layer_files_def)
  have "\<exists>f4. fold_opt (overlay_file root) (layer_files es) f3 = Some f4 \<and> becomes root f3 f4
    (\<lambda>q. case map_of (layer_files es) q of Some nd \<Rightarrow> Some nd
       | None \<Rightarrow> if list_ex (\<lambda>(p, _). strict_prefix p q) (layer_files es) then None else tree_at root f3 q)"
  proof (rule overlay_files_staged [OF s3])
    show "plain_name c" if "(p, nd) \<in> set (layer_files es)" "c \<in> set p" for p nd c
      using fl [OF that(1)] that(2) layer_rel_plain [OF ok] by blast
    show "p \<noteq> [] \<and> nd \<noteq> DirNode \<and> lookup f3 (root @ butlast p) = Some DirNode"
      if pn: "(p, nd) \<in> set (layer_files es)" for p nd
    proof -
      obtain rel name where r: "p = rel @ [name]" "(rel, name, nd) \<in> set es" "nd \<noteq> DirNode"
        using fl [OF pn] by blast
      have "lookup f3 (root @ rel) = Some DirNode"
        using layer_rel [OF ok r(2)] t3 [of rel] s3
        by (cases "rel = []") (simp_all add: staged_def)
      with r show ?thesis by simp
    qed
    show "distinct (map fst (layer_files es))" by (rule distinct_layer_files [OF ok])
    show "\<not> prefix p (butlast q)" if pn: "(p, nd) \<in> set (layer_files es)" and qm: "(q, md) \<in> set (layer_files es)" for p nd q md
    proof
      assume pr: "prefix p (butlast q)"
      obtain rel name where r: "q = rel @ [name]" "(rel, name, md) \<in> set es" using fl [OF qm] by blast
      have "p \<noteq> []" using fl [OF pn] by auto
      then have "rel \<in> set (dirs_rel es)" using layer_rel [OF ok r(2)] pr r(1) by auto
      with layer_files_apart [OF ok pn, of rel] pr r(1) show False by simp
    qed
  qed
  then obtain f4 where f4: "fold_opt (overlay_file root) (layer_files es) f3 = Some f4"
    "becomes root f3 f4 (\<lambda>q. case map_of (layer_files es) q of Some nd \<Rightarrow> Some nd
       | None \<Rightarrow> if list_ex (\<lambda>(p, _). strict_prefix p q) (layer_files es) then None else tree_at root f3 q)" by blast
  have op: "(\<exists>p \<in> \<Union> (below ` set (opaque_rel es)). prefix p q) \<longleftrightarrow> list_ex (\<lambda>d. strict_prefix d q) (opaque_rel es)" for q
  proof
    assume "list_ex (\<lambda>d. strict_prefix d q) (opaque_rel es)"
    then have "q \<in> \<Union> (below ` set (opaque_rel es))" by (auto simp: list_ex_iff below_def)
    then show "\<exists>p \<in> \<Union> (below ` set (opaque_rel es)). prefix p q" by blast
  next
    assume "\<exists>p \<in> \<Union> (below ` set (opaque_rel es)). prefix p q"
    then show "list_ex (\<lambda>d. strict_prefix d q) (opaque_rel es)"
      by (auto simp: list_ex_iff below_def dest: prefix_order.less_le_trans)
  qed
  have t2: "tree_at root f2 q = (if list_ex (\<lambda>d. strict_prefix d q) (opaque_rel es) \<or>
      list_ex (\<lambda>w. prefix w q) (whiteouts es) then None else ?t q)" for q
    using d2 op [of q] by (auto simp: dropped_def tree_at_def bex_Un list_ex_iff)
  have "(\<lambda>q. case map_of (layer_files es) q of Some nd \<Rightarrow> Some nd
       | None \<Rightarrow> if list_ex (\<lambda>(p, _). strict_prefix p q) (layer_files es) then None else tree_at root f3 q) =
      overlay es ?t"
  proof
    fix q
    show "(case map_of (layer_files es) q of Some nd \<Rightarrow> Some nd
       | None \<Rightarrow> if list_ex (\<lambda>(p, _). strict_prefix p q) (layer_files es) then None else tree_at root f3 q) =
      overlay es ?t q"
    proof (cases "q \<in> set (dirs_rel es)")
      case True
      have "map_of (layer_files es) q = None"
        using layer_files_apart [OF ok, of q _ q] True by (cases "map_of (layer_files es) q") (auto dest: map_of_SomeD)
      moreover have "\<not> list_ex (\<lambda>(p, _). strict_prefix p q) (layer_files es)"
        using layer_files_apart [OF ok, of _ _ q] True by (auto simp: list_ex_iff strict_prefix_def)
      ultimately show ?thesis using True by (simp add: overlay_def tree_at_def t3)
    next
      case False
      then show ?thesis using t2 [of q] by (auto simp: overlay_def hidden_def tree_at_def t3 split: option.split)
    qed
  qed
  with f4 f3 have "becomes root f f4 (overlay es ?t)"
    using becomes_trans [OF dropped_becomes [OF d2] becomes_trans [OF f3(2)]] by simp
  moreover have "merge_layer root es f = Some f4"
    using f3(1) f4(1) by (simp add: merge_layer_def Let_def f1_def [symmetric] f2_def [symmetric])
  ultimately show ?thesis by blast
qed

section \<open>A whole image\<close>

text \<open>The tree an image stands for: its layers overlaid in order on an empty directory.\<close>

definition image_tree :: "entry list list \<Rightarrow> tree" where
  "image_tree layers = foldl (\<lambda>t es. overlay es t) (\<lambda>q. if q = [] then Some DirNode else None) layers"

text \<open>Every layer is as extracted, and none has a marker that is reached through a link.\<close>

fun image_ok :: "entry list list \<Rightarrow> tree \<Rightarrow> bool" where
  "image_ok [] t \<longleftrightarrow> True"
| "image_ok (es # layers) t \<longleftrightarrow> layer_ok es \<and> no_link_under_markers es t \<and> image_ok layers (overlay es t)"

lemma merge_all_staged:
  assumes "staged root f" "image_ok layers (tree_at root f)"
  shows "\<exists>f'. fold_opt (\<lambda>l f. Option.bind l (\<lambda>es. merge_layer root es f)) (map Some layers) f = Some f' \<and>
    becomes root f f' (foldl (\<lambda>t es. overlay es t) (tree_at root f) layers)"
  using assms
proof (induction layers arbitrary: f)
  case Nil
  then show ?case by (simp add: becomes_def)
next
  case (Cons es layers)
  obtain g where g: "merge_layer root es f = Some g" "becomes root f g (overlay es (tree_at root f))"
    using merge_staged [OF Cons.prems(1)] Cons.prems(2) by auto
  then have t: "tree_at root g = overlay es (tree_at root f)" "staged root g" by (simp_all add: becomes_def)
  obtain f' where "fold_opt (\<lambda>l f. Option.bind l (\<lambda>es. merge_layer root es f)) (map Some layers) g = Some f'"
    "becomes root g f' (foldl (\<lambda>t es. overlay es t) (tree_at root g) layers)"
    using Cons.IH [OF t(2)] Cons.prems(2) t(1) by auto
  with g t(1) becomes_trans [OF g(2)] show ?case by simp
qed

text \<open>An empty staging directory on a host.\<close>

definition fresh_staging :: "path \<Rightarrow> fs \<Rightarrow> bool" where
  "fresh_staging root f \<longleftrightarrow> wf_fs f \<and> root \<noteq> [] \<and> (\<forall>c \<in> set root. plain_name c) \<and>
     lookup f root = Some DirNode \<and> (\<forall>q. strict_prefix root q \<longrightarrow> lookup f q = None)"

lemma fresh_staged:
  assumes "fresh_staging root f"
  shows "staged root f" "tree_at root f = (\<lambda>q. if q = [] then Some DirNode else None)"
proof -
  have none: "lookup f (root @ q) = None" if "q \<noteq> []" for q
    using assms that by (auto simp: fresh_staging_def strict_prefix_def)
  then show "tree_at root f = (\<lambda>q. if q = [] then Some DirNode else None)"
    using assms by (auto simp: tree_at_def fresh_staging_def)
  have "plain_name c" if "lookup f (root @ q) \<noteq> None" "c \<in> set q" for q c
    using none [of q] that by (cases q) auto
  then show "staged root f" using assms by (simp add: staged_def fresh_staging_def)
qed

section \<open>Properties\<close>

text \<open>C15: unpacking is the OCI overlay. For an image whose layers are what an archive extracts to and whose
  whiteout markers are not reached through symbolic links of lower layers, the conversion succeeds, the
  staging directory holds exactly the overlay of the layers in order (an opaque marker hides everything
  below its directory, a whiteout its target with everything below, a file what lay below its path, and
  what the layer itself brings survives its own markers), and no path outside the staging directory
  changes.\<close>

theorem unpack_is_the_overlay:
  assumes "fresh_staging staging f" "image_ok layers (\<lambda>q. if q = [] then Some DirNode else None)"
    and "diff_ids = length layers"
  shows "\<exists>f'. unpack_oci_layers staging (map Some layers) diff_ids f = Some f' \<and>
    (\<forall>q. lookup f' (staging @ q) = image_tree layers q) \<and>
    (\<forall>q. \<not> prefix staging q \<longrightarrow> lookup f' q = lookup f q)"
proof -
  have st: "staged staging f" "tree_at staging f = (\<lambda>q. if q = [] then Some DirNode else None)"
    using fresh_staged [OF assms(1)] by auto
  have "create_dir_all staging f = Some f"
    using create_existing [OF st(1), of "[]"] st(1) by (simp add: staged_def)
  moreover obtain f' where f':
    "fold_opt (\<lambda>l f. Option.bind l (\<lambda>es. merge_layer staging es f)) (map Some layers) f = Some f'"
    "becomes staging f f' (image_tree layers)"
    using merge_all_staged [OF st(1), of layers] assms(2) st(2) unfolding image_tree_def by auto
  ultimately have "unpack_oci_layers staging (map Some layers) diff_ids f = Some f'"
    using assms(3) by (simp add: unpack_oci_layers_def)
  with f'(2) show ?thesis by (auto simp: becomes_def tree_at_def fun_eq_iff)
qed

definition demo_fs :: fs where
  "demo_fs = [([], DirNode), ([''etc''], DirNode), ([''etc'', ''passwd''], FileNode ''root''), ([''w''], DirNode)]"

definition demo_base :: "entry list" where
  "demo_base = [([], ''a'', DirNode), ([''a''], ''x'', FileNode ''1''), ([''a''], ''y'', FileNode ''2''),
     ([], ''sh'', LinkNode True [''bin'', ''sh''])]"

definition demo_top :: "entry list" where
  "demo_top = [([], ''a'', DirNode), ([''a''], ''.wh..wh..opq'', FileNode []), ([''a''], ''y'', FileNode ''3''),
     ([], ''.wh.sh'', FileNode [])]"

lemma demo_staging: "fresh_staging [''w''] demo_fs"
proof -
  have l: "lookup demo_fs q = (if q = [] then Some DirNode else if q = [''etc''] then Some DirNode
      else if q = [''etc'', ''passwd''] then Some (FileNode ''root'') else if q = [''w''] then Some DirNode else None)" for q
    by (simp add: lookup_def demo_fs_def)
  have "wf_fs demo_fs" unfolding wf_fs_def l by simp
  moreover have "lookup demo_fs q = None" if "strict_prefix [''w''] q" for q
    using that by (cases q) (auto simp: l)
  ultimately show ?thesis by (simp add: fresh_staging_def plain_name_def special_def l)
qed

lemma demo_image: "image_ok [demo_base, demo_top] (\<lambda>q. if q = [] then Some DirNode else None)"
  by code_simp

theorem unpack_is_the_overlay_witness:
  "\<exists>f'. unpack_oci_layers [''w''] [Some demo_base, Some demo_top] 2 demo_fs = Some f' \<and>
    lookup f' [''w'', ''a'', ''y''] = Some (FileNode ''3'') \<and> lookup f' [''w'', ''a'', ''x''] = None \<and>
    lookup f' [''w'', ''sh''] = None \<and> lookup f' [''etc'', ''passwd''] = Some (FileNode ''root'')"
proof -
  obtain f' where f': "unpack_oci_layers [''w''] [Some demo_base, Some demo_top] 2 demo_fs = Some f'"
    "\<forall>q. lookup f' ([''w''] @ q) = image_tree [demo_base, demo_top] q"
    "\<forall>q. \<not> prefix [''w''] q \<longrightarrow> lookup f' q = lookup demo_fs q"
    using unpack_is_the_overlay [OF demo_staging demo_image, of 2] by auto
  have "image_tree [demo_base, demo_top] [''a'', ''y''] = Some (FileNode ''3'')"
    "image_tree [demo_base, demo_top] [''a'', ''x''] = None" "image_tree [demo_base, demo_top] [''sh''] = None"
    by code_simp+
  moreover have "lookup f' [''etc'', ''passwd''] = lookup demo_fs [''etc'', ''passwd'']"
    by (rule f'(3) [rule_format]) simp
  moreover have "lookup demo_fs [''etc'', ''passwd''] = Some (FileNode ''root'')" by code_simp
  ultimately show ?thesis
    using f'(1) f'(2) [rule_format, of "[''a'', ''y'']"] f'(2) [rule_format, of "[''a'', ''x'']"]
      f'(2) [rule_format, of "[''sh'']"]
    unfolding append_Cons append_Nil by simp
qed

text \<open>C22: the conversion follows links of the image out of the staging directory. There is a two-layer
  image whose unpacking deletes a file of the host (an opaque marker below a directory that the lower
  layer made a link), and there is a one-layer image whose init is written over a file of the host (the
  image's own \<open>/init\<close> is a link), both reported as success.\<close>

theorem conversion_escapes_the_staging_directory:
  "\<exists>low top link init f1 f2 f3. layer_ok low \<and> layer_ok top \<and> layer_ok link \<and>
     lookup demo_fs [''etc'', ''passwd''] = Some (FileNode ''root'') \<and>
     unpack_oci_layers [''w''] [Some low, Some top] 2 demo_fs = Some f1 \<and> lookup f1 [''etc'', ''passwd''] = None \<and>
     unpack_oci_layers [''w''] [Some link] 1 demo_fs = Some f2 \<and> inject_init [''w''] init f2 = Some f3 \<and>
     lookup f3 [''etc'', ''passwd''] = Some (FileNode init)"
proof -
  let ?low = "[([], ''e'', LinkNode True [''etc''])] :: entry list"
  let ?top = "[([], ''e'', DirNode), ([''e''], ''.wh..wh..opq'', FileNode [])] :: entry list"
  let ?link = "[([], ''init'', LinkNode True [''etc'', ''passwd''])] :: entry list"
  have "layer_ok ?low" "layer_ok ?top" "layer_ok ?link" by code_simp+
  moreover have "lookup demo_fs [''etc'', ''passwd''] = Some (FileNode ''root'')" by code_simp
  moreover have "map_option (\<lambda>f. lookup f [''etc'', ''passwd'']) (unpack_oci_layers [''w''] [Some ?low, Some ?top] 2 demo_fs)
      = Some None" by code_simp
  then obtain f1 where "unpack_oci_layers [''w''] [Some ?low, Some ?top] 2 demo_fs = Some f1"
    "lookup f1 [''etc'', ''passwd''] = None" unfolding map_option_eq_Some by blast
  moreover have "map_option (\<lambda>f. lookup f [''etc'', ''passwd''])
      (Option.bind (unpack_oci_layers [''w''] [Some ?link] 1 demo_fs) (inject_init [''w''] ''#!''))
      = Some (Some (FileNode ''#!''))" by code_simp
  then obtain f2 f3 where "unpack_oci_layers [''w''] [Some ?link] 1 demo_fs = Some f2"
    "inject_init [''w''] ''#!'' f2 = Some f3" "lookup f3 [''etc'', ''passwd''] = Some (FileNode ''#!'')"
    unfolding map_option_eq_Some bind_eq_Some_conv by blast
  ultimately show ?thesis by blast
qed

end
