(* ===== verification/GuestInit.thy ===== *)
theory GuestInit
  imports EnvHash Snapshot
begin

text \<open>
  The PID-1 script of a guest: the entry point of an OCI image, its ports, and the \<open>/init\<close> rendered
  from them with the deploy-time environment, the cap-files and the data disk (\<open>Entrypoint::from_oci\<close>,
  \<open>exposed_tcp_ports\<close>, \<open>render_init\<close> and its helpers in \<open>src/src/runner/build/firecracker.rs\<close>).
\<close>

section \<open>The image configuration\<close>

text \<open>The \<open>config\<close> object of an OCI image configuration, as \<open>oci_spec\<close> reads it.\<close>

record OciInner =
  oi_entrypoint :: "string list option"
  oi_cmd :: "string list option"
  oi_env :: "string list option"
  oi_workdir :: "string option"
  oi_exposed :: "string list option"

record OciConfig =
  oc_arch :: string
  oc_config :: "OciInner option"
  oc_diff_ids :: nat

record OciExec =
  ex_entrypoint :: "string list"
  ex_cmd :: "string list"
  ex_env :: "string list"
  ex_workdir :: string

datatype Entrypoint = Exec OciExec | ShellForm

definition or_empty :: "'a list option \<Rightarrow> 'a list" where
  "or_empty xs = (case xs of Some ys \<Rightarrow> ys | None \<Rightarrow> [])"

definition from_oci :: "OciConfig \<Rightarrow> Entrypoint" where
  "from_oci cfg =
     (case oc_config cfg of
        None \<Rightarrow> ShellForm
      | Some inner \<Rightarrow>
          (let entrypoint = or_empty (oi_entrypoint inner); cmd = or_empty (oi_cmd inner) in
           if entrypoint = [] \<and> cmd = [] then ShellForm
           else Exec \<lparr>ex_entrypoint = entrypoint, ex_cmd = cmd, ex_env = or_empty (oi_env inner),
                      ex_workdir = (let wd = or_empty (oi_workdir inner) in if wd = [] then ''/'' else wd)\<rparr>))"

definition exposed_port :: "string \<Rightarrow> u16 option" where
  "exposed_port spec =
     (let (port_str, proto) = (case split_once CHR ''/'' spec of Some pp \<Rightarrow> pp | None \<Rightarrow> (spec, ''tcp'')) in
      if map ascii_lower proto \<noteq> ''tcp'' then None
      else (case parse_uint 65535 (trim port_str) of
              Some n \<Rightarrow> if n \<noteq> 0 then Some (of_nat n) else None
            | None \<Rightarrow> None))"

definition exposed_tcp_ports :: "OciConfig \<Rightarrow> u16 list" where
  "exposed_tcp_ports cfg =
     (case Option.bind (oc_config cfg) oi_exposed of
        None \<Rightarrow> []
      | Some ports \<Rightarrow> remdups_adj (sort (List.map_filter exposed_port ports)))"

definition host_oci_arch :: "string \<Rightarrow> string" where
  "host_oci_arch arch = (if arch = ''x86_64'' then ''amd64'' else if arch = ''aarch64'' then ''arm64'' else arch)"

definition guard_arch_matches_host :: "string \<Rightarrow> OciConfig \<Rightarrow> bool" where
  "guard_arch_matches_host arch cfg \<longleftrightarrow> oc_arch cfg = host_oci_arch arch"

section \<open>Quoting\<close>

definition APOS :: char where "APOS = CHR 0x27"
definition BACKSLASH :: char where "BACKSLASH = CHR 0x5C"
definition DQUOTE :: char where "DQUOTE = CHR 0x22"
definition LF :: char where "LF = CHR 0x0A"
definition TAB :: char where "TAB = CHR 0x09"

fun quote_body :: "string \<Rightarrow> string" where
  "quote_body [] = []"
| "quote_body (c # s) = (if c = APOS then [APOS, BACKSLASH, APOS, APOS] else [c]) @ quote_body s"

definition sh_single_quote :: "string \<Rightarrow> string" where
  "sh_single_quote s = [APOS] @ quote_body s @ [APOS]"

definition BROKER_UID :: string where "BROKER_UID = ''9000''"

definition nl :: "string \<Rightarrow> string" where "nl s = s @ [LF]"

definition render_cap_file :: "string \<times> string \<Rightarrow> string" where
  "render_cap_file cap =
     (case cap of (name, value) \<Rightarrow>
        let qname = sh_single_quote (''/run/tabbify/caps/'' @ name); qval = sh_single_quote value
        in nl (''(umask 077; printf %s '' @ qval @ '' > '' @ qname @ '')'') @ nl (''chmod 0600 '' @ qname))"

definition render_cap_files_init :: "(string \<times> string) list \<Rightarrow> string" where
  "render_cap_files_init cap_files =
     (if cap_files = [] then []
      else nl ''mkdir -p /run/tabbify/caps'' @ nl ''chmod 0700 /run/tabbify/caps'' @
        concat (map render_cap_file cap_files) @
        nl (''chown -R '' @ BROKER_UID @ '':'' @ BROKER_UID @ '' /run/tabbify/caps 2>/dev/null || true''))"

fun spaced :: "string list \<Rightarrow> string" where
  "spaced [] = []"
| "spaced [w] = w"
| "spaced (w # v # ws) = w @ '' '' @ spaced (v # ws)"

definition exec_line :: "OciExec \<Rightarrow> string" where
  "exec_line e = spaced (map sh_single_quote (ex_entrypoint e @ ex_cmd e))"

definition env_line :: "string \<Rightarrow> string" where
  "env_line kv =
     (case split_once CHR ''='' kv of
        Some (key, value) \<Rightarrow> nl (''export '' @ key @ ''='' @ sh_single_quote value)
      | None \<Rightarrow> nl (''export '' @ kv))"

definition data_mount_lines :: "string option \<Rightarrow> string" where
  "data_mount_lines mount =
     (case mount of
        None \<Rightarrow> []
      | Some m \<Rightarrow>
          (let qm = sh_single_quote m in
           nl (''mkdir -p '' @ qm) @
           nl ''# The shared /dev setup falls back to an EMPTY tmpfs when a second'' @
           nl ''# devtmpfs mount is refused (the kernel already auto-mounted one),'' @
           nl ''# which drops the kernel-created /dev/vdb node even though the'' @
           nl ''# virtio disk IS attached (root-caused live: `Can't open blockdev`).'' @
           nl ''# Recreate the block node from sysfs (authoritative major:minor);'' @
           nl ''# a no-op when /dev/vdb already exists (real devtmpfs on /dev).'' @
           nl ''if [ ! -b /dev/vdb ] && [ -r /sys/block/vdb/dev ]; then mknod /dev/vdb b $(cat /sys/block/vdb/dev | tr ':' ' ') 2>/dev/null || true; fi'' @
           nl (''i=0; while [ ! -b /dev/vdb ] && [ '' @ [DQUOTE] @ ''$i'' @ [DQUOTE] @
               '' -lt 20 ]; do sleep 0.25; i=$((i+1)); done'') @
           nl (''mount -t ext4 /dev/vdb '' @ qm @ '' 2>/dev/null || mount /dev/vdb '' @ qm @
               '' 2>/dev/null || echo '' @ [DQUOTE] @
               ''tabbify-init: WARN data disk /dev/vdb failed to mount at '' @ qm @ [DQUOTE] @ '' 1>&2'')))"

definition init_preamble :: string where
  "init_preamble =
     nl ''#!/bin/sh'' @ nl ''set -e'' @ nl ''mkdir -p /proc /sys /dev'' @
     nl ''mount -t proc proc /proc 2>/dev/null || true'' @
     nl ''mount -t sysfs sysfs /sys 2>/dev/null || true'' @
     nl ''mount -t devtmpfs devtmpfs /dev 2>/dev/null || mount -t tmpfs tmpfs /dev 2>/dev/null || true'' @
     nl ''# devtmpfs can be unavailable (empty tmpfs fallback above); ensure the'' @
     nl ''# core character devices exist so tools reading /dev/urandom (e.g. git'' @
     nl ''# on repo create) don't fail with ENOENT.'' @
     nl ''[ -e /dev/null ] || mknod -m 666 /dev/null c 1 3 2>/dev/null || true'' @
     nl ''[ -e /dev/zero ] || mknod -m 666 /dev/zero c 1 5 2>/dev/null || true'' @
     nl ''[ -e /dev/random ] || mknod -m 666 /dev/random c 1 8 2>/dev/null || true'' @
     nl ''[ -e /dev/urandom ] || mknod -m 666 /dev/urandom c 1 9 2>/dev/null || true'' @
     nl ''# eth0 is configured by the kernel ip= boot-arg; verify it came up.'' @
     nl ''if [ ! -e /sys/class/net/eth0 ]; then'' @
     nl ([TAB] @ ''echo 'tabbify-init: eth0 missing (kernel ip= boot-arg did not configure it)' >&2'') @
     nl ''fi'' @
     nl ''ip link show eth0 >/dev/null 2>&1 || true''"

datatype init_error = ShellFormUnsupported | InitCollision

definition render_init ::
  "Entrypoint \<Rightarrow> (string \<times> string) list \<Rightarrow> string option \<Rightarrow> init_error + string" where
  "render_init entry cap_files data_mount =
     (case entry of
        ShellForm \<Rightarrow> Inl ShellFormUnsupported
      | Exec e \<Rightarrow>
          (let argv = ex_entrypoint e @ ex_cmd e; workdir = sh_single_quote (ex_workdir e) in
           if argv \<noteq> [] \<and> hd argv = ''/init'' then Inl InitCollision
           else Inr (init_preamble @ concat (map env_line (ex_env e)) @ render_cap_files_init cap_files @
                  data_mount_lines data_mount @
                  nl (''mkdir -p '' @ workdir @ '' 2>/dev/null; cd '' @ workdir) @
                  nl (''exec '' @ exec_line e))))"

definition merge_extra_env :: "string list \<Rightarrow> env_map \<Rightarrow> string list" where
  "merge_extra_env oci_env extra = oci_env @ map (\<lambda>(k, v). k @ ''='' @ v) (Mapping.ordered_entries extra)"

text \<open>The entry point with the deploy-time environment merged in.\<close>

definition with_env :: "env_map option \<Rightarrow> Entrypoint \<Rightarrow> Entrypoint" where
  "with_env vars entry =
     (case (vars, entry) of
        (Some m, Exec e) \<Rightarrow> Exec (e\<lparr>ex_env := merge_extra_env (ex_env e) m\<rparr>)
      | _ \<Rightarrow> entry)"

definition image_init ::
  "OciConfig \<Rightarrow> env_map option \<Rightarrow> (string \<times> string) list \<Rightarrow> string option \<Rightarrow> init_error + string" where
  "image_init cfg vars cap_files data_mount = render_init (with_env vars (from_oci cfg)) cap_files data_mount"

section \<open>How a shell reads the line back\<close>

text \<open>Token recognition of the POSIX shell on the characters that matter here: blanks separate words, a
  single quote protects everything up to the next one, a backslash outside quotes protects the next
  character. The current word is \<open>None\<close> between words.\<close>

datatype quoting = Bare | Quoted

fun sh_words :: "quoting \<Rightarrow> string option \<Rightarrow> string \<Rightarrow> string list option" where
  "sh_words Quoted w [] = None"
| "sh_words Bare None [] = Some []"
| "sh_words Bare (Some w) [] = Some [w]"
| "sh_words Quoted w (c # s) =
     (if c = APOS then sh_words Bare w s else sh_words Quoted (Some (or_empty w @ [c])) s)"
| "sh_words Bare w (c # s) =
     (if c = APOS then sh_words Quoted (Some (or_empty w)) s
      else if c = BACKSLASH then
        (case s of [] \<Rightarrow> None | d # s' \<Rightarrow> sh_words Bare (Some (or_empty w @ [d])) s')
      else if c = CHR '' '' then
        (case w of None \<Rightarrow> sh_words Bare None s | Some x \<Rightarrow> map_option (Cons x) (sh_words Bare None s))
      else sh_words Bare (Some (or_empty w @ [c])) s)"

lemma char_consts: "APOS \<noteq> BACKSLASH" "APOS \<noteq> CHR '' ''" "BACKSLASH \<noteq> CHR '' ''"
  by (simp_all add: APOS_def BACKSLASH_def)

lemma sh_words_quoted:
  "sh_words Quoted (Some w) (quote_body s @ APOS # rest) = sh_words Bare (Some (w @ s)) rest"
proof (induction s arbitrary: w)
  case Nil
  then show ?case by simp
next
  case (Cons c s)
  then show ?case by (simp add: char_consts char_consts [symmetric] or_empty_def)
qed

lemma sh_words_single_quote:
  "sh_words Bare None (sh_single_quote s @ rest) = sh_words Bare (Some s) rest"
  using sh_words_quoted [of "[]" s rest] by (simp add: sh_single_quote_def or_empty_def)


end
