(* ===== verification/RootfsCache.thy ===== *)
theory RootfsCache
  imports GuestInit OciMerge "HOL-Library.Code_Target_Nat"
begin

text \<open>
  From an image reference to a bootable root file system: the caches by app and by digest, the pull, the
  conversion and the choice between them (\<open>src/src/runner/build/firecracker.rs\<close>,
  \<open>src/src/runner/build/rootfs_variants.rs\<close>, \<open>lowercase_oci_repo\<close> of \<open>src/src/oras.rs\<close>). The registry,
  the external commands and the BLAKE3 digest are parameters; what an \<open>mkfs.ext4 -d\<close> packs is the tree of
  its staging directory.
\<close>

section \<open>OCI layouts\<close>

text \<open>\<open>de_is_manifest\<close>: the media type is the image manifest's.\<close>

record descriptor =
  de_is_manifest :: bool
  de_digest :: string

record manifest =
  mn_config :: string
  mn_layers :: "descriptor list"

text \<open>A layout directory: the index (\<open>None\<close> when missing or garbled) and the blobs by digest, each as its
  reader gets it.\<close>

record oci_layout =
  ly_index :: "descriptor list option"
  ly_manifest :: "string \<Rightarrow> manifest option"
  ly_config :: "string \<Rightarrow> OciConfig option"
  ly_layer :: "string \<Rightarrow> entry list option"

definition read_manifest_descriptor_from_layout :: "oci_layout \<Rightarrow> descriptor option" where
  "read_manifest_descriptor_from_layout ly =
     (case ly_index ly of
        None \<Rightarrow> None
      | Some ds \<Rightarrow> (case List.find de_is_manifest ds of
            Some d \<Rightarrow> Some d
          | None \<Rightarrow> (case ds of [] \<Rightarrow> None | d # _ \<Rightarrow> Some d)))"

definition read_manifest :: "oci_layout \<Rightarrow> manifest option" where
  "read_manifest ly =
     Option.bind (read_manifest_descriptor_from_layout ly) (\<lambda>d. ly_manifest ly (de_digest d))"

definition read_oci_config_from_layout :: "oci_layout \<Rightarrow> OciConfig option" where
  "read_oci_config_from_layout ly = Option.bind (read_manifest ly) (\<lambda>m. ly_config ly (mn_config m))"

definition read_manifest_digest_from_layout :: "oci_layout \<Rightarrow> string option" where
  "read_manifest_digest_from_layout ly = map_option de_digest (read_manifest_descriptor_from_layout ly)"

definition layout_layers :: "oci_layout \<Rightarrow> entry list option list option" where
  "layout_layers ly = map_option (\<lambda>m. map (\<lambda>d. ly_layer ly (de_digest d)) (mn_layers m)) (read_manifest ly)"

section \<open>Paths\<close>

definition dashed :: "string \<Rightarrow> string" where
  "dashed digest = map (\<lambda>c. if c = CHR '':'' then CHR ''-'' else c) digest"

definition app_fc_dir :: "string \<Rightarrow> string \<Rightarrow> string" where
  "app_fc_dir d u = join_path (join_path (join_path d ''apps'') u) ''fc''"

definition ROOTFS_NAME :: string where "ROOTFS_NAME = ''rootfs.ext4''"

definition digest_dir :: "string \<Rightarrow> string \<Rightarrow> string \<Rightarrow> string" where
  "digest_dir d u digest = join_path (app_fc_dir d u) (dashed digest)"

definition digest_work_dir :: "string \<Rightarrow> string \<Rightarrow> string \<Rightarrow> string \<Rightarrow> string" where
  "digest_work_dir d u digest env_hash = join_path (digest_dir d u digest) env_hash"

definition cached_rootfs_path :: "string \<Rightarrow> string \<Rightarrow> string \<Rightarrow> string \<Rightarrow> string" where
  "cached_rootfs_path d u digest env_hash = join_path (digest_work_dir d u digest env_hash) ROOTFS_NAME"

definition GLOBAL_ROOTFS_CACHE_DIR :: string where "GLOBAL_ROOTFS_CACHE_DIR = ''rootfs-cache''"
definition GLOBAL_ROOTFS_CACHE_KEEP :: nat where "GLOBAL_ROOTFS_CACHE_KEEP = 6"

definition global_rootfs_path :: "string \<Rightarrow> string \<Rightarrow> string" where
  "global_rootfs_path d digest =
     join_path (join_path (join_path d GLOBAL_ROOTFS_CACHE_DIR) (dashed digest)) ROOTFS_NAME"

definition GLOBAL_LAYOUT_CACHE_DIR :: string where "GLOBAL_LAYOUT_CACHE_DIR = ''oci-layout-cache''"
definition GLOBAL_LAYOUT_CACHE_KEEP :: nat where "GLOBAL_LAYOUT_CACHE_KEEP = 6"

definition global_oci_layout_entry :: "string \<Rightarrow> string \<Rightarrow> string" where
  "global_oci_layout_entry d digest = join_path (join_path d GLOBAL_LAYOUT_CACHE_DIR) (dashed digest)"

definition layout_subdir :: "string \<Rightarrow> string" where
  "layout_subdir out_dir = join_path out_dir ''oci''"

section \<open>The disk and the outside world\<close>

text \<open>The root file systems and the OCI layouts by path, the entries of the two shared caches with their
  modification times, the file system the staging directories are on, and the apps marked
  \<open>.no-snapshot\<close>.\<close>

record disk =
  dk_rootfs :: "(string \<times> fs) list"
  dk_layouts :: "(string \<times> oci_layout) list"
  dk_shared :: "(string \<times> u64) list"
  dk_shared_layouts :: "(string \<times> u64) list"
  dk_fs :: fs
  dk_no_snapshot :: "string list"

text \<open>How a call that can fail ends is asked of \<open>wd_ok\<close>, by the call and its path; \<open>wd_run\<close> is the
  runner of external commands, \<open>wd_pull\<close> the registry, \<open>wd_debris\<close> what a failed conversion leaves in
  its staging directory.\<close>

record world =
  wd_ok :: "string \<Rightarrow> string \<Rightarrow> bool"
  wd_run :: "string list \<Rightarrow> bool \<times> string"
  wd_pull :: "string \<Rightarrow> oci_layout option"
  wd_clock :: u64
  wd_arch :: string
  wd_b3 :: blake3
  wd_caps :: cap_json
  wd_registry_config :: "string option"
  wd_pid :: u32
  wd_debris :: fs

definition rootfs_at :: "disk \<Rightarrow> string \<Rightarrow> fs option" where
  "rootfs_at k p = map_of (dk_rootfs k) p"

definition layout_at :: "disk \<Rightarrow> string \<Rightarrow> oci_layout option" where
  "layout_at k p = map_of (dk_layouts k) p"

definition put_rootfs :: "string \<Rightarrow> fs option \<Rightarrow> disk \<Rightarrow> disk" where
  "put_rootfs p t k =
     k\<lparr>dk_rootfs := (case t of Some x \<Rightarrow> AList.update p x (dk_rootfs k) | None \<Rightarrow> AList.delete p (dk_rootfs k))\<rparr>"

definition put_layout :: "string \<Rightarrow> oci_layout option \<Rightarrow> disk \<Rightarrow> disk" where
  "put_layout p ly k =
     k\<lparr>dk_layouts := (case ly of Some x \<Rightarrow> AList.update p x (dk_layouts k) | None \<Rightarrow> AList.delete p (dk_layouts k))\<rparr>"

definition rootfs_is_cached :: "disk \<Rightarrow> string \<Rightarrow> string \<Rightarrow> string \<Rightarrow> string \<Rightarrow> bool" where
  "rootfs_is_cached k d u digest env_hash = (rootfs_at k (cached_rootfs_path d u digest env_hash) \<noteq> None)"

definition global_rootfs_is_cached :: "disk \<Rightarrow> string \<Rightarrow> string \<Rightarrow> bool" where
  "global_rootfs_is_cached k d digest = (rootfs_at k (global_rootfs_path d digest) \<noteq> None)"

section \<open>The shared caches\<close>

text \<open>The names that an eviction removes: the oldest ones beyond the number to keep.\<close>

definition evicted :: "nat \<Rightarrow> (string \<times> u64) list \<Rightarrow> string list" where
  "evicted keep es = map fst (take (length es - keep) (sort_key snd es))"

definition evict_rootfs :: "world \<Rightarrow> string \<Rightarrow> string \<Rightarrow> disk \<Rightarrow> disk" where
  "evict_rootfs w d name k =
     (let dir = join_path (join_path d GLOBAL_ROOTFS_CACHE_DIR) name in
      if wd_ok w ''remove'' dir
      then put_rootfs (join_path dir ROOTFS_NAME) None (k\<lparr>dk_shared := AList.delete name (dk_shared k)\<rparr>)
      else k)"

definition evict_global_rootfs_cache :: "world \<Rightarrow> string \<Rightarrow> disk \<Rightarrow> disk" where
  "evict_global_rootfs_cache w d k =
     fold (evict_rootfs w d) (evicted GLOBAL_ROOTFS_CACHE_KEEP (dk_shared k)) k"

definition link_global_rootfs_to_uuid ::
  "world \<Rightarrow> string \<Rightarrow> string \<Rightarrow> string \<Rightarrow> string \<Rightarrow> disk \<Rightarrow> string option \<times> disk" where
  "link_global_rootfs_to_uuid w d u digest env_hash k =
     (case rootfs_at k (global_rootfs_path d digest) of
        None \<Rightarrow> (None, k)
      | Some t \<Rightarrow>
          (let per_uuid = cached_rootfs_path d u digest env_hash in
           if rootfs_at k per_uuid \<noteq> None then (Some per_uuid, k)
           else if \<not> wd_ok w ''mkdir'' (digest_work_dir d u digest env_hash) then (None, k)
           else if wd_ok w ''link'' per_uuid then (Some per_uuid, put_rootfs per_uuid (Some t) k)
           else (None, k)))"

definition publish_rootfs_to_global :: "world \<Rightarrow> string \<Rightarrow> string \<Rightarrow> string \<Rightarrow> disk \<Rightarrow> disk" where
  "publish_rootfs_to_global w d digest built k =
     (let global = global_rootfs_path d digest in
      if rootfs_at k global \<noteq> None then evict_global_rootfs_cache w d k
      else if \<not> wd_ok w ''mkdir'' global then k
      else
        let touched = k\<lparr>dk_shared := AList.update (dashed digest) (wd_clock w) (dk_shared k)\<rparr>;
            k1 = (if wd_ok w ''link'' global then put_rootfs global (rootfs_at k built) touched
                  else if map_of (dk_shared k) (dashed digest) = None then touched else k)
        in evict_global_rootfs_cache w d k1)"

definition lookup_cached_rootfs ::
  "world \<Rightarrow> string \<Rightarrow> string \<Rightarrow> string \<Rightarrow> bool \<Rightarrow> string \<Rightarrow> disk \<Rightarrow> string option \<times> disk" where
  "lookup_cached_rootfs w d u digest globally_cacheable env_hash k =
     (if rootfs_is_cached k d u digest env_hash then (Some (cached_rootfs_path d u digest env_hash), k)
      else if \<not> globally_cacheable then (None, k)
      else link_global_rootfs_to_uuid w d u digest env_hash k)"

definition lookup_global_layout :: "string \<Rightarrow> string \<Rightarrow> disk \<Rightarrow> oci_layout option" where
  "lookup_global_layout d digest k = layout_at k (layout_subdir (global_oci_layout_entry d digest))"

definition evict_layout :: "world \<Rightarrow> string \<Rightarrow> string \<Rightarrow> disk \<Rightarrow> disk" where
  "evict_layout w d name k =
     (let dir = join_path (join_path d GLOBAL_LAYOUT_CACHE_DIR) name in
      if wd_ok w ''remove'' dir
      then put_layout (layout_subdir dir) None (k\<lparr>dk_shared_layouts := AList.delete name (dk_shared_layouts k)\<rparr>)
      else k)"

definition evict_global_layout_cache :: "world \<Rightarrow> string \<Rightarrow> disk \<Rightarrow> disk" where
  "evict_global_layout_cache w d k =
     fold (evict_layout w d) (evicted GLOBAL_LAYOUT_CACHE_KEEP (dk_shared_layouts k)) k"

text \<open>The uuid-scoped temporary entry is built and renamed into place; a failure leaves no entry.\<close>

definition publish_layout_to_global :: "world \<Rightarrow> string \<Rightarrow> string \<Rightarrow> oci_layout \<Rightarrow> disk \<Rightarrow> disk" where
  "publish_layout_to_global w d digest ly k =
     (let entry = global_oci_layout_entry d digest in
      if lookup_global_layout d digest k \<noteq> None then evict_global_layout_cache w d k
      else if \<not> wd_ok w ''mkdir'' (join_path d GLOBAL_LAYOUT_CACHE_DIR) \<or> \<not> wd_ok w ''link'' entry then k
      else if \<not> wd_ok w ''rename'' entry then evict_global_layout_cache w d k
      else evict_global_layout_cache w d
             (put_layout (layout_subdir entry) (Some ly)
               (k\<lparr>dk_shared_layouts := AList.update (dashed digest) (wd_clock w) (dk_shared_layouts k)\<rparr>)))"

section \<open>The conversion\<close>

text \<open>The tree below a directory, as \<open>mkfs.ext4 -d\<close> packs it.\<close>

definition subtree :: "path \<Rightarrow> fs \<Rightarrow> fs" where
  "subtree root f = List.map_filter (\<lambda>(p, nd). map_option (\<lambda>q. (q, nd)) (strip_prefix root p)) f"

fun inode_len :: "inode \<Rightarrow> nat" where
  "inode_len DirNode = 0"
| "inode_len (FileNode content) = length content"
| "inode_len (LinkNode absolute target) =
     (if absolute then 1 else 0) + sum_list (map length target) + (length target - 1)"

definition measure_tree :: "path \<Rightarrow> fs \<Rightarrow> u64 \<times> u64" where
  "measure_tree root f =
     (let es = filter (\<lambda>(p, _). strict_prefix root p) f
      in (of_nat (sum_list (map (\<lambda>(_, nd). inode_len nd) es)), of_nat (length es)))"

definition ext4_geometry :: "u64 \<Rightarrow> u64 \<Rightarrow> u32 \<Rightarrow> u32 \<times> u64" where
  "ext4_geometry content_bytes file_count size_hint_mib =
     (let mib = unat content_bytes div (1024 * 1024);
          content_mib = (if mib < 2 ^ 32 then of_nat mib else - 1);
          effective_mib = max size_hint_mib (sat_mul content_mib 3 div 2 + 512);
          inodes = max (sat_mul file_count 2) 262144
      in (effective_mib, inodes))"

definition mkfs_argv :: "u64 \<Rightarrow> string \<Rightarrow> string \<Rightarrow> string list" where
  "mkfs_argv inodes staging tmp =
     [''mkfs.ext4'', ''-F'', ''-m'', ''0'', ''-N'', show_dec (unat inodes), ''-d'', staging, tmp]"

definition path_of :: "string \<Rightarrow> path" where
  "path_of s = filter (\<lambda>c. c \<noteq> []) (split_on CHR ''/'' s)"

datatype build_error =
    NoDataMount | ArchMismatch | InitFailed init_error | ConversionFailed | PullFailed | LayoutUnreadable
  | ForbiddenEnv string | NoRegistryRef

definition build_rootfs_ext4_inner ::
  "world \<Rightarrow> oci_layout \<Rightarrow> OciConfig \<Rightarrow> string \<Rightarrow> u32 \<Rightarrow> string option \<Rightarrow> disk \<Rightarrow>
   (build_error + string) \<times> disk" where
  "build_rootfs_ext4_inner w ly cfg out_dir size_mib init k =
     (let staging = path_of (join_path out_dir ''stage'');
          failed = (Inl ConversionFailed, k\<lparr>dk_fs := wd_debris w\<rparr>);
          rootfs = join_path out_dir ROOTFS_NAME;
          tmp = join_path out_dir (''.'' @ ROOTFS_NAME @ ''.'' @ show_dec (unat (wd_pid w)) @ ''.tmp'')
      in if \<not> wd_ok w ''mkdir'' out_dir then (Inl ConversionFailed, k)
         else case Option.bind (layout_layers ly) (\<lambda>ls. unpack_oci_layers staging ls (oc_diff_ids cfg) (dk_fs k)) of
           None \<Rightarrow> failed
         | Some f \<Rightarrow>
             (case (case init of None \<Rightarrow> Some f | Some script \<Rightarrow> inject_init staging script f) of
                None \<Rightarrow> failed
              | Some f' \<Rightarrow>
                  (let (bytes, count) = measure_tree staging f';
                       (effective_mib, inodes) = ext4_geometry bytes count size_mib
                   in if \<not> wd_ok w ''create'' tmp \<or>
                         \<not> fst (wd_run w (mkfs_argv inodes (join_path out_dir ''stage'') tmp)) \<or>
                         \<not> wd_ok w ''rename'' rootfs
                      then (Inl ConversionFailed, k\<lparr>dk_fs := f'\<rparr>)
                      else (Inr rootfs, put_rootfs rootfs (Some (subtree staging f')) (k\<lparr>dk_fs := f'\<rparr>)))))"

text \<open>What a build bakes into \<open>/init\<close> beyond the image.\<close>

record bake =
  bk_env :: "env_map option"
  bk_caps :: "(string \<times> string) list"
  bk_mount :: "string option"

definition bake_hash :: "world \<Rightarrow> bake \<Rightarrow> string" where
  "bake_hash w b = rootfs_env_fingerprint (wd_b3 w) (bk_env b) (bk_caps b) (bk_mount b)"

definition resolve_rootfs ::
  "world \<Rightarrow> string \<Rightarrow> string \<Rightarrow> Runtime \<Rightarrow> u32 \<Rightarrow> oci_layout \<Rightarrow> OciConfig \<Rightarrow> string \<Rightarrow> env_map option \<Rightarrow>
   (string \<times> string) list \<Rightarrow> disk \<Rightarrow> (build_error + string) \<times> disk" where
  "resolve_rootfs w d u rt memory_mb ly cfg digest vars caps k =
     (case stateful_data_mount rt of
        Inl _ \<Rightarrow> (Inl NoDataMount, k)
      | Inr mount \<Rightarrow>
          (let env_hash = rootfs_env_fingerprint (wd_b3 w) vars caps mount in
           if rootfs_is_cached k d u digest env_hash then (Inr (cached_rootfs_path d u digest env_hash), k)
           else if \<not> guard_arch_matches_host (wd_arch w) cfg then (Inl ArchMismatch, k)
           else case image_init cfg vars caps mount of
             Inl e \<Rightarrow> (Inl (InitFailed e), k)
           | Inr script \<Rightarrow>
               build_rootfs_ext4_inner w ly cfg (digest_work_dir d u digest env_hash) memory_mb (Some script) k))"

section \<open>Pulling\<close>

definition rsplit_once :: "char \<Rightarrow> string \<Rightarrow> (string \<times> string) option" where
  "rsplit_once c s = map_option (\<lambda>(a, b). (rev b, rev a)) (split_once c (rev s))"

definition lowercase_oci_repo :: "string \<Rightarrow> string" where
  "lowercase_oci_repo reff =
     (let seg_start = (case rsplit_once CHR ''/'' reff of Some (a, _) \<Rightarrow> length a + 1 | None \<Rightarrow> 0) in
      case position (\<lambda>c. c = CHR ''@'' \<or> c = CHR '':'') (drop seg_start reff) of
        Some rel \<Rightarrow> map ascii_lower (take (seg_start + rel) reff) @ drop (seg_start + rel) reff
      | None \<Rightarrow> map ascii_lower reff)"

definition oras_resolve_args :: "string \<Rightarrow> string option \<Rightarrow> string list" where
  "oras_resolve_args reff config =
     [''resolve''] @ (case config of Some dir \<Rightarrow> [''--registry-config'', dir] | None \<Rightarrow> []) @
     [''--plain-http'', reff]"

definition resolve_oci_digest :: "world \<Rightarrow> string \<Rightarrow> string option" where
  "resolve_oci_digest w reff =
     (let (ok, out) = wd_run w (''oras'' # oras_resolve_args reff (wd_registry_config w)); digest = trim out
      in if \<not> ok \<or> \<not> starts_with ''sha256:'' digest then None else Some digest)"

definition pull_oci_layout ::
  "world \<Rightarrow> string \<Rightarrow> string \<Rightarrow> disk \<Rightarrow> oci_layout option \<times> disk" where
  "pull_oci_layout w reff out_dir k =
     (let layout = layout_subdir out_dir; tag = \<not> sublist ''@sha256'' reff in
      if tag \<and> \<not> wd_ok w ''wipe'' layout then (None, k)
      else
        let k1 = (if tag then put_layout layout None k else k) in
        if \<not> wd_ok w ''mkdir'' layout then (None, k1)
        else case wd_pull w reff of
          None \<Rightarrow> (None, k1)
        | Some ly \<Rightarrow> (Some ly, put_layout layout (Some ly) k1))"

definition cached_layout_exposed_ports :: "string \<Rightarrow> disk \<Rightarrow> u16 list" where
  "cached_layout_exposed_ports work_dir k =
     (case Option.bind (layout_at k (layout_subdir work_dir)) read_oci_config_from_layout of
        Some cfg \<Rightarrow> exposed_tcp_ports cfg | None \<Rightarrow> [])"

section \<open>Launching\<close>

text \<open>The variant directory of an app's image that a path lies in.\<close>

definition variant_of :: "string \<Rightarrow> string \<Rightarrow> string option" where
  "variant_of dir p =
     (case strip_prefix (dir @ ''/'') p of
        None \<Rightarrow> None
      | Some rest \<Rightarrow> map_option fst (split_once CHR ''/'' rest))"

definition pruned :: "world \<Rightarrow> string \<Rightarrow> string \<Rightarrow> string \<Rightarrow> bool" where
  "pruned w dir keep p =
     (case variant_of dir p of
        Some name \<Rightarrow> name \<noteq> keep \<and> wd_ok w ''remove'' (join_path dir name) | None \<Rightarrow> False)"

definition prune_stale_variants :: "world \<Rightarrow> string \<Rightarrow> string \<Rightarrow> string \<Rightarrow> string \<Rightarrow> disk \<Rightarrow> disk" where
  "prune_stale_variants w d u digest keep k =
     (let gone = pruned w (digest_dir d u digest) keep
      in k\<lparr>dk_rootfs := filter (\<lambda>(p, _). \<not> gone p) (dk_rootfs k),
           dk_layouts := filter (\<lambda>(p, _). \<not> gone p) (dk_layouts k)\<rparr>)"

text \<open>What is handed to the virtual machine.\<close>

record launch =
  la_rootfs :: string
  la_reff :: string
  la_env_hash :: string
  la_ports :: "u16 list"
  la_digest :: string
  la_caps :: "(string \<times> string) list"
  la_workspace :: bool

definition launch_firecracker ::
  "world \<Rightarrow> string \<Rightarrow> string \<Rightarrow> string \<Rightarrow> string \<Rightarrow> bool \<Rightarrow> string \<Rightarrow> u16 list \<Rightarrow> string \<Rightarrow>
   (string \<times> string) list \<Rightarrow> disk \<Rightarrow> (build_error + launch) \<times> disk" where
  "launch_firecracker w d u rootfs reff is_workspace env_hash ports digest caps k =
     (Inr \<lparr>la_rootfs = rootfs, la_reff = reff, la_env_hash = env_hash, la_ports = ports, la_digest = digest,
           la_caps = caps, la_workspace = is_workspace\<rparr>,
      prune_stale_variants w d u digest env_hash k)"

section \<open>The build\<close>

text \<open>Resolving from a layout that is at hand, and publishing the result.\<close>

definition convert ::
  "world \<Rightarrow> string \<Rightarrow> string \<Rightarrow> Runtime \<Rightarrow> u32 \<Rightarrow> oci_layout \<Rightarrow> string \<Rightarrow> env_map option \<Rightarrow>
   (string \<times> string) list \<Rightarrow> bool \<Rightarrow> disk \<Rightarrow> (build_error + string \<times> u16 list) \<times> disk" where
  "convert w d u rt memory_mb ly digest vars caps globally_cacheable k =
     (case read_oci_config_from_layout ly of
        None \<Rightarrow> (Inl LayoutUnreadable, k)
      | Some cfg \<Rightarrow>
          (case resolve_rootfs w d u rt memory_mb ly cfg digest vars caps k of
             (Inl e, k1) \<Rightarrow> (Inl e, k1)
           | (Inr built, k1) \<Rightarrow>
               (Inr (built, exposed_tcp_ports cfg),
                if globally_cacheable then publish_rootfs_to_global w d digest built k1 else k1)))"

text \<open>The layout of the shared cache, linked into the app's own directory first.\<close>

definition shared_layout ::
  "world \<Rightarrow> string \<Rightarrow> string \<Rightarrow> string option \<Rightarrow> disk \<Rightarrow> (string \<times> oci_layout) option \<times> disk" where
  "shared_layout w d u pre_digest k =
     (case pre_digest of
        None \<Rightarrow> (None, k)
      | Some digest \<Rightarrow>
          (case lookup_global_layout d digest k of
             None \<Rightarrow> (None, k)
           | Some ly \<Rightarrow>
               (let local = layout_subdir (join_path (app_fc_dir d u) ''.layout'')
                in if wd_ok w ''link'' local
                   then (Some (digest, ly), put_layout local (Some ly) k)
                   else (None, put_layout local None k))))"

definition pull_and_convert ::
  "world \<Rightarrow> string \<Rightarrow> string \<Rightarrow> Runtime \<Rightarrow> u32 \<Rightarrow> string \<Rightarrow> env_map option \<Rightarrow> (string \<times> string) list \<Rightarrow>
   string \<Rightarrow> bool \<Rightarrow> disk \<Rightarrow> (build_error + string \<times> u16 list \<times> string) \<times> disk" where
  "pull_and_convert w d u rt memory_mb reff vars caps env_hash globally_cacheable k =
     (case rsplit_once CHR ''@'' reff of
        Some (_, digest) \<Rightarrow>
          (case pull_oci_layout w reff (digest_work_dir d u digest env_hash) k of
             (None, k1) \<Rightarrow> (Inl PullFailed, k1)
           | (Some ly, k1) \<Rightarrow>
               (case convert w d u rt memory_mb ly digest vars caps globally_cacheable
                       (publish_layout_to_global w d digest ly k1) of
                  (Inl e, k2) \<Rightarrow> (Inl e, k2)
                | (Inr (built, ports), k2) \<Rightarrow> (Inr (built, ports, digest), k2)))
      | None \<Rightarrow>
          (case pull_oci_layout w reff (join_path (app_fc_dir d u) ''.pull'') k of
             (None, k1) \<Rightarrow> (Inl PullFailed, k1)
           | (Some ly, k1) \<Rightarrow>
               (case read_manifest_digest_from_layout ly of
                  None \<Rightarrow> (Inl LayoutUnreadable, k1)
                | Some digest \<Rightarrow>
                    (let k2 = publish_layout_to_global w d digest ly k1 in
                     if rootfs_is_cached k2 d u digest env_hash
                     then (Inr (cached_rootfs_path d u digest env_hash, [], digest), k2)
                     else case (if globally_cacheable then link_global_rootfs_to_uuid w d u digest env_hash k2
                                else (None, k2)) of
                       (Some linked, k3) \<Rightarrow> (Inr (linked, [], digest), k3)
                     | (None, k3) \<Rightarrow>
                         (case convert w d u rt memory_mb ly digest vars caps globally_cacheable k3 of
                            (Inl e, k4) \<Rightarrow> (Inl e, k4)
                          | (Inr (built, ports), k4) \<Rightarrow> (Inr (built, ports, digest), k4))))))"

definition pre_digest_of :: "world \<Rightarrow> string \<Rightarrow> string option" where
  "pre_digest_of w reff =
     (case rsplit_once CHR ''@'' reff of Some (_, digest) \<Rightarrow> Some digest | None \<Rightarrow> resolve_oci_digest w reff)"

definition lookup_pre_pull ::
  "world \<Rightarrow> string \<Rightarrow> string \<Rightarrow> string option \<Rightarrow> bool \<Rightarrow> string \<Rightarrow> disk \<Rightarrow> (string \<times> string) option \<times> disk" where
  "lookup_pre_pull w d u pre_digest globally_cacheable env_hash k =
     (case pre_digest of
        None \<Rightarrow> (None, k)
      | Some digest \<Rightarrow> apfst (map_option (Pair digest)) (lookup_cached_rootfs w d u digest globally_cacheable env_hash k))"

text \<open>The caches in the order they are asked, then the pull: the part of \<open>run_firecracker_build\<close> after
  the checks of the request.\<close>

definition launch_request ::
  "world \<Rightarrow> string \<Rightarrow> string \<Rightarrow> Runtime \<Rightarrow> u32 \<Rightarrow> string \<Rightarrow> env_map option \<Rightarrow> (string \<times> string) list \<Rightarrow>
   string \<Rightarrow> bool \<Rightarrow> bool \<Rightarrow> disk \<Rightarrow> (build_error + launch) \<times> disk" where
  "launch_request w d u rt memory_mb reff vars caps env_hash globally_cacheable is_workspace k0 =
     (case lookup_pre_pull w d u (pre_digest_of w reff) globally_cacheable env_hash k0 of
        (Some (digest, rootfs), k1) \<Rightarrow>
          launch_firecracker w d u rootfs reff is_workspace env_hash
            (cached_layout_exposed_ports (digest_work_dir d u digest env_hash) k1) digest caps k1
      | (None, k1) \<Rightarrow>
      (case shared_layout w d u (pre_digest_of w reff) k1 of
         (Some (digest, ly), k2) \<Rightarrow>
           (case convert w d u rt memory_mb ly digest vars caps globally_cacheable k2 of
              (Inl e, k3) \<Rightarrow> (Inl e, k3)
            | (Inr (built, ports), k3) \<Rightarrow>
                launch_firecracker w d u built reff is_workspace env_hash ports digest caps k3)
       | (None, k2) \<Rightarrow>
      (case pull_and_convert w d u rt memory_mb reff vars caps env_hash globally_cacheable k2 of
         (Inl e, k3) \<Rightarrow> (Inl e, k3)
       | (Inr (built, ports, digest), k3) \<Rightarrow>
           launch_firecracker w d u built reff is_workspace env_hash ports digest caps k3)))"

definition has_env_key :: "env_map option \<Rightarrow> string \<Rightarrow> bool" where
  "has_env_key xenv key = (case xenv of Some m \<Rightarrow> Mapping.lookup m key \<noteq> None | None \<Rightarrow> False)"

text \<open>The \<open>.no-snapshot\<close> mark of a dev session or a workspace.\<close>

definition suppress_snapshot :: "string \<Rightarrow> env_map option \<Rightarrow> disk \<Rightarrow> disk" where
  "suppress_snapshot u xenv k =
     (if has_env_key xenv ''TABBIFY_GIT_REMOTE'' \<or> has_env_key xenv WORKSPACE_MARKER_ENV
      then k\<lparr>dk_no_snapshot := List.insert u (dk_no_snapshot k)\<rparr> else k)"

definition run_firecracker_build ::
  "world \<Rightarrow> string \<Rightarrow> string \<Rightarrow> Runtime \<Rightarrow> u32 \<Rightarrow> string option \<Rightarrow> env_map option \<Rightarrow> disk \<Rightarrow>
   (build_error + launch) \<times> disk" where
  "run_firecracker_build w d u rt memory_mb ref_opt xenv k =
     (case split_env_and_caps (wd_caps w) xenv of
        (effective_env, caps) \<Rightarrow>
     (case (if has_env_key xenv WORKSPACE_MARKER_ENV
            then extra_env_is_snapshot_safe (Mapping.ordered_keys effective_env) else Inr ()) of
        Inl key \<Rightarrow> (Inl (ForbiddenEnv key), suppress_snapshot u xenv k)
      | Inr _ \<Rightarrow>
      (case stateful_data_mount rt of
        Inl _ \<Rightarrow> (Inl NoDataMount, suppress_snapshot u xenv k)
      | Inr mount \<Rightarrow>
      (case ref_opt of
        None \<Rightarrow> (Inl NoRegistryRef, suppress_snapshot u xenv k)
      | Some raw \<Rightarrow>
          launch_request w d u rt memory_mb (lowercase_oci_repo raw) (nonempty_env effective_env) caps
            (rootfs_env_fingerprint (wd_b3 w) (nonempty_env effective_env) caps mount)
            (Mapping.is_empty effective_env \<and> \<not> rt_stateful rt)
            (has_env_key xenv WORKSPACE_MARKER_ENV) (suppress_snapshot u xenv k)))))"

section \<open>What the caches hold\<close>

text \<open>A root file system carries a bake when its \<open>/init\<close> was rendered from it and written last.\<close>

definition carries :: "bake \<Rightarrow> fs \<Rightarrow> bool" where
  "carries b t \<longleftrightarrow>
     (\<exists>cfg staging script f f'. image_init cfg (bk_env b) (bk_caps b) (bk_mount b) = Inr script \<and>
        inject_init staging script f = Some f' \<and> t = subtree staging f')"

definition no_bake :: bake where
  "no_bake = \<lparr>bk_env = None, bk_caps = [], bk_mount = None\<rparr>"

text \<open>The variant directory that a root file system's path ends in.\<close>

definition variant_name :: "string \<Rightarrow> string" where
  "variant_name p = rev (takeWhile (\<lambda>c. c \<noteq> CHR ''/'') (drop (Suc (length ROOTFS_NAME)) (rev p)))"

definition app_area :: "string \<Rightarrow> string" where "app_area d = d @ ''/apps/''"
definition shared_area :: "string \<Rightarrow> string" where "shared_area d = d @ ''/rootfs-cache/''"

text \<open>Below the apps' directory a root file system carries a bake of the directory it is in, in the shared
  cache it carries none.\<close>

definition cache_ok :: "world \<Rightarrow> string \<Rightarrow> bake set \<Rightarrow> disk \<Rightarrow> bool" where
  "cache_ok w d B k \<longleftrightarrow>
     (\<forall>p t. rootfs_at k p = Some t \<longrightarrow>
        (starts_with (app_area d) p \<longrightarrow> (\<exists>b \<in> B. bake_hash w b = variant_name p \<and> carries b t)) \<and>
        (starts_with (shared_area d) p \<longrightarrow> carries no_bake t))"

definition requested :: "world \<Rightarrow> Runtime \<Rightarrow> env_map option \<Rightarrow> bake" where
  "requested w rt xenv =
     (let (effective_env, caps) = split_env_and_caps (wd_caps w) xenv
      in \<lparr>bk_env = nonempty_env effective_env, bk_caps = caps,
          bk_mount = (case stateful_data_mount rt of Inr m \<Rightarrow> m | Inl _ \<Rightarrow> None)\<rparr>)"

subsection \<open>Paths\<close>

lemma hex_char_no_slash: "n < 16 \<Longrightarrow> hex_char n \<noteq> CHR ''/''"
proof -
  assume n: "n < 16"
  then have "(of_char (hex_char n) :: nat) = (if n < 10 then 48 + n else 87 + n)" by (simp add: hex_char_def)
  then have "(of_char (hex_char n) :: nat) \<noteq> 47" using n by (auto split: if_splits)
  moreover have "(of_char CHR ''/'' :: nat) = 47" by simp
  ultimately show ?thesis by auto
qed

lemma show_hex_no_slash: "CHR ''/'' \<notin> set (show_hex n)"
proof (induction n rule: show_hex.induct)
  case (1 n)
  then show ?case using hex_char_no_slash [of n] hex_char_no_slash [of "n mod 16"]
    by (subst show_hex.simps) auto
qed

lemma hex_of_no_slash: "CHR ''/'' \<notin> set (hex_of bs)"
  by (auto simp: hex_of_def show_hex_padded_def Let_def show_hex_no_slash)

lemma bake_hash_no_slash: "CHR ''/'' \<notin> set (bake_hash w b)"
  unfolding bake_hash_def rootfs_env_fingerprint_def using hex_of_no_slash in_set_takeD by fast

lemma starts_with_clash:
  "starts_with (app_area d) (d @ s) \<Longrightarrow> \<not> starts_with (shared_area d) (d @ s)"
  by (cases s; cases "tl s") (auto simp: starts_with_def app_area_def shared_area_def)

lemma cached_path_alt:
  "cached_rootfs_path d u digest h = d @ ''/apps/'' @ (u @ ''/fc/'' @ dashed digest) @ ''/'' @ h @ ''/rootfs.ext4''"
  by (simp add: cached_rootfs_path_def digest_work_dir_def digest_dir_def app_fc_dir_def join_path_def ROOTFS_NAME_def)

lemma global_path_alt: "global_rootfs_path d digest = d @ ''/rootfs-cache/'' @ dashed digest @ ''/rootfs.ext4''"
  by (simp add: global_rootfs_path_def GLOBAL_ROOTFS_CACHE_DIR_def join_path_def ROOTFS_NAME_def)

lemma areas [simp]:
  "starts_with (app_area d) (cached_rootfs_path d u digest h)"
  "\<not> starts_with (shared_area d) (cached_rootfs_path d u digest h)"
  "starts_with (shared_area d) (global_rootfs_path d digest)"
  "\<not> starts_with (app_area d) (global_rootfs_path d digest)"
  by (simp_all add: cached_path_alt global_path_alt starts_with_def app_area_def shared_area_def)

lemma variant_name_cached [simp]:
  assumes "CHR ''/'' \<notin> set h"
  shows "variant_name (cached_rootfs_path d u digest h) = h"
proof -
  have "takeWhile (\<lambda>c. c \<noteq> CHR ''/'') (rev h @ CHR ''/'' # s) = rev h" for s
    using assms by (subst takeWhile_append2) auto
  then show ?thesis by (simp add: variant_name_def cached_path_alt ROOTFS_NAME_def)
qed

lemma variant_of_cached:
  assumes "CHR ''/'' \<notin> set h"
  shows "variant_of (digest_dir d u digest) (cached_rootfs_path d u digest h) = Some h"
proof -
  have "cached_rootfs_path d u digest h = (digest_dir d u digest @ ''/'') @ h @ CHR ''/'' # ROOTFS_NAME"
    by (simp add: cached_rootfs_path_def digest_work_dir_def join_path_def)
  then show ?thesis
    using assms by (simp add: variant_of_def split_once_append del: append_assoc)
qed

subsection \<open>The invariant step by step\<close>

lemma rootfs_at_put: "rootfs_at (put_rootfs p t k) q = (if q = p then t else rootfs_at k q)"
  by (auto simp: rootfs_at_def put_rootfs_def update_conv' delete_conv' split: option.splits)

lemma rootfs_at_cong: "dk_rootfs k' = dk_rootfs k \<Longrightarrow> rootfs_at k' = rootfs_at k"
  by (simp add: rootfs_at_def fun_eq_iff)

lemma rootfs_at_updates [simp]:
  "rootfs_at (k\<lparr>dk_shared := s\<rparr>) = rootfs_at k" "rootfs_at (k\<lparr>dk_fs := f\<rparr>) = rootfs_at k"
  by (simp_all add: rootfs_at_def fun_eq_iff)

lemma rootfs_at_prune:
  "rootfs_at (prune_stale_variants w d u digest keep k) p =
     (if pruned w (digest_dir d u digest) keep p then None else rootfs_at k p)"
  by (simp add: rootfs_at_def prune_stale_variants_def Let_def map_of_filter_key)

definition fewer :: "disk \<Rightarrow> disk \<Rightarrow> bool" where
  "fewer k k' \<longleftrightarrow> (\<forall>p t. rootfs_at k' p = Some t \<longrightarrow> rootfs_at k p = Some t)"

lemma cache_ok_fewer: "cache_ok w d B k \<Longrightarrow> fewer k k' \<Longrightarrow> cache_ok w d B k'"
  unfolding cache_ok_def fewer_def by blast

lemma cache_ok_same: "dk_rootfs k' = dk_rootfs k \<Longrightarrow> cache_ok w d B k' = cache_ok w d B k"
  by (simp add: cache_ok_def rootfs_at_def)

text \<open>What an eviction does to the root file systems.\<close>

definition trims :: "string \<Rightarrow> disk \<Rightarrow> disk \<Rightarrow> bool" where
  "trims d k k' \<longleftrightarrow>
     fewer k k' \<and> (\<forall>p. starts_with (app_area d) p \<longrightarrow> rootfs_at k' p = rootfs_at k p)"

lemma trims_refl [simp]: "trims d k k"
  by (simp add: trims_def fewer_def)

lemma trims_trans: "trims d k k' \<Longrightarrow> trims d k' k'' \<Longrightarrow> trims d k k''"
  unfolding trims_def fewer_def by metis

lemma trims_evict: "trims d k (evict_rootfs w d name k)"
proof -
  have "\<not> starts_with (app_area d) (join_path (join_path (join_path d GLOBAL_ROOTFS_CACHE_DIR) name) ROOTFS_NAME)"
    by (simp add: starts_with_def app_area_def join_path_def GLOBAL_ROOTFS_CACHE_DIR_def)
  then show ?thesis
    by (auto simp: evict_rootfs_def trims_def fewer_def rootfs_at_put Let_def)
qed

lemma trims_evict_all: "trims d k (evict_global_rootfs_cache w d k)"
proof -
  have "trims d k (fold (evict_rootfs w d) names k)" for names
    by (induction names arbitrary: k) (auto intro: trims_trans [OF trims_evict])
  then show ?thesis by (simp add: evict_global_rootfs_cache_def)
qed

lemma layouts_only [simp]:
  "dk_rootfs (put_layout p ly k) = dk_rootfs k"
  "dk_rootfs (evict_layout w d name k) = dk_rootfs k"
  by (simp_all add: put_layout_def evict_layout_def Let_def)

lemma evict_layouts_only [simp]: "dk_rootfs (evict_global_layout_cache w d k) = dk_rootfs k"
proof -
  have "dk_rootfs (fold (evict_layout w d) names k) = dk_rootfs k" for names
    by (induction names arbitrary: k) simp_all
  then show ?thesis by (simp add: evict_global_layout_cache_def)
qed

lemma publish_layout_only [simp]: "dk_rootfs (publish_layout_to_global w d digest ly k) = dk_rootfs k"
  by (simp add: publish_layout_to_global_def Let_def)

lemma pull_only: "pull_oci_layout w reff out k = (r, k') \<Longrightarrow> dk_rootfs k' = dk_rootfs k"
  by (auto simp: pull_oci_layout_def Let_def split: if_splits option.splits)

lemma shared_layout_only: "shared_layout w d u pd k = (r, k') \<Longrightarrow> dk_rootfs k' = dk_rootfs k"
  by (auto simp: shared_layout_def Let_def split: if_splits option.splits)

text \<open>A path where a launch may start from: the variant of the request, present, with sound caches.\<close>

definition serves :: "world \<Rightarrow> string \<Rightarrow> bake set \<Rightarrow> string \<Rightarrow> string \<Rightarrow> bake \<Rightarrow> disk \<Rightarrow> string \<Rightarrow> bool" where
  "serves w d B u digest b k r \<longleftrightarrow>
     r = cached_rootfs_path d u digest (bake_hash w b) \<and> rootfs_at k r \<noteq> None \<and> cache_ok w d B k"

lemma serves_carries:
  assumes "serves w d B u digest b k r" "b \<in> B" "inj_on (bake_hash w) B"
  shows "\<exists>t. rootfs_at k r = Some t \<and> carries b t"
proof -
  from assms(1) obtain t where t: "rootfs_at k r = Some t" and r: "r = cached_rootfs_path d u digest (bake_hash w b)"
    and ok: "cache_ok w d B k" by (auto simp: serves_def)
  then obtain b' where "b' \<in> B" "bake_hash w b' = bake_hash w b" "carries b' t"
    unfolding cache_ok_def r using areas(1) variant_name_cached [OF bake_hash_no_slash] by metis
  with assms(2,3) t show ?thesis by (auto dest: inj_onD)
qed

lemma link_serves:
  assumes "link_global_rootfs_to_uuid w d u digest (bake_hash w b) k = (r, k')" "cache_ok w d B k"
    "b = no_bake" "b \<in> B"
  shows "cache_ok w d B k' \<and> (\<forall>p. r = Some p \<longrightarrow> serves w d B u digest b k' p)"
proof (cases "rootfs_at k (global_rootfs_path d digest)")
  case None
  with assms show ?thesis by (simp add: link_global_rootfs_to_uuid_def)
next
  case (Some t)
  have "carries no_bake t" using assms(2) Some areas(3) unfolding cache_ok_def by blast
  then have put: "cache_ok w d B (put_rootfs (cached_rootfs_path d u digest (bake_hash w b)) (Some t) k)"
    using assms(2-4) unfolding cache_ok_def rootfs_at_put
    by (auto simp: bake_hash_no_slash)
  from assms(1,2) Some put show ?thesis
    unfolding link_global_rootfs_to_uuid_def serves_def
    by (auto simp: Let_def rootfs_at_put split: if_splits)
qed

lemma build_serves:
  assumes "build_rootfs_ext4_inner w ly cfg (digest_work_dir d u digest (bake_hash w b)) mb (Some script) k = (r, k')"
    "image_init cfg (bk_env b) (bk_caps b) (bk_mount b) = Inr script" "cache_ok w d B k" "b \<in> B"
  shows "cache_ok w d B k' \<and> (\<forall>p. r = Inr p \<longrightarrow> serves w d B u digest b k' p)"
proof -
  have put: "cache_ok w d B (put_rootfs (cached_rootfs_path d u digest (bake_hash w b)) (Some (subtree s f')) (k\<lparr>dk_fs := f'\<rparr>))"
    if "inject_init s script f = Some f'" for s f f'
  proof -
    have "carries b (subtree s f')" unfolding carries_def using assms(2) that by blast
    then show ?thesis
      using assms(3,4) unfolding cache_ok_def rootfs_at_put by (auto simp: bake_hash_no_slash)
  qed
  have path: "join_path (digest_work_dir d u digest h) ROOTFS_NAME = cached_rootfs_path d u digest h" for h
    by (simp add: cached_rootfs_path_def)
  have same: "cache_ok w d B (k\<lparr>dk_fs := g\<rparr>)" for g using assms(3) by (simp add: cache_ok_def)
  show ?thesis
    using assms(1,3) unfolding build_rootfs_ext4_inner_def path serves_def
    by (auto simp: Let_def same put split: if_splits option.splits prod.splits)
      (auto simp: rootfs_at_put)
qed

lemma resolve_serves:
  assumes "resolve_rootfs w d u rt mb ly cfg digest (bk_env b) (bk_caps b) k = (r, k')"
    "stateful_data_mount rt = Inr (bk_mount b)" "cache_ok w d B k" "b \<in> B"
  shows "cache_ok w d B k' \<and> (\<forall>p. r = Inr p \<longrightarrow> serves w d B u digest b k' p)"
proof -
  let ?h = "bake_hash w b"
  have h: "rootfs_env_fingerprint (wd_b3 w) (bk_env b) (bk_caps b) (bk_mount b) = ?h"
    by (simp add: bake_hash_def)
  show ?thesis
  proof (cases "rootfs_is_cached k d u digest ?h \<or> \<not> guard_arch_matches_host (wd_arch w) cfg")
    case True
    with assms show ?thesis
      by (auto simp: resolve_rootfs_def h Let_def serves_def rootfs_is_cached_def split: if_splits)
  next
    case False
    show ?thesis
    proof (cases "image_init cfg (bk_env b) (bk_caps b) (bk_mount b)")
      case (Inl e)
      with assms False show ?thesis by (auto simp: resolve_rootfs_def h Let_def)
    next
      case (Inr script)
      with assms(1,2) False have "build_rootfs_ext4_inner w ly cfg (digest_work_dir d u digest ?h) mb (Some script) k = (r, k')"
        by (simp add: resolve_rootfs_def h Let_def)
      then show ?thesis by (rule build_serves [OF _ Inr assms(3,4)])
    qed
  qed
qed

lemma serves_trims: "serves w d B u digest b k r \<Longrightarrow> trims d k k' \<Longrightarrow> serves w d B u digest b k' r"
  unfolding serves_def trims_def using cache_ok_fewer areas(1) by metis

lemma publish_serves:
  assumes "serves w d B u digest b k built" "b = no_bake" "b \<in> B" "inj_on (bake_hash w) B"
  shows "serves w d B u digest b (publish_rootfs_to_global w d digest built k) built"
proof -
  obtain t where t: "rootfs_at k built = Some t" "carries no_bake t"
    using serves_carries [OF assms(1,3,4)] assms(2) by blast
  define touched where "touched = k\<lparr>dk_shared := AList.update (dashed digest) (wd_clock w) (dk_shared k)\<rparr>"
  have plain: "serves w d B u digest b touched built"
    using assms(1) by (auto simp: serves_def cache_ok_def touched_def)
  have ne: "global_rootfs_path d digest \<noteq> cached_rootfs_path d u digest h" for h
    using areas(1,4) by metis
  have "cache_ok w d B (put_rootfs (global_rootfs_path d digest) (Some t) touched)"
    using plain t(2) unfolding serves_def cache_ok_def rootfs_at_put by (auto simp: touched_def)
  moreover have "rootfs_at (put_rootfs (global_rootfs_path d digest) (Some t) touched) built = Some t"
    using t(1) plain ne [symmetric] unfolding serves_def rootfs_at_put touched_def by auto
  ultimately have "serves w d B u digest b (put_rootfs (global_rootfs_path d digest) (rootfs_at k built) touched) built"
    using plain t(1) unfolding serves_def by simp
  then show ?thesis
    using plain assms(1) serves_trims trims_evict_all
    unfolding publish_rootfs_to_global_def Let_def touched_def [symmetric] by (auto split: if_splits)
qed

lemma prune_serves:
  assumes "serves w d B u digest b k r"
  shows "serves w d B u digest b (prune_stale_variants w d u digest (bake_hash w b) k) r"
proof -
  have "\<not> pruned w (digest_dir d u digest) (bake_hash w b) r"
    using assms variant_of_cached [OF bake_hash_no_slash] by (simp add: pruned_def serves_def)
  moreover have "fewer k (prune_stale_variants w d u digest (bake_hash w b) k)"
    by (simp add: rootfs_at_prune fewer_def)
  ultimately show ?thesis
    using assms cache_ok_fewer unfolding serves_def
    by (auto simp: rootfs_at_prune)
qed

lemma convert_serves:
  assumes "convert w d u rt mb ly digest (bk_env b) (bk_caps b) shared k = (r, k')"
    "stateful_data_mount rt = Inr (bk_mount b)" "cache_ok w d B k" "b \<in> B" "inj_on (bake_hash w) B"
    "shared \<Longrightarrow> b = no_bake"
  shows "cache_ok w d B k' \<and> (\<forall>p ports. r = Inr (p, ports) \<longrightarrow> serves w d B u digest b k' p)"
proof (cases "read_oci_config_from_layout ly")
  case None
  with assms(1,3) show ?thesis by (auto simp: convert_def)
next
  case (Some cfg)
  obtain r1 k1 where res: "resolve_rootfs w d u rt mb ly cfg digest (bk_env b) (bk_caps b) k = (r1, k1)"
    by (cases "resolve_rootfs w d u rt mb ly cfg digest (bk_env b) (bk_caps b) k")
  note step = resolve_serves [OF res assms(2-4)]
  show ?thesis
  proof (cases r1)
    case (Inl e)
    with assms(1) Some res step show ?thesis by (auto simp: convert_def)
  next
    case (Inr built)
    with step have s: "serves w d B u digest b k1 built" by blast
    have "serves w d B u digest b (publish_rootfs_to_global w d digest built k1) built" if shared
      using publish_serves [OF s assms(6) assms(4,5)] that by blast
    with s have "serves w d B u digest b k' built"
      using assms(1) Some res Inr by (auto simp: convert_def split: if_splits)
    then show ?thesis using assms(1) Some res Inr by (auto simp: convert_def serves_def)
  qed
qed

lemma lookup_serves:
  assumes "lookup_cached_rootfs w d u digest shared (bake_hash w b) k = (r, k')"
    "cache_ok w d B k" "b \<in> B" "shared \<Longrightarrow> b = no_bake"
  shows "cache_ok w d B k' \<and> (\<forall>p. r = Some p \<longrightarrow> serves w d B u digest b k' p)"
proof (cases "rootfs_is_cached k d u digest (bake_hash w b) \<or> \<not> shared")
  case True
  with assms show ?thesis
    by (auto simp: lookup_cached_rootfs_def serves_def rootfs_is_cached_def split: if_splits)
next
  case False
  then have "link_global_rootfs_to_uuid w d u digest (bake_hash w b) k = (r, k')"
    using assms(1) by (simp add: lookup_cached_rootfs_def)
  then show ?thesis using link_serves [OF _ assms(2)] assms(3,4) False by blast
qed

lemma pull_and_convert_serves:
  assumes "pull_and_convert w d u rt mb reff (bk_env b) (bk_caps b) (bake_hash w b) shared k = (r, k')"
    "stateful_data_mount rt = Inr (bk_mount b)" "cache_ok w d B k" "b \<in> B" "inj_on (bake_hash w) B"
    "shared \<Longrightarrow> b = no_bake"
  shows "cache_ok w d B k' \<and> (\<forall>p ports digest. r = Inr (p, ports, digest) \<longrightarrow> serves w d B u digest b k' p)"
proof (cases "rsplit_once CHR ''@'' reff")
  case (Some ab)
  obtain digest where dg: "rsplit_once CHR ''@'' reff = Some (fst ab, digest)" using Some by (cases ab) auto
  obtain ly k1 where pull: "pull_oci_layout w reff (digest_work_dir d u digest (bake_hash w b)) k = (ly, k1)"
    by (cases "pull_oci_layout w reff (digest_work_dir d u digest (bake_hash w b)) k")
  have ok: "cache_ok w d B k1" using assms(3) pull_only [OF pull] cache_ok_same by metis
  show ?thesis
  proof (cases ly)
    case None
    with assms(1) dg pull ok show ?thesis by (auto simp: pull_and_convert_def)
  next
    case (Some l)
    let ?k = "publish_layout_to_global w d digest l k1"
    obtain r2 k2 where con: "convert w d u rt mb l digest (bk_env b) (bk_caps b) shared ?k = (r2, k2)"
      by (cases "convert w d u rt mb l digest (bk_env b) (bk_caps b) shared ?k")
    have "cache_ok w d B ?k" using ok cache_ok_same publish_layout_only by metis
    note step = convert_serves [OF con assms(2) this assms(4,5,6)]
    with assms(1) dg pull Some con show ?thesis
      by (auto simp: pull_and_convert_def split: sum.splits)
  qed
next
  case None
  let ?out = "join_path (app_fc_dir d u) ''.pull''"
  obtain ly k1 where pull: "pull_oci_layout w reff ?out k = (ly, k1)" by (cases "pull_oci_layout w reff ?out k")
  have ok: "cache_ok w d B k1" using assms(3) pull_only [OF pull] cache_ok_same by metis
  show ?thesis
  proof (cases "Option.bind ly read_manifest_digest_from_layout")
    case None
    with assms(1) \<open>rsplit_once CHR ''@'' reff = None\<close> pull ok show ?thesis
      by (auto simp: pull_and_convert_def split: option.splits)
  next
    case (Some digest)
    then obtain l where l: "ly = Some l" "read_manifest_digest_from_layout l = Some digest"
      by (auto simp: bind_eq_Some_conv)
    define k2 where "k2 = publish_layout_to_global w d digest l k1"
    have ok2: "cache_ok w d B k2" using ok cache_ok_same publish_layout_only unfolding k2_def by metis
    note body = assms(1) [unfolded pull_and_convert_def None pull l(1) option.case prod.case l(2) Let_def
        k2_def [symmetric]]
    show ?thesis
    proof (cases "rootfs_is_cached k2 d u digest (bake_hash w b)")
      case True
      with body ok2 show ?thesis by (auto simp: serves_def rootfs_is_cached_def)
    next
      case False
      obtain g k3 where g: "(if shared then link_global_rootfs_to_uuid w d u digest (bake_hash w b) k2
          else (None, k2)) = (g, k3)"
        by (cases "if shared then link_global_rootfs_to_uuid w d u digest (bake_hash w b) k2 else (None, k2)")
      have step: "cache_ok w d B k3 \<and> (\<forall>p. g = Some p \<longrightarrow> serves w d B u digest b k3 p)"
        using g link_serves [OF _ ok2] assms(4,6) ok2 by (auto split: if_splits)
      show ?thesis
      proof (cases g)
        case None
        obtain r4 k4 where con: "convert w d u rt mb l digest (bk_env b) (bk_caps b) shared k3 = (r4, k4)"
          by (cases "convert w d u rt mb l digest (bk_env b) (bk_caps b) shared k3")
        note convert_serves [OF con assms(2) _ assms(4,5,6)]
        with body False g None con step show ?thesis by (auto split: sum.splits)
      next
        case (Some p)
        with body False g step show ?thesis by auto
      qed
    qed
  qed
qed

lemma launch_serves:
  assumes "\<exists>p ports digest caps k. serves w d B u digest b k p \<and>
     launch_firecracker w d u p reff ws (bake_hash w b) ports digest caps k = (Inr l, k')"
  shows "la_env_hash l = bake_hash w b \<and> serves w d B u (la_digest l) b k' (la_rootfs l)"
  using assms prune_serves by (auto simp: launch_firecracker_def)

lemma launch_request_serves:
  assumes "launch_request w d u rt mb reff (bk_env b) (bk_caps b) (bake_hash w b) shared ws k = (Inr l, k')"
    "stateful_data_mount rt = Inr (bk_mount b)" "cache_ok w d B k" "b \<in> B" "inj_on (bake_hash w) B"
    "shared \<Longrightarrow> b = no_bake"
  shows "la_env_hash l = bake_hash w b \<and> serves w d B u (la_digest l) b k' (la_rootfs l)"
proof -
  define pd where "pd = pre_digest_of w reff"
  note body = assms(1) [unfolded launch_request_def, folded pd_def]
  obtain g k1 where g: "lookup_pre_pull w d u pd shared (bake_hash w b) k = (g, k1)"
    by (cases "lookup_pre_pull w d u pd shared (bake_hash w b) k")
  have step1: "cache_ok w d B k1 \<and> (\<forall>dg p. g = Some (dg, p) \<longrightarrow> serves w d B u dg b k1 p)"
  proof (cases pd)
    case (Some digest)
    obtain r kk where l: "lookup_cached_rootfs w d u digest shared (bake_hash w b) k = (r, kk)"
      by (cases "lookup_cached_rootfs w d u digest shared (bake_hash w b) k")
    with g Some have "g = map_option (Pair digest) r" "k1 = kk" by (auto simp: lookup_pre_pull_def)
    then show ?thesis using lookup_serves [OF l assms(3,4,6)] by auto
  qed (use g assms(3) in \<open>auto simp: lookup_pre_pull_def\<close>)
  show ?thesis
  proof (cases g)
    case (Some dp)
    obtain dg p where "dp = (dg, p)" by (cases dp)
    with body g step1 Some have "serves w d B u dg b k1 p"
      "launch_firecracker w d u p reff ws (bake_hash w b)
         (cached_layout_exposed_ports (digest_work_dir d u dg (bake_hash w b)) k1) dg (bk_caps b) k1 = (Inr l, k')"
      by auto
    then show ?thesis by (intro launch_serves) blast
  next
    case None
    obtain y k2 where y: "shared_layout w d u pd k1 = (y, k2)" by (cases "shared_layout w d u pd k1")
    have ok2: "cache_ok w d B k2" using step1 shared_layout_only [OF y] cache_ok_same by metis
    show ?thesis
    proof (cases y)
      case (Some dl)
      obtain digest ly where dl: "dl = (digest, ly)" by (cases dl)
      obtain r k3 where con: "convert w d u rt mb ly digest (bk_env b) (bk_caps b) shared k2 = (r, k3)"
        by (cases "convert w d u rt mb ly digest (bk_env b) (bk_caps b) shared k2")
      note step2 = convert_serves [OF con assms(2) ok2 assms(4-6)]
      from body g None y Some dl con obtain built ports where "r = Inr (built, ports)"
        "launch_firecracker w d u built reff ws (bake_hash w b) ports digest (bk_caps b) k3 = (Inr l, k')"
        by (auto split: sum.splits)
      with step2 show ?thesis by (intro launch_serves) blast
    next
      case None': None
      obtain r k3 where con: "pull_and_convert w d u rt mb reff (bk_env b) (bk_caps b) (bake_hash w b) shared k2 = (r, k3)"
        by (cases "pull_and_convert w d u rt mb reff (bk_env b) (bk_caps b) (bake_hash w b) shared k2")
      note step2 = pull_and_convert_serves [OF con assms(2) ok2 assms(4-6)]
      from body g None y None' con obtain built ports digest where "r = Inr (built, ports, digest)"
        "launch_firecracker w d u built reff ws (bake_hash w b) ports digest (bk_caps b) k3 = (Inr l, k')"
        by (auto split: sum.splits)
      with step2 show ?thesis by (intro launch_serves) blast
    qed
  qed
qed

lemma run_is_request:
  assumes "run_firecracker_build w d u rt mb ref_opt xenv k = (Inr l, k')"
  defines "b \<equiv> requested w rt xenv"
  obtains reff ws k0 where "dk_rootfs k0 = dk_rootfs k" "stateful_data_mount rt = Inr (bk_mount b)"
    "launch_request w d u rt mb reff (bk_env b) (bk_caps b) (bake_hash w b)
       (bk_env b = None \<and> \<not> rt_stateful rt) ws k0 = (Inr l, k')"
proof -
  obtain env caps where split: "split_env_and_caps (wd_caps w) xenv = (env, caps)"
    by (cases "split_env_and_caps (wd_caps w) xenv")
  obtain mount where mt: "stateful_data_mount rt = Inr mount"
    using assms(1) by (auto simp: run_firecracker_build_def split: sum.splits prod.splits)
  have b: "bk_env b = nonempty_env env" "bk_caps b = caps" "bk_mount b = mount"
    by (simp_all add: b_def requested_def split mt)
  have "Mapping.is_empty env = (bk_env b = None)" by (simp add: b nonempty_env_def)
  moreover from assms(1) obtain reff ws where
    "launch_request w d u rt mb reff (nonempty_env env) caps (rootfs_env_fingerprint (wd_b3 w) (nonempty_env env) caps mount)
       (Mapping.is_empty env \<and> \<not> rt_stateful rt) ws (suppress_snapshot u xenv k) = (Inr l, k')"
    unfolding run_firecracker_build_def split mt by (auto split: sum.splits option.splits)
  moreover have "dk_rootfs (suppress_snapshot u xenv k) = dk_rootfs k"
    by (simp add: suppress_snapshot_def)
  ultimately show thesis using mt by (intro that) (auto simp: b bake_hash_def)
qed


end
