(* ===== verification/RootfsBuilds.thy ===== *)
theory RootfsBuilds
  imports RootfsCache
begin

text \<open>
  The build of \<open>RootfsCache\<close> run on a small registry: a first build of a tag step by step, the witness of
  the launch property, and two behaviours of \<open>run_firecracker_build\<close> that its comments exclude.
\<close>

section \<open>A registry with one image\<close>

text \<open>A registry with one image, which listens on port 8000 and runs \<open>/app\<close>.\<close>

definition demo_layout :: oci_layout where
  "demo_layout = \<lparr>
     ly_index = Some [\<lparr>de_is_manifest = True, de_digest = ''sha256:aa''\<rparr>],
     ly_manifest = (\<lambda>_. Some \<lparr>mn_config = ''sha256:cc'', mn_layers = []\<rparr>),
     ly_config = (\<lambda>_. Some \<lparr>oc_arch = ''amd64'', oc_config = Some \<lparr>oi_entrypoint = Some [''/app''], oi_cmd = None,
        oi_env = None, oi_workdir = None, oi_exposed = Some [''8000/tcp'']\<rparr>, oc_diff_ids = 0\<rparr>),
     ly_layer = (\<lambda>_. None)\<rparr>"

definition demo_world :: world where
  "demo_world = \<lparr>wd_ok = (\<lambda>_ _. True), wd_run = (\<lambda>_. (True, ''sha256:aa'')), wd_pull = (\<lambda>_. Some demo_layout),
     wd_clock = 0, wd_arch = ''amd64'', wd_b3 = demo_digest,
     wd_caps = (\<lambda>_. Some (Mapping.update ''git.token'' ''s3cret'' Mapping.empty)),
     wd_registry_config = None, wd_pid = 7, wd_debris = []\<rparr>"

definition demo_disk :: disk where
  "demo_disk = \<lparr>dk_rootfs = [], dk_layouts = [], dk_shared = [], dk_shared_layouts = [],
     dk_fs = [([], DirNode)], dk_no_snapshot = []\<rparr>"

definition demo_runtime :: Runtime where
  "demo_runtime = \<lparr>rt_port = None, rt_vcpus = None, rt_stateful = False, rt_data_mount = None\<rparr>"

definition demo_build :: "string \<Rightarrow> env_map option \<Rightarrow> disk \<Rightarrow> (build_error + launch) \<times> disk" where
  "demo_build u = run_firecracker_build demo_world ''/d'' u demo_runtime 256 (Some ''reg/img:v1'')"

section \<open>Builds step by step\<close>


definition demo_config :: OciConfig where
  "demo_config = the (ly_config demo_layout [])"

definition demo_hash :: "(string \<times> string) list \<Rightarrow> string" where
  "demo_hash caps = rootfs_env_fingerprint demo_digest None caps None"

definition demo_out :: "string \<Rightarrow> (string \<times> string) list \<Rightarrow> string" where
  "demo_out u caps = digest_work_dir ''/d'' u ''sha256:aa'' (demo_hash caps)"

definition demo_caps :: "(string \<times> string) list" where
  "demo_caps = [(''git.token'', ''s3cret'')]"

lemma build_clean:
  assumes "\<And>c p. wd_ok w c p" "\<And>c. fst (wd_run w c)" "layout_layers ly = Some ls"
    "unpack_oci_layers (path_of (join_path out ''stage'')) ls (oc_diff_ids cfg) (dk_fs k) = Some f"
    "inject_init (path_of (join_path out ''stage'')) s f = Some f'"
  shows "build_rootfs_ext4_inner w ly cfg out mb (Some s) k =
    (Inr (join_path out ROOTFS_NAME),
     put_rootfs (join_path out ROOTFS_NAME) (Some (subtree (path_of (join_path out ''stage'')) f')) (k\<lparr>dk_fs := f'\<rparr>))"
  using assms unfolding build_rootfs_ext4_inner_def by (simp add: Let_def split: prod.splits)


lemma demo_layout_facts:
  "read_oci_config_from_layout demo_layout = Some demo_config" "layout_layers demo_layout = Some []"
  "read_manifest_digest_from_layout demo_layout = Some ''sha256:aa''" "oc_diff_ids demo_config = 0"
  "guard_arch_matches_host ''amd64'' demo_config" "exposed_tcp_ports demo_config = [8000]"
proof -
  show "read_oci_config_from_layout demo_layout = Some demo_config" "layout_layers demo_layout = Some []"
    "read_manifest_digest_from_layout demo_layout = Some ''sha256:aa''"
    by (simp_all add: read_oci_config_from_layout_def read_manifest_def read_manifest_descriptor_from_layout_def
        read_manifest_digest_from_layout_def layout_layers_def demo_layout_def demo_config_def)
  show "oc_diff_ids demo_config = 0" "guard_arch_matches_host ''amd64'' demo_config"
    "exposed_tcp_ports demo_config = [8000]" by code_simp+
qed

lemma demo_reference:
  "lowercase_oci_repo ''reg/img:v1'' = ''reg/img:v1''" "rsplit_once CHR ''@'' ''reg/img:v1'' = None"
  "pre_digest_of demo_world ''reg/img:v1'' = Some ''sha256:aa''" "sublist ''@sha256'' ''reg/img:v1'' = False"
  by code_simp+

lemma demo_world_facts [simp]:
  "wd_ok demo_world c p" "fst (wd_run demo_world cmd)" "wd_pull demo_world r = Some demo_layout"
  "wd_b3 demo_world = demo_digest" "wd_arch demo_world = ''amd64''"
  by (simp_all add: demo_world_def)

lemma layout_at_updates [simp]: "layout_at (k\<lparr>dk_shared_layouts := s\<rparr>) = layout_at k"
  by (simp add: layout_at_def fun_eq_iff)

lemma layout_at_put: "layout_at (put_layout p ly k) q = (if q = p then ly else layout_at k q)"
  by (auto simp: layout_at_def put_layout_def update_conv' delete_conv' split: option.splits)

lemma evict_few:
  "length (dk_shared k) \<le> 6 \<Longrightarrow> evict_global_rootfs_cache w d k = k"
  "length (dk_shared_layouts k) \<le> 6 \<Longrightarrow> evict_global_layout_cache w d k = k"
  by (simp_all add: evict_global_rootfs_cache_def evict_global_layout_cache_def evicted_def
      GLOBAL_ROOTFS_CACHE_KEEP_def GLOBAL_LAYOUT_CACHE_KEEP_def)

text \<open>The disk after the pull of the tag.\<close>

definition demo_pulled :: disk where
  "demo_pulled = publish_layout_to_global demo_world ''/d'' ''sha256:aa'' demo_layout
     (put_layout ''/d/apps/a/fc/.pull/oci'' (Some demo_layout) (put_layout ''/d/apps/a/fc/.pull/oci'' None demo_disk))"

lemma demo_pulled_facts:
  "dk_rootfs demo_pulled = []" "dk_shared demo_pulled = []" "dk_fs demo_pulled = [([], DirNode)]"
  "layout_at demo_pulled (layout_subdir (digest_work_dir ''/d'' ''a'' ''sha256:aa'' h)) = None"
proof -
  have k: "demo_pulled = put_layout ''/d/oci-layout-cache/sha256-aa/oci'' (Some demo_layout)
      ((put_layout ''/d/apps/a/fc/.pull/oci'' (Some demo_layout) (put_layout ''/d/apps/a/fc/.pull/oci'' None demo_disk))
         \<lparr>dk_shared_layouts := [(''sha256-aa'', 0)]\<rparr>)"
    unfolding demo_pulled_def publish_layout_to_global_def Let_def
    by (simp add: lookup_global_layout_def layout_subdir_def global_oci_layout_entry_def join_path_def
        GLOBAL_LAYOUT_CACHE_DIR_def dashed_def layout_at_put demo_disk_def layout_at_def evict_few put_layout_def
        demo_world_def)
  show "dk_rootfs demo_pulled = []" "dk_shared demo_pulled = []" "dk_fs demo_pulled = [([], DirNode)]"
    by (simp_all add: k put_layout_def demo_disk_def)
  show "layout_at demo_pulled (layout_subdir (digest_work_dir ''/d'' ''a'' ''sha256:aa'' h)) = None"
    by (simp add: k layout_at_put layout_subdir_def digest_work_dir_def digest_dir_def app_fc_dir_def join_path_def
        dashed_def)
      (simp add: layout_at_def demo_disk_def)
qed

lemma dk_shared_put [simp]: "dk_shared (put_rootfs p t k) = dk_shared k"
  "dk_layouts (put_rootfs p t k) = dk_layouts k"
  by (simp_all add: put_rootfs_def)

lemma layout_at_put_rootfs [simp]: "layout_at (put_rootfs p t k) = layout_at k"
  by (simp add: layout_at_def fun_eq_iff)

lemma layout_at_shared [simp]: "layout_at (k\<lparr>dk_shared := x\<rparr>) = layout_at k" "layout_at (k\<lparr>dk_fs := x1\<rparr>) = layout_at k"
  by (simp_all add: layout_at_def fun_eq_iff)

lemma layout_at_prune:
  "layout_at (prune_stale_variants w d u digest keep k) p =
     (if pruned w (digest_dir d u digest) keep p then None else layout_at k p)"
  by (simp add: layout_at_def prune_stale_variants_def Let_def map_of_filter_key)

text \<open>The first build of the tag for app \<open>a\<close>: pulled, converted, published and launched.\<close>

lemma demo_first:
  assumes split: "split_env_and_caps (wd_caps demo_world) xenv = (env, caps)" "Mapping.is_empty env"
    and plain: "\<not> has_env_key xenv ''TABBIFY_GIT_REMOTE''" "\<not> has_env_key xenv WORKSPACE_MARKER_ENV"
    and st: "path_of (join_path (demo_out ''a'' caps) ''stage'') = st"
    and files: "unpack_oci_layers st [] 0 [([], DirNode)] = Some f" "inject_init st s f = Some f'"
    and init: "image_init demo_config None caps None = Inr s"
  obtains l k where "demo_build ''a'' xenv demo_disk = (Inr l, k)" "la_ports l = [8000]"
    "la_rootfs l = cached_rootfs_path ''/d'' ''a'' ''sha256:aa'' (demo_hash caps)"
    "rootfs_at k (cached_rootfs_path ''/d'' ''a'' ''sha256:aa'' (demo_hash caps)) = Some (subtree st f')"
    "rootfs_at k (global_rootfs_path ''/d'' ''sha256:aa'') = Some (subtree st f')"
    "rootfs_at k (cached_rootfs_path ''/d'' ''b'' ''sha256:aa'' h) = None"
    "layout_at k (layout_subdir (demo_out ''a'' caps)) = None"
proof -
  let ?h = "demo_hash caps" and ?P = "cached_rootfs_path ''/d'' ''a'' ''sha256:aa'' (demo_hash caps)"
  let ?G = "global_rootfs_path ''/d'' ''sha256:aa''"
  have h: "rootfs_env_fingerprint demo_digest None caps None = ?h" by (simp add: demo_hash_def)
  have mount: "stateful_data_mount demo_runtime = Inr None" by (simp add: stateful_data_mount_def demo_runtime_def)
  have none: "rootfs_at demo_disk p = None" "layout_at demo_disk p = None" "rootfs_at demo_pulled p = None" for p
    by (simp_all add: rootfs_at_def layout_at_def demo_pulled_facts) (simp_all add: demo_disk_def)
  define k1 where "k1 = put_rootfs ?P (Some (subtree st f')) (demo_pulled\<lparr>dk_fs := f'\<rparr>)"
  have res: "resolve_rootfs demo_world ''/d'' ''a'' demo_runtime 256 demo_layout demo_config ''sha256:aa'' None caps demo_pulled
      = (Inr ?P, k1)"
    using build_clean [of demo_world demo_layout "[]" "demo_out ''a'' caps" demo_config demo_pulled f s f' 256]
    by (simp add: resolve_rootfs_def mount h rootfs_is_cached_def none demo_layout_facts init st files
        demo_pulled_facts demo_out_def [symmetric] k1_def)
      (simp add: demo_out_def cached_rootfs_path_def)
  define k2 where "k2 = put_rootfs ?G (Some (subtree st f')) (k1\<lparr>dk_shared := [(''sha256-aa'', 0)]\<rparr>)"
  have ne: "?G \<noteq> ?P" using areas(1,4) by metis
  have k1: "rootfs_at k1 ?G = None" "rootfs_at k1 ?P = Some (subtree st f')" "dk_shared k1 = []"
    using ne by (simp_all add: k1_def rootfs_at_put none demo_pulled_facts)
  have pub: "publish_rootfs_to_global demo_world ''/d'' ''sha256:aa'' ?P k1 = k2"
    by (simp add: publish_rootfs_to_global_def Let_def k1 k2_def evict_few) (simp add: dashed_def demo_world_def)
  have con: "convert demo_world ''/d'' ''a'' demo_runtime 256 demo_layout ''sha256:aa'' None caps True demo_pulled
      = (Inr (?P, [8000]), k2)"
    by (simp add: convert_def demo_layout_facts res pub)
  have pulled: "pull_oci_layout demo_world ''reg/img:v1'' (join_path (app_fc_dir ''/d'' ''a'') ''.pull'') demo_disk
      = (Some demo_layout, put_layout ''/d/apps/a/fc/.pull/oci'' (Some demo_layout) (put_layout ''/d/apps/a/fc/.pull/oci'' None demo_disk))"
    by (simp add: pull_oci_layout_def Let_def demo_reference layout_subdir_def app_fc_dir_def join_path_def)
  have misses: "link_global_rootfs_to_uuid w ''/d'' u dg hh k = (None, k)" "\<not> rootfs_is_cached k ''/d'' u dg hh"
    if "k = demo_disk \<or> k = demo_pulled" for w u dg hh k
    using that none by (auto simp: link_global_rootfs_to_uuid_def rootfs_is_cached_def)
  have pull: "pull_and_convert demo_world ''/d'' ''a'' demo_runtime 256 ''reg/img:v1'' None caps ?h True demo_disk
      = (Inr (?P, [8000], ''sha256:aa''), k2)"
    by (simp add: pull_and_convert_def demo_reference pulled demo_layout_facts demo_pulled_def [symmetric] Let_def
        misses con)
  have req: "launch_request demo_world ''/d'' ''a'' demo_runtime 256 ''reg/img:v1'' None caps ?h True False demo_disk
      = launch_firecracker demo_world ''/d'' ''a'' ?P ''reg/img:v1'' False ?h [8000] ''sha256:aa'' caps k2"
    by (simp add: launch_request_def demo_reference lookup_pre_pull_def lookup_cached_rootfs_def misses
        shared_layout_def lookup_global_layout_def none pull)
  have calm: "\<not> rt_stateful demo_runtime" by (simp add: demo_runtime_def)
  have run: "demo_build ''a'' xenv demo_disk =
      launch_firecracker demo_world ''/d'' ''a'' ?P ''reg/img:v1'' False ?h [8000] ''sha256:aa'' caps k2"
    using split plain
    by (simp add: demo_build_def run_firecracker_build_def mount nonempty_env_def demo_reference h req
        suppress_snapshot_def calm)
  have other: "cached_rootfs_path ''/d'' ''b'' ''sha256:aa'' h \<noteq> ?P"
    by (simp add: cached_path_alt)
  have other': "cached_rootfs_path ''/d'' ''b'' ''sha256:aa'' h \<noteq> ?G" using areas(1,4) by metis
  have kept: "\<not> pruned demo_world (digest_dir ''/d'' ''a'' ''sha256:aa'') ?h ?P"
    "\<not> pruned demo_world (digest_dir ''/d'' ''a'' ''sha256:aa'') ?h ?G"
    using variant_of_cached [of ?h] bake_hash_no_slash [of demo_world "no_bake\<lparr>bk_caps := caps\<rparr>"]
    by (simp_all add: pruned_def bake_hash_def no_bake_def h)
      (simp add: variant_of_def digest_dir_def app_fc_dir_def join_path_def global_path_alt dashed_def strip_prefix_def)
  show thesis
    by (rule that [OF run [unfolded launch_firecracker_def]])
      (use kept other other' ne in \<open>simp_all add: rootfs_at_prune layout_at_prune rootfs_at_put k2_def k1_def none
         demo_pulled_facts demo_out_def\<close>)
qed


definition demo_stage :: "(string \<times> string) list \<Rightarrow> path" where
  "demo_stage caps = path_of (join_path (demo_out ''a'' caps) ''stage'')"

definition demo_dirs :: "path \<Rightarrow> fs" where
  "demo_dirs st = map (\<lambda>p. (p, DirNode)) (prefixes st)"

lemma demo_stages:
  "demo_stage [] = [''d'', ''apps'', ''a'', ''fc'', ''sha256-aa'', ''0909090909090909'', ''stage'']"
  "demo_stage demo_caps = [''d'', ''apps'', ''a'', ''fc'', ''sha256-aa'', ''4646464646464646'', ''stage'']"
  by code_simp+

lemma demo_unpacked:
  assumes "st \<in> {demo_stage [], demo_stage demo_caps}"
  shows "unpack_oci_layers st [] 0 [([], DirNode)] = Some (demo_dirs st)"
    and "inject_init st s (demo_dirs st) = Some (AList.update (st @ [''init'']) (FileNode s) (demo_dirs st))"
    and "map_of (subtree st (AList.update (st @ [''init'']) (FileNode s) (demo_dirs st))) [''init''] = Some (FileNode s)"
proof -
  have "unpack_oci_layers [''d'', ''apps'', ''a'', ''fc'', ''sha256-aa'', ''0909090909090909'', ''stage''] [] 0 [([], DirNode)]
      = Some (demo_dirs [''d'', ''apps'', ''a'', ''fc'', ''sha256-aa'', ''0909090909090909'', ''stage''])"
    "unpack_oci_layers [''d'', ''apps'', ''a'', ''fc'', ''sha256-aa'', ''4646464646464646'', ''stage''] [] 0 [([], DirNode)]
      = Some (demo_dirs [''d'', ''apps'', ''a'', ''fc'', ''sha256-aa'', ''4646464646464646'', ''stage''])"
    by code_simp+
  then show "unpack_oci_layers st [] 0 [([], DirNode)] = Some (demo_dirs st)"
    using assms by (auto simp: demo_stages)
  have "follow (demo_dirs st) (st @ [''init'']) = Some (st @ [''init''])"
    using assms demo_stages walk_plain [of "st @ [''init'']" "demo_dirs st" "[]" MAX_LINKS]
    by (auto simp: follow_def plain_name_def special_def demo_dirs_def lookup_def is_link_def map_of_map_restrict
        split: option.splits dest: map_of_SomeD)
  then show "inject_init st s (demo_dirs st) = Some (AList.update (st @ [''init'']) (FileNode s) (demo_dirs st))"
    using assms by (auto simp: inject_init_def write_file_def demo_stages demo_dirs_def lookup_def)
  show "map_of (subtree st (AList.update (st @ [''init'']) (FileNode s) (demo_dirs st))) [''init''] = Some (FileNode s)"
    using assms by (auto simp: demo_stages demo_dirs_def subtree_def strip_prefix_def List.map_filter_def)
qed

lemma demo_inits:
  obtains s s' where "image_init demo_config None [] None = Inr s" "image_init demo_config None demo_caps None = Inr s'"
    "s \<noteq> s'"
proof -
  have "\<not> isl (image_init demo_config None [] None)" "\<not> isl (image_init demo_config None demo_caps None)"
    "map_sum id length (image_init demo_config None [] None) \<noteq> map_sum id length (image_init demo_config None demo_caps None)"
    by code_simp+
  then show thesis
    by (cases "image_init demo_config None [] None"; cases "image_init demo_config None demo_caps None")
      (auto intro: that)
qed

lemma demo_no_env:
  "split_env_and_caps (wd_caps demo_world) None = (Mapping.delete CAP_FILES_ENV Mapping.empty, [])"
  "Mapping.is_empty (Mapping.delete k (Mapping.empty :: env_map))"
  "\<not> has_env_key None key" "stateful_data_mount demo_runtime = Inr None" "\<not> rt_stateful demo_runtime"
  by (simp_all add: split_env_and_caps_def has_env_key_def stateful_data_mount_def demo_runtime_def
      Mapping.is_empty_def lookup_empty lookup_delete keys_is_none_rep)

lemma demo_plain:
  obtains l k where "demo_build ''a'' None demo_disk = (Inr l, k)" "la_ports l = [8000]"
    "rootfs_at k (cached_rootfs_path ''/d'' ''a'' ''sha256:aa'' (demo_hash [])) \<noteq> None"
    "layout_at k (layout_subdir (demo_out ''a'' [])) = None"
    "la_rootfs l = cached_rootfs_path ''/d'' ''a'' ''sha256:aa'' (demo_hash [])"
proof -
  obtain s s' where s: "image_init demo_config None [] None = Inr s" by (rule demo_inits)
  have f: "unpack_oci_layers (demo_stage []) [] 0 [([], DirNode)] = Some (demo_dirs (demo_stage []))"
    "inject_init (demo_stage []) s (demo_dirs (demo_stage [])) =
       Some (AList.update (demo_stage [] @ [''init'']) (FileNode s) (demo_dirs (demo_stage [])))"
    using demo_unpacked(1,2) by blast+
  show thesis
    by (rule demo_first [OF demo_no_env(1,2,3,3) demo_stage_def [symmetric] f s]) (rule that; simp)
qed

text \<open>A later build without any environment for which the cache has an answer.\<close>

lemma demo_hit:
  assumes "lookup_cached_rootfs demo_world ''/d'' u ''sha256:aa'' True (demo_hash []) k = (Some p, k1)"
  shows "demo_build u None k = launch_firecracker demo_world ''/d'' u p ''reg/img:v1'' False (demo_hash [])
    (cached_layout_exposed_ports (digest_work_dir ''/d'' u ''sha256:aa'' (demo_hash [])) k1) ''sha256:aa'' [] k1"
proof -
  have h: "rootfs_env_fingerprint demo_digest None [] None = demo_hash []" by (simp add: demo_hash_def)
  show ?thesis
    using assms by (simp add: demo_build_def run_firecracker_build_def demo_no_env nonempty_env_def demo_reference h
        suppress_snapshot_def launch_request_def lookup_pre_pull_def)
qed

text \<open>A respawn forgets the ports of an image that was deployed by tag. The layout of a tag is pulled
  into \<open>.pull\<close>, not beside the root file system, so the cache hit of the next launch finds no layout to read
  the declared ports from: the first launch is probed on the image's port 8000, the respawn of the same app
  on none.\<close>

theorem tag_respawn_forgets_its_ports:
  "\<exists>l k l' k'. demo_build ''a'' None demo_disk = (Inr l, k) \<and> demo_build ''a'' None k = (Inr l', k') \<and>
     la_rootfs l' = la_rootfs l \<and> la_ports l = [8000] \<and> la_ports l' = []"
proof -
  obtain l k where first: "demo_build ''a'' None demo_disk = (Inr l, k)" "la_ports l = [8000]"
    "rootfs_at k (cached_rootfs_path ''/d'' ''a'' ''sha256:aa'' (demo_hash [])) \<noteq> None"
    "layout_at k (layout_subdir (demo_out ''a'' [])) = None"
    "la_rootfs l = cached_rootfs_path ''/d'' ''a'' ''sha256:aa'' (demo_hash [])"
    by (rule demo_plain)
  have "lookup_cached_rootfs demo_world ''/d'' ''a'' ''sha256:aa'' True (demo_hash []) k
      = (Some (cached_rootfs_path ''/d'' ''a'' ''sha256:aa'' (demo_hash [])), k)"
    using first(3) by (simp add: lookup_cached_rootfs_def rootfs_is_cached_def)
  note demo_hit [OF this]
  then show ?thesis using first
    by (simp add: launch_firecracker_def cached_layout_exposed_ports_def demo_out_def)
qed

text \<open>C24: the shared cache leaks cap-files. A build counts as shareable when it exports no variable and
  mounts no disk; its cap-files are not looked at. An app that is deployed with cap-files only therefore
  publishes an init that writes them, and the next app with the same image, which asked for nothing, boots
  it.\<close>

theorem the_shared_cache_leaks_cap_files:
  "\<exists>xenv l k l' k' t s. demo_build ''a'' xenv demo_disk = (Inr l, k) \<and> demo_build ''b'' None k = (Inr l', k') \<and>
     requested demo_world demo_runtime None = no_bake \<and> la_caps l' = [] \<and>
     rootfs_at k' (la_rootfs l') = Some t \<and> map_of t [''init''] = Some (FileNode s) \<and>
     image_init demo_config None demo_caps None = Inr s \<and> image_init demo_config None [] None \<noteq> Inr s"
proof -
  define xenv where "xenv = Some (Mapping.update CAP_FILES_ENV ''x'' (Mapping.empty :: env_map))"
  obtain s s' where s: "image_init demo_config None [] None = Inr s'" "image_init demo_config None demo_caps None = Inr s"
    "s' \<noteq> s" by (rule demo_inits)
  define st where "st = demo_stage demo_caps"
  define f' where "f' = AList.update (st @ [''init'']) (FileNode s) (demo_dirs st)"
  have f: "unpack_oci_layers st [] 0 [([], DirNode)] = Some (demo_dirs st)"
    "inject_init st s (demo_dirs st) = Some f'" "map_of (subtree st f') [''init''] = Some (FileNode s)"
    using demo_unpacked(1) [of st] demo_unpacked(2,3) [of st s] by (simp_all add: st_def f'_def)
  define env where "env = fst (split_env_and_caps (wd_caps demo_world) xenv)"
  have "snd (split_env_and_caps (wd_caps demo_world) (Some (Mapping.update CAP_FILES_ENV ''x'' Mapping.empty))) = demo_caps"
    "Mapping.is_empty (fst (split_env_and_caps (wd_caps demo_world) (Some (Mapping.update CAP_FILES_ENV ''x'' Mapping.empty))))"
    "\<not> has_env_key (Some (Mapping.update CAP_FILES_ENV ''x'' Mapping.empty)) ''TABBIFY_GIT_REMOTE''"
    "\<not> has_env_key (Some (Mapping.update CAP_FILES_ENV ''x'' Mapping.empty)) WORKSPACE_MARKER_ENV"
    by code_simp+
  then have env: "split_env_and_caps (wd_caps demo_world) xenv = (env, demo_caps)" "Mapping.is_empty env"
    "\<not> has_env_key xenv ''TABBIFY_GIT_REMOTE''" "\<not> has_env_key xenv WORKSPACE_MARKER_ENV"
    by (simp_all add: env_def xenv_def prod_eq_iff)
  obtain l k where first: "demo_build ''a'' xenv demo_disk = (Inr l, k)"
    "rootfs_at k (global_rootfs_path ''/d'' ''sha256:aa'') = Some (subtree st f')"
    "rootfs_at k (cached_rootfs_path ''/d'' ''b'' ''sha256:aa'' (demo_hash [])) = None"
    by (rule demo_first [OF env demo_stage_def [symmetric, of demo_caps, folded st_def] f(1,2) s(2), of "demo_hash []"]) blast
  let ?P = "cached_rootfs_path ''/d'' ''b'' ''sha256:aa'' (demo_hash [])"
  have "lookup_cached_rootfs demo_world ''/d'' ''b'' ''sha256:aa'' True (demo_hash []) k
      = (Some ?P, put_rootfs ?P (Some (subtree st f')) k)"
    using first(2,3) by (simp add: lookup_cached_rootfs_def rootfs_is_cached_def link_global_rootfs_to_uuid_def Let_def)
  note second = demo_hit [OF this]
  have "\<not> pruned demo_world (digest_dir ''/d'' ''b'' ''sha256:aa'') (demo_hash []) ?P"
    using variant_of_cached [of "demo_hash []"] bake_hash_no_slash [of demo_world no_bake]
    by (simp add: pruned_def bake_hash_def no_bake_def demo_hash_def)
  moreover have "requested demo_world demo_runtime None = no_bake"
    by (simp add: requested_def demo_no_env nonempty_env_def no_bake_def)
  moreover obtain l' k' where "demo_build ''b'' None k = (Inr l', k')" "la_caps l' = []"
    "rootfs_at k' (la_rootfs l') = Some (subtree st f')"
    using second calculation(1) by (simp add: launch_firecracker_def rootfs_at_prune rootfs_at_put)
  moreover have "image_init demo_config None [] None \<noteq> Inr s" using s by simp
  ultimately show ?thesis using first(1) f(3) s(2) by blast
qed


end
