(* ===== verification/OciAuth.thy ===== *)
theory OciAuth
  imports RootfsCache
begin

text \<open>
  Authentication against the OCI registry: JSON documents as \<open>serde_json\<close> reads them, the \<open>Bearer\<close>
  challenge and its token exchange with the per-pull cache (\<open>src/src/oci_pull_auth.rs\<close>), the
  \<open>Basic\<close> credential of the registry configuration (\<open>read_basic_auth\<close> of \<open>src/src/oci_pull.rs\<close>) and the
  runner's registry configuration (\<open>src/src/runner/registry.rs\<close>). The JSON parser and the HTTP transport are
  parameters; the requests sent are logged in order.
\<close>

section \<open>JSON\<close>

datatype json = JNull | JBool bool | JNum int | JStr string | JArr "json list" | JObj "(string \<times> json) list"

definition j_get :: "string \<Rightarrow> json \<Rightarrow> json option" where
  "j_get key j = (case j of JObj flds \<Rightarrow> map_of flds key | _ \<Rightarrow> None)"

text \<open>\<open>value[key]\<close>: \<open>Null\<close> when there is no such field.\<close>

definition j_index :: "json \<Rightarrow> string \<Rightarrow> json" where
  "j_index j key = (case j_get key j of Some v \<Rightarrow> v | None \<Rightarrow> JNull)"

definition as_str :: "json \<Rightarrow> string option" where
  "as_str j = (case j of JStr s \<Rightarrow> Some s | _ \<Rightarrow> None)"

definition as_array :: "json \<Rightarrow> json list option" where
  "as_array j = (case j of JArr vs \<Rightarrow> Some vs | _ \<Rightarrow> None)"

definition as_object :: "json \<Rightarrow> (string \<times> json) list option" where
  "as_object j = (case j of JObj flds \<Rightarrow> Some flds | _ \<Rightarrow> None)"

section \<open>The challenge\<close>

record BearerChallenge =
  bc_realm :: string
  bc_service :: "string option"
  bc_scope :: "string option"

type_synonym ChallengeKey = "string \<times> string \<times> string option"

definition challenge_key :: "BearerChallenge \<Rightarrow> ChallengeKey" where
  "challenge_key c = (bc_realm c, or_empty (bc_service c), bc_scope c)"

definition unreserved :: "char \<Rightarrow> bool" where
  "unreserved c \<longleftrightarrow> is_alnum c \<or> c \<in> {CHR ''-'', CHR ''_'', CHR ''.'', CHR ''~''}"

definition hex_upper :: "nat \<Rightarrow> char" where
  "hex_upper n = (if n < 10 then char_of (48 + n) else char_of (55 + n))"

definition percent_encode_query :: "string \<Rightarrow> string" where
  "percent_encode_query s =
     concat (map (\<lambda>c. if unreserved c then [c]
       else [CHR ''%'', hex_upper (of_char c div 16), hex_upper (of_char c mod 16)]) s)"

definition token_params :: "BearerChallenge \<Rightarrow> string list" where
  "token_params c =
     (case bc_service c of Some v \<Rightarrow> [''service='' @ percent_encode_query v] | None \<Rightarrow> []) @
     (case bc_scope c of Some v \<Rightarrow> [''scope='' @ percent_encode_query v] | None \<Rightarrow> [])"

fun joined :: "char \<Rightarrow> string list \<Rightarrow> string" where
  "joined c [] = []"
| "joined c [w] = w"
| "joined c (w # v # ws) = w @ c # joined c (v # ws)"

definition token_url :: "BearerChallenge \<Rightarrow> string" where
  "token_url c =
     (if token_params c = [] then bc_realm c
      else bc_realm c @ [if CHR ''?'' \<in> set (bc_realm c) then CHR ''&'' else CHR ''?''] @
        joined CHR ''&'' (token_params c))"

text \<open>The inside of a quoted value, and what follows the closing quote.\<close>

fun quoted_value :: "string \<Rightarrow> string \<times> string" where
  "quoted_value [] = ([], [])"
| "quoted_value [c] = (if c = DQUOTE then ([], []) else ([c], []))"
| "quoted_value (c # d # s) =
     (if c = DQUOTE then ([], d # s)
      else if c = BACKSLASH then apfst (Cons d) (quoted_value s)
      else apfst (Cons c) (quoted_value (d # s)))"

definition param_value :: "string \<Rightarrow> string \<times> string" where
  "param_value s =
     (case s of
        c # s' \<Rightarrow>
          if c = DQUOTE then quoted_value s'
          else (takeWhile (\<lambda>c. c \<noteq> CHR '','') s, dropWhile (\<lambda>c. c \<noteq> CHR '','') s)
      | [] \<Rightarrow> ([], []))"

lemma quoted_value_shorter: "length (snd (quoted_value s)) \<le> length s"
  by (induction s rule: quoted_value.induct) (auto simp: le_SucI)

lemma param_value_shorter: "length (snd (param_value s)) \<le> length s"
proof (cases s)
  case (Cons c s')
  then show ?thesis
    using quoted_value_shorter [of s'] length_dropWhile_le [of "\<lambda>c. c \<noteq> CHR '',''" s] by (simp add: param_value_def)
qed (simp add: param_value_def)

definition param_sep :: "char \<Rightarrow> bool" where
  "param_sep c \<longleftrightarrow> c = CHR '' '' \<or> c = CHR '','' \<or> c = TAB"

definition key_char :: "char \<Rightarrow> bool" where
  "key_char c \<longleftrightarrow> c \<noteq> CHR ''='' \<and> c \<noteq> CHR '',''"

function parse_auth_params :: "string \<Rightarrow> (string \<times> string) list" where
  "parse_auth_params s =
     (case dropWhile key_char (dropWhile param_sep s) of
        [] \<Rightarrow> []
      | c # rest \<Rightarrow>
          if c \<noteq> CHR ''='' then []
          else
            let key = trim (takeWhile key_char (dropWhile param_sep s)); v = param_value rest
            in (if key = [] then [] else [(key, trim (fst v))]) @ parse_auth_params (snd v))"
  by pat_completeness auto
termination
proof (relation "measure length")
  fix s c rest key v
  assume "dropWhile key_char (dropWhile param_sep s) = c # rest" "v = param_value rest"
  then have "length (c # rest) \<le> length s" "length (snd v) \<le> length rest"
    using length_dropWhile_le [of key_char "dropWhile param_sep s"] length_dropWhile_le [of param_sep s]
      param_value_shorter [of rest] by auto
  then show "(snd v, s) \<in> measure length" by simp
qed simp

declare parse_auth_params.simps [simp del]

definition auth_param :: "string \<Rightarrow> (string \<times> string) list \<Rightarrow> string option" where
  "auth_param name params =
     map_option snd (List.find (\<lambda>(k, _). map ascii_lower k = map ascii_lower name) params)"

definition nonempty :: "string option \<Rightarrow> string option" where
  "nonempty s = (if s = Some [] then None else s)"

definition parse_bearer_challenge :: "string \<Rightarrow> BearerChallenge option" where
  "parse_bearer_challenge header =
     (let trimmed = dropWhile is_whitespace header in
      if length trimmed < 6 \<or> map ascii_lower (take 6 trimmed) \<noteq> ''bearer'' then None
      else
        let params = parse_auth_params (drop 6 trimmed) in
        map_option (\<lambda>realm. \<lparr>bc_realm = realm, bc_service = nonempty (auth_param ''service'' params),
            bc_scope = nonempty (auth_param ''scope'' params)\<rparr>)
          (nonempty (auth_param ''realm'' params)))"

section \<open>Requests\<close>

record request =
  rq_url :: string
  rq_range :: "nat option"
  rq_accept :: "string option"
  rq_auth :: "string option"

text \<open>A response: the body in chunks, and whether it ends cleanly or breaks.\<close>

record response =
  rs_status :: nat
  rs_challenge :: "string option"
  rs_chunks :: "u8 list list"
  rs_clean :: bool

text \<open>What the registry answers, by the number of the request and the request; \<open>None\<close> is a transport
  error.\<close>

type_synonym transport = "nat \<Rightarrow> request \<Rightarrow> response option"

text \<open>The requests sent so far and the bearer cache of the pull.\<close>

record session =
  ss_log :: "request list"
  ss_by_key :: "(ChallengeKey \<times> string) list"
  ss_newest :: "string option"

definition new_session :: session where
  "new_session = \<lparr>ss_log = [], ss_by_key = [], ss_newest = None\<rparr>"

definition issue :: "transport \<Rightarrow> request \<Rightarrow> session \<Rightarrow> response option \<times> session" where
  "issue t rq s = (t (length (ss_log s)) rq, s\<lparr>ss_log := ss_log s @ [rq]\<rparr>)"

definition store_token :: "ChallengeKey \<Rightarrow> string \<Rightarrow> session \<Rightarrow> session" where
  "store_token key token s =
     s\<lparr>ss_by_key := AList.update key token (ss_by_key s), ss_newest := Some token\<rparr>"

definition MAX_TOKEN_BODY :: nat where "MAX_TOKEN_BODY = 65536"

fun read_body :: "u8 list \<Rightarrow> u8 list list \<Rightarrow> bool \<Rightarrow> u8 list option" where
  "read_body acc [] clean = (if clean then Some acc else None)"
| "read_body acc (chunk # chunks) clean =
     (if MAX_TOKEN_BODY < length acc + length chunk then None else read_body (acc @ chunk) chunks clean)"

definition token_of :: "json \<Rightarrow> string option" where
  "token_of doc =
     nonempty (Option.bind (case j_get ''token'' doc of Some v \<Rightarrow> Some v | None \<Rightarrow> j_get ''access_token'' doc) as_str)"

definition basic_header :: "string \<Rightarrow> string" where
  "basic_header b = ''Basic '' @ b"

definition bearer_header :: "string \<Rightarrow> string" where
  "bearer_header token = ''Bearer '' @ token"

definition exchange_token ::
  "transport \<Rightarrow> (u8 list \<Rightarrow> json option) \<Rightarrow> BearerChallenge \<Rightarrow> string option \<Rightarrow> session \<Rightarrow> string option \<times> session" where
  "exchange_token t json challenge basic s =
     (case issue t \<lparr>rq_url = token_url challenge, rq_range = None, rq_accept = Some ''application/json'',
           rq_auth = map_option basic_header basic\<rparr> s of
        (None, s1) \<Rightarrow> (None, s1)
      | (Some resp, s1) \<Rightarrow>
          if \<not> (200 \<le> rs_status resp \<and> rs_status resp < 300) then (None, s1)
          else (Option.bind (Option.bind (read_body [] (rs_chunks resp) (rs_clean resp)) json) token_of, s1))"

definition cached_other :: "session \<Rightarrow> ChallengeKey \<Rightarrow> string option \<Rightarrow> string option" where
  "cached_other s key proactive =
     (case map_of (ss_by_key s) key of
        Some cached \<Rightarrow> if Some cached \<noteq> proactive then Some cached else None
      | None \<Rightarrow> None)"

definition resolve_bearer ::
  "transport \<Rightarrow> (u8 list \<Rightarrow> json option) \<Rightarrow> BearerChallenge \<Rightarrow> string option \<Rightarrow> string option \<Rightarrow> session \<Rightarrow>
   string option \<times> session" where
  "resolve_bearer t json challenge basic proactive s =
     (case cached_other s (challenge_key challenge) proactive of
        Some token \<Rightarrow> (Some token, s)
      | None \<Rightarrow>
          (case exchange_token t json challenge basic s of
             (None, s1) \<Rightarrow> (None, s1)
           | (Some token, s1) \<Rightarrow> (Some token, store_token (challenge_key challenge) token s1)))"

definition get_authed ::
  "transport \<Rightarrow> (u8 list \<Rightarrow> json option) \<Rightarrow> string option \<Rightarrow> string \<Rightarrow> nat option \<Rightarrow> string option \<Rightarrow> session \<Rightarrow>
   response option \<times> session" where
  "get_authed t json basic url range_from accept s =
     (let proactive = ss_newest s;
          first_header = (case proactive of Some token \<Rightarrow> Some (bearer_header token) | None \<Rightarrow> map_option basic_header basic);
          rq = \<lparr>rq_url = url, rq_range = range_from, rq_accept = accept, rq_auth = first_header\<rparr>
      in case issue t rq s of
           (None, s1) \<Rightarrow> (None, s1)
         | (Some resp, s1) \<Rightarrow>
             if rs_status resp \<noteq> 401 then (Some resp, s1)
             else (case Option.bind (rs_challenge resp) parse_bearer_challenge of
                None \<Rightarrow> (Some resp, s1)
              | Some challenge \<Rightarrow>
                  (case resolve_bearer t json challenge basic proactive s1 of
                     (None, s2) \<Rightarrow> (None, s2)
                   | (Some token, s2) \<Rightarrow> issue t (rq\<lparr>rq_auth := Some (bearer_header token)\<rparr>) s2)))"

section \<open>The registry configuration\<close>

text \<open>\<open>read_basic_auth\<close>: the entry of the host, else the first one.\<close>

definition read_basic_auth :: "json option \<Rightarrow> string \<Rightarrow> string option" where
  "read_basic_auth config host =
     Option.bind config (\<lambda>v. Option.bind (Option.bind (j_get ''auths'' v) as_object) (\<lambda>auths.
       Option.bind (case map_of auths host of Some e \<Rightarrow> Some e
                    | None \<Rightarrow> (case auths of [] \<Rightarrow> None | (_, e) # _ \<Rightarrow> Some e)) (\<lambda>entry.
         Option.bind (j_get ''auth'' entry) as_str)))"

definition registry_host_from_ref :: "string \<Rightarrow> string" where
  "registry_host_from_ref reff = hd (split_on CHR ''/'' reff)"

text \<open>The first segment of an IPv6 address is read by the standard library's parser.\<close>

definition is_mesh_ula_host :: "(string \<Rightarrow> u16 option) \<Rightarrow> string \<Rightarrow> bool" where
  "is_mesh_ula_host ipv6 host =
     (case strip_prefix ''['' host of
        None \<Rightarrow> False
      | Some rest \<Rightarrow>
          (case split_once CHR '']'' rest of
             None \<Rightarrow> False
           | Some (addr, _) \<Rightarrow> (case ipv6 addr of Some seg \<Rightarrow> and seg 0xFE00 = 0xFC00 | None \<Rightarrow> False)))"

record RegistryConfig =
  rc_token :: string
  rc_hosts :: "string list"

definition new_registry_config :: "bool \<Rightarrow> string \<Rightarrow> string \<Rightarrow> RegistryConfig option" where
  "new_registry_config io_ok token reff =
     (let host = registry_host_from_ref (lowercase_oci_repo reff) in
      if host = [] \<or> \<not> io_ok then None else Some \<lparr>rc_token = token, rc_hosts = [host]\<rparr>)"

definition file_for_ref ::
  "(string \<Rightarrow> u16 option) \<Rightarrow> bool \<Rightarrow> string \<Rightarrow> RegistryConfig \<Rightarrow> bool \<times> RegistryConfig" where
  "file_for_ref ipv6 io_ok reff c =
     (let host = registry_host_from_ref (lowercase_oci_repo reff) in
      if host \<in> set (rc_hosts c) then (True, c)
      else if \<not> is_mesh_ula_host ipv6 host then (False, c)
      else if \<not> io_ok then (False, c)
      else (True, c\<lparr>rc_hosts := rc_hosts c @ [host]\<rparr>))"

section \<open>Lemmas\<close>

lemma issue_log: "issue t rq s = (r, s') \<Longrightarrow> ss_log s' = ss_log s @ [rq]"
  by (auto simp: issue_def)

lemma exchange_log:
  "exchange_token t json challenge basic s = (r, s') \<Longrightarrow>
   ss_log s' = ss_log s @ [\<lparr>rq_url = token_url challenge, rq_range = None, rq_accept = Some ''application/json'',
     rq_auth = map_option basic_header basic\<rparr>]"
  by (auto simp: exchange_token_def issue_def split: option.splits if_splits)

lemma store_token_log [simp]: "ss_log (store_token key token s) = ss_log s"
  by (simp add: store_token_def)

lemma resolve_log:
  assumes "resolve_bearer t json challenge basic proactive s = (r, s')"
  shows "ss_log s' = ss_log s \<or>
    ss_log s' = ss_log s @ [\<lparr>rq_url = token_url challenge, rq_range = None, rq_accept = Some ''application/json'',
     rq_auth = map_option basic_header basic\<rparr>]"
proof (cases "cached_other s (challenge_key challenge) proactive")
  case None
  obtain x s1 where "exchange_token t json challenge basic s = (x, s1)"
    by (cases "exchange_token t json challenge basic s")
  with assms None exchange_log [OF this] show ?thesis
    by (auto simp: resolve_bearer_def split: option.splits)
qed (use assms in \<open>simp add: resolve_bearer_def\<close>)

end
