(* ===== verification/OciPull.thy ===== *)
theory OciPull
  imports OciAuth
begin

text \<open>
  The resumable pull of an image into an OCI layout: the reference, the download loop with its range
  requests, stall counter and deadline, the digest checks and the walk over manifest, configuration and
  layers (\<open>src/src/oci_pull.rs\<close>, \<open>src/src/oci_pull_transport.rs\<close>), and the runner of the external tools
  with its retries (\<open>src/src/tool_exec.rs\<close>). The files are those below any path, by their full name.
\<close>

section \<open>References\<close>

record ParsedRef =
  pr_host :: string
  pr_repo :: string
  pr_reference :: string
  pr_is_digest :: bool

definition parse_ref :: "string \<Rightarrow> ParsedRef option" where
  "parse_ref reff =
     (case split_once CHR ''/'' reff of
        None \<Rightarrow> None
      | Some (host, rest) \<Rightarrow>
          (case rsplit_once CHR ''@'' rest of
             Some (repo, dig) \<Rightarrow>
               if starts_with ''sha256:'' dig
               then Some \<lparr>pr_host = host, pr_repo = repo, pr_reference = dig, pr_is_digest = True\<rparr> else None
           | None \<Rightarrow>
               (let seg_start = (case rsplit_once CHR ''/'' rest of Some (a, _) \<Rightarrow> length a + 1 | None \<Rightarrow> 0)
                in case position (\<lambda>c. c = CHR '':'') (drop seg_start rest) of
                     Some rel \<Rightarrow> Some \<lparr>pr_host = host, pr_repo = take (seg_start + rel) rest,
                         pr_reference = drop (seg_start + rel + 1) rest, pr_is_digest = False\<rparr>
                   | None \<Rightarrow> Some \<lparr>pr_host = host, pr_repo = rest, pr_reference = ''latest'', pr_is_digest = False\<rparr>)))"

definition expected_digest :: "ParsedRef \<Rightarrow> string option" where
  "expected_digest p = (if pr_is_digest p then Some (pr_reference p) else None)"

section \<open>The state of a pull\<close>

text \<open>\<open>Path::join\<close>: an absolute second part replaces the first.\<close>

definition join_rs :: "string \<Rightarrow> string \<Rightarrow> string" where
  "join_rs d p = (if starts_with ''/'' p then p else d @ ''/'' @ p)"

record pull =
  pl_files :: "(string \<times> u8 list) list"
  pl_session :: session
  pl_index :: "(string \<times> string \<times> nat) option"
  pl_marker :: bool

text \<open>The outside world: the registry, the seconds gone by and the local writes by the number of requests
  sent so far (\<open>nt_wrote\<close>: the bytes of the body that reach the disk before a write error), other calls of
  the file system by name and path, the SHA-256 of the \<open>sha2\<close> crate in hexadecimal, and the JSON parser.\<close>

record net =
  nt_transport :: transport
  nt_clock :: "nat \<Rightarrow> nat"
  nt_open :: "nat \<Rightarrow> bool"
  nt_wrote :: "nat \<Rightarrow> nat option"
  nt_io :: "string \<Rightarrow> string \<Rightarrow> bool"
  nt_sha :: "u8 list \<Rightarrow> string"
  nt_json :: "u8 list \<Rightarrow> json option"
  nt_arch :: string

definition file_at :: "pull \<Rightarrow> string \<Rightarrow> u8 list option" where
  "file_at st p = map_of (pl_files st) p"

definition set_file :: "string \<Rightarrow> u8 list option \<Rightarrow> pull \<Rightarrow> pull" where
  "set_file p content st =
     st\<lparr>pl_files := (case content of Some c \<Rightarrow> AList.update p c (pl_files st) | None \<Rightarrow> AList.delete p (pl_files st))\<rparr>"

definition requests :: "pull \<Rightarrow> nat" where
  "requests st = length (ss_log (pl_session st))"

definition file_len :: "pull \<Rightarrow> string \<Rightarrow> nat" where
  "file_len st p = (case file_at st p of Some c \<Rightarrow> length c | None \<Rightarrow> 0)"

section \<open>The download loop\<close>

definition BLOB_DEADLINE :: nat where "BLOB_DEADLINE = 60 * 45"
definition MAX_STALL_RETRIES :: nat where "MAX_STALL_RETRIES = 40"
definition VERIFY_REPULL_ATTEMPTS :: nat where "VERIFY_REPULL_ATTEMPTS = 3"

datatype pull_error =
    BadRef | Deadline | Stalled | BadStatus nat | ReadFailed | DigestMismatch | PersistFailed | BadManifest
  | UnsupportedDigest | VerifyFailed | WriteFailed

definition bump_stall :: "net \<Rightarrow> nat \<Rightarrow> nat \<Rightarrow> pull \<Rightarrow> pull_error + nat" where
  "bump_stall net stall started st =
     (if BLOB_DEADLINE \<le> nt_clock net (requests st) - started then Inl Deadline
      else if MAX_STALL_RETRIES \<le> stall + 1 then Inl Stalled
      else Inr (stall + 1))"

definition is_transient_status :: "nat \<Rightarrow> bool" where
  "is_transient_status s \<longleftrightarrow> s = 429 \<or> 500 \<le> s \<and> s \<le> 599"

text \<open>Whether the body ended cleanly, and the file after it.\<close>

definition pump_body :: "net \<Rightarrow> response \<Rightarrow> string \<Rightarrow> bool \<Rightarrow> pull \<Rightarrow> bool \<times> pull" where
  "pump_body net resp dest app st =
     (if \<not> nt_open net (requests st) then (False, st)
      else
        let old = (if app then case file_at st dest of Some c \<Rightarrow> c | None \<Rightarrow> [] else []);
            data = concat (rs_chunks resp)
        in case nt_wrote net (requests st) of
             Some n \<Rightarrow> (False, set_file dest (Some (old @ take n data)) st)
           | None \<Rightarrow> (rs_clean resp, set_file dest (Some (old @ data)) st))"

definition ask ::
  "net \<Rightarrow> string option \<Rightarrow> string \<Rightarrow> nat \<Rightarrow> string option \<Rightarrow> pull \<Rightarrow> response option \<times> pull" where
  "ask net basic url have_len accept st =
     (case get_authed (nt_transport net) (nt_json net) basic url (if 0 < have_len then Some have_len else None) accept
             (pl_session st) of
        (r, s) \<Rightarrow> (r, st\<lparr>pl_session := s\<rparr>))"

text \<open>One turn of the loop: it ends with a result, or goes on with a new stall count.\<close>

definition download_step ::
  "net \<Rightarrow> string option \<Rightarrow> string \<Rightarrow> string \<Rightarrow> string option \<Rightarrow> nat \<Rightarrow> nat \<Rightarrow> pull \<Rightarrow>
   ((pull_error + unit) + nat) \<times> pull" where
  "download_step net basic url dest accept started stall st =
     (let have_len = file_len st dest;
          stalled = (\<lambda>st'. (case bump_stall net stall started st' of Inl e \<Rightarrow> (Inl (Inl e), st') | Inr s \<Rightarrow> (Inr s, st')))
      in case ask net basic url have_len accept st of
           (None, st1) \<Rightarrow> stalled st1
         | (Some resp, st1) \<Rightarrow>
             if rs_status resp = 200 \<or> rs_status resp = 206 then
               (let app = (0 < have_len \<and> rs_status resp \<noteq> 200);
                    before = (if app then have_len else 0)
                in case pump_body net resp dest app st1 of
                     (True, st2) \<Rightarrow> (Inl (Inr ()), st2)
                   | (False, st2) \<Rightarrow> if before < file_len st2 dest then (Inr 0, st2) else stalled st2)
             else if rs_status resp = 416 then (Inl (Inr ()), st1)
             else if is_transient_status (rs_status resp) then stalled st1
             else (Inl (Inl (BadStatus (rs_status resp))), st1))"

fun download_loop ::
  "nat \<Rightarrow> net \<Rightarrow> string option \<Rightarrow> string \<Rightarrow> string \<Rightarrow> string option \<Rightarrow> nat \<Rightarrow> nat \<Rightarrow> pull \<Rightarrow>
   ((pull_error + unit) \<times> pull) option" where
  "download_loop 0 net basic url dest accept started stall st = None"
| "download_loop (Suc fuel) net basic url dest accept started stall st =
     (case download_step net basic url dest accept started stall st of
        (Inl r, st') \<Rightarrow> Some (r, st')
      | (Inr stall', st') \<Rightarrow> download_loop fuel net basic url dest accept started stall' st')"

definition download_resumable ::
  "nat \<Rightarrow> net \<Rightarrow> string option \<Rightarrow> string \<Rightarrow> string \<Rightarrow> string option \<Rightarrow> pull \<Rightarrow>
   ((pull_error + unit) \<times> pull) option" where
  "download_resumable fuel net basic url dest accept st =
     (if \<not> nt_io net ''mkdir'' dest then Some (Inl WriteFailed, st)
      else download_loop fuel net basic url dest accept (nt_clock net (requests st)) 0 st)"

section \<open>Blobs\<close>

definition verify_file_sha256 :: "net \<Rightarrow> string \<Rightarrow> string \<Rightarrow> pull \<Rightarrow> pull_error + bool" where
  "verify_file_sha256 net p want st =
     (case file_at st p of
        None \<Rightarrow> Inr False
      | Some c \<Rightarrow> if nt_io net ''read'' p then Inr (nt_sha net c = want) else Inl ReadFailed)"

definition discard :: "net \<Rightarrow> string \<Rightarrow> pull \<Rightarrow> pull" where
  "discard net p st = (if nt_io net ''remove'' p then set_file p None st else st)"

fun repull ::
  "nat \<Rightarrow> nat \<Rightarrow> net \<Rightarrow> string option \<Rightarrow> string \<Rightarrow> string \<Rightarrow> string \<Rightarrow> pull \<Rightarrow>
   ((pull_error + unit) \<times> pull) option" where
  "repull 0 fuel net basic url dest want st = Some (Inl VerifyFailed, st)"
| "repull (Suc attempts) fuel net basic url dest want st =
     (case download_resumable fuel net basic url dest None st of
        None \<Rightarrow> None
      | Some (Inl e, st1) \<Rightarrow> Some (Inl e, st1)
      | Some (Inr _, st1) \<Rightarrow>
          (case verify_file_sha256 net dest want st1 of
             Inl e \<Rightarrow> Some (Inl e, st1)
           | Inr True \<Rightarrow> Some (Inr (), st1)
           | Inr False \<Rightarrow> repull attempts fuel net basic url dest want (discard net dest st1)))"

definition pull_blob ::
  "nat \<Rightarrow> net \<Rightarrow> string \<Rightarrow> string \<Rightarrow> string \<Rightarrow> string \<Rightarrow> string option \<Rightarrow> pull \<Rightarrow>
   ((pull_error + unit) \<times> pull) option" where
  "pull_blob fuel net base repo digest blobs basic st =
     (case strip_prefix ''sha256:'' digest of
        None \<Rightarrow> Some (Inl UnsupportedDigest, st)
      | Some hex \<Rightarrow>
          (case verify_file_sha256 net (join_rs blobs hex) hex st of
             Inl e \<Rightarrow> Some (Inl e, st)
           | Inr True \<Rightarrow> Some (Inr (), st)
           | Inr False \<Rightarrow>
               repull VERIFY_REPULL_ATTEMPTS fuel net basic (base @ ''/v2/'' @ repo @ ''/blobs/'' @ digest)
                 (join_rs blobs hex) hex st))"

section \<open>The image\<close>

definition MANIFEST_ACCEPT :: string where
  "MANIFEST_ACCEPT = ''application/vnd.oci.image.manifest.v1+json,application/vnd.oci.image.index.v1+json,application/vnd.docker.distribution.manifest.v2+json,application/vnd.docker.distribution.manifest.list.v2+json''"

definition OCI_MANIFEST_MEDIA :: string where
  "OCI_MANIFEST_MEDIA = ''application/vnd.oci.image.manifest.v1+json''"

definition manifest_media_type :: "net \<Rightarrow> u8 list \<Rightarrow> string" where
  "manifest_media_type net bytes =
     (case Option.bind (nt_json net bytes) (\<lambda>v. as_str (j_index v ''mediaType'')) of
        Some s \<Rightarrow> s | None \<Rightarrow> OCI_MANIFEST_MEDIA)"

record FetchedManifest =
  fm_bytes :: "u8 list"
  fm_hex :: string
  fm_media_type :: string

definition persist_manifest :: "net \<Rightarrow> string \<Rightarrow> string \<Rightarrow> u8 list \<Rightarrow> pull \<Rightarrow> pull option" where
  "persist_manifest net tmp final bytes st =
     (if nt_io net ''rename'' final then Some (set_file tmp None (set_file final (Some bytes) st))
      else if nt_io net ''write'' final then Some (set_file final (Some bytes) st)
      else None)"

definition fetch_manifest ::
  "nat \<Rightarrow> net \<Rightarrow> string \<Rightarrow> string option \<Rightarrow> string option \<Rightarrow> string \<Rightarrow> pull \<Rightarrow>
   ((pull_error + FetchedManifest) \<times> pull) option" where
  "fetch_manifest fuel net url basic expected blobs st =
     (let tmp = join_rs blobs ''.manifest.tmp'' in
      case download_resumable fuel net basic url tmp (Some MANIFEST_ACCEPT) st of
        None \<Rightarrow> None
      | Some (Inl e, st1) \<Rightarrow> Some (Inl e, st1)
      | Some (Inr _, st1) \<Rightarrow>
          (case file_at st1 tmp of
             None \<Rightarrow> Some (Inl ReadFailed, st1)
           | Some bytes \<Rightarrow>
               if \<not> nt_io net ''read'' tmp then Some (Inl ReadFailed, st1)
               else
                 let hex = nt_sha net bytes in
                 if (case expected of Some d \<Rightarrow> d \<noteq> ''sha256:'' @ hex | None \<Rightarrow> False)
                 then Some (Inl DigestMismatch, discard net tmp st1)
                 else case persist_manifest net tmp (join_rs blobs hex) bytes st1 of
                   None \<Rightarrow> Some (Inl PersistFailed, st1)
                 | Some st2 \<Rightarrow>
                     Some (Inr \<lparr>fm_bytes = bytes, fm_hex = hex, fm_media_type = manifest_media_type net bytes\<rparr>, st2)))"

definition host_child :: "string \<Rightarrow> json \<Rightarrow> bool" where
  "host_child arch d \<longleftrightarrow>
     as_str (j_index (j_index d ''platform'') ''architecture'') = Some (host_oci_arch arch) \<and>
     (case as_str (j_index (j_index d ''platform'') ''os'') of Some os \<Rightarrow> os = ''linux'' | None \<Rightarrow> True)"

definition maybe_select_index_child :: "net \<Rightarrow> u8 list \<Rightarrow> pull_error + string option" where
  "maybe_select_index_child net bytes =
     (case nt_json net bytes of
        None \<Rightarrow> Inl BadManifest
      | Some v \<Rightarrow>
          (case (j_get ''layers'' v, Option.bind (j_get ''manifests'' v) as_array) of
             (None, Some arr) \<Rightarrow>
               (case Option.bind (case List.find (host_child (nt_arch net)) arr of Some d \<Rightarrow> Some d
                     | None \<Rightarrow> (case arr of [] \<Rightarrow> None | d # _ \<Rightarrow> Some d)) (\<lambda>d. as_str (j_index d ''digest'')) of
                  Some digest \<Rightarrow> Inr (Some digest) | None \<Rightarrow> Inl BadManifest)
           | _ \<Rightarrow> Inr None))"

fun pull_layers ::
  "nat \<Rightarrow> net \<Rightarrow> string \<Rightarrow> string \<Rightarrow> string \<Rightarrow> string option \<Rightarrow> json list \<Rightarrow> pull \<Rightarrow>
   ((pull_error + unit) \<times> pull) option" where
  "pull_layers fuel net base repo blobs basic [] st = Some (Inr (), st)"
| "pull_layers fuel net base repo blobs basic (layer # layers) st =
     (case as_str (j_index layer ''digest'') of
        None \<Rightarrow> Some (Inl BadManifest, st)
      | Some digest \<Rightarrow>
          (case pull_blob fuel net base repo digest blobs basic st of
             None \<Rightarrow> None
           | Some (Inl e, st1) \<Rightarrow> Some (Inl e, st1)
           | Some (Inr _, st1) \<Rightarrow> pull_layers fuel net base repo blobs basic layers st1))"

definition layers_of :: "json \<Rightarrow> json list" where
  "layers_of man = (case as_array (j_index man ''layers'') of Some ls \<Rightarrow> ls | None \<Rightarrow> [])"

definition manifest_url :: "string \<Rightarrow> ParsedRef \<Rightarrow> string \<Rightarrow> string" where
  "manifest_url base p r = base @ ''/v2/'' @ pr_repo p @ ''/manifests/'' @ r"

text \<open>The manifest of the image: the document of the reference, or the child that a multi-platform index
  names for this host.\<close>

definition image_manifest ::
  "nat \<Rightarrow> net \<Rightarrow> string \<Rightarrow> ParsedRef \<Rightarrow> string \<Rightarrow> string option \<Rightarrow> pull \<Rightarrow>
   ((pull_error + FetchedManifest) \<times> pull) option" where
  "image_manifest fuel net base p blobs basic st =
     (case fetch_manifest fuel net (manifest_url base p (pr_reference p)) basic (expected_digest p) blobs st of
        Some (Inr doc, st1) \<Rightarrow>
          (case maybe_select_index_child net (fm_bytes doc) of
             Inl e \<Rightarrow> Some (Inl e, st1)
           | Inr None \<Rightarrow> Some (Inr doc, st1)
           | Inr (Some child) \<Rightarrow> fetch_manifest fuel net (manifest_url base p child) basic (Some child) blobs st1)
      | r \<Rightarrow> r)"

definition write_layout :: "net \<Rightarrow> string \<Rightarrow> FetchedManifest \<Rightarrow> pull \<Rightarrow> (pull_error + unit) \<times> pull" where
  "write_layout net dir m st =
     (if \<not> nt_io net ''write'' (join_rs dir ''oci-layout'') then (Inl WriteFailed, st)
      else
        let st1 = st\<lparr>pl_marker := True\<rparr> in
        if \<not> nt_io net ''write'' (join_rs dir ''index.json'') then (Inl WriteFailed, st1)
        else (Inr (), st1\<lparr>pl_index := Some (fm_media_type m, ''sha256:'' @ fm_hex m, length (fm_bytes m))\<rparr>))"

definition blobs_dir :: "string \<Rightarrow> string" where
  "blobs_dir dir = join_rs (join_rs dir ''blobs'') ''sha256''"

definition pull_contents ::
  "nat \<Rightarrow> net \<Rightarrow> string \<Rightarrow> ParsedRef \<Rightarrow> string \<Rightarrow> string option \<Rightarrow> FetchedManifest \<Rightarrow> pull \<Rightarrow>
   ((pull_error + unit) \<times> pull) option" where
  "pull_contents fuel net base p dir basic m st =
     (case nt_json net (fm_bytes m) of
        None \<Rightarrow> Some (Inl BadManifest, st)
      | Some man \<Rightarrow>
          (case as_str (j_index (j_index man ''config'') ''digest'') of
             None \<Rightarrow> Some (Inl BadManifest, st)
           | Some config_digest \<Rightarrow>
               (case pull_blob fuel net base (pr_repo p) config_digest (blobs_dir dir) basic st of
                  Some (Inr _, st1) \<Rightarrow>
                    (case pull_layers fuel net base (pr_repo p) (blobs_dir dir) basic (layers_of man) st1 of
                       Some (Inr _, st2) \<Rightarrow> Some (write_layout net dir m st2)
                     | r \<Rightarrow> r)
                | r \<Rightarrow> r)))"

definition pull_image ::
  "nat \<Rightarrow> net \<Rightarrow> string \<Rightarrow> string \<Rightarrow> string option \<Rightarrow> pull \<Rightarrow> ((pull_error + unit) \<times> pull) option" where
  "pull_image fuel net reff dir basic st =
     (case parse_ref reff of
        None \<Rightarrow> Some (Inl BadRef, st)
      | Some p \<Rightarrow>
          let base = ''http://'' @ pr_host p; st0 = st\<lparr>pl_session := new_session\<rparr> in
          if \<not> nt_io net ''mkdir'' (blobs_dir dir) then Some (Inl WriteFailed, st)
          else
            (case image_manifest fuel net base p (blobs_dir dir) basic st0 of
               None \<Rightarrow> None
             | Some (Inl e, st1) \<Rightarrow> Some (Inl e, st1)
             | Some (Inr m, st1) \<Rightarrow> pull_contents fuel net base p dir basic m st1))"

definition pull_image_http ::
  "nat \<Rightarrow> net \<Rightarrow> string \<Rightarrow> string \<Rightarrow> json option \<Rightarrow> pull \<Rightarrow> ((pull_error + unit) \<times> pull) option" where
  "pull_image_http fuel net reff dir config st =
     pull_image fuel net reff dir (read_basic_auth config (hd (split_on CHR ''/'' reff))) st"

section \<open>The external tools\<close>

definition NET_TOOL_ATTEMPTS :: nat where "NET_TOOL_ATTEMPTS = 3"

definition is_net_tool :: "string \<Rightarrow> bool" where
  "is_net_tool prog \<longleftrightarrow> prog = ''oras''"

definition attempts_for :: "string \<Rightarrow> nat" where
  "attempts_for prog = (if is_net_tool prog then NET_TOOL_ATTEMPTS else 1)"

definition retry_backoff_ms :: "nat \<Rightarrow> nat" where
  "retry_backoff_ms attempt = 500 * attempt"

text \<open>What the \<open>k\<close>-th spawn of a command gives: \<open>None\<close> when it cannot be spawned, else whether it exited
  with zero and its standard output. The run ends at the first success; the waits are in milliseconds.\<close>

fun tool_attempts :: "(nat \<Rightarrow> (bool \<times> string) option) \<Rightarrow> nat \<Rightarrow> nat \<Rightarrow> bool \<times> string \<Rightarrow> (bool \<times> string) \<times> nat list" where
  "tool_attempts spawn k 0 last_out = (last_out, [])"
| "tool_attempts spawn k (Suc n) last_out =
     (case spawn k of
        Some (True, out) \<Rightarrow> ((True, out), [])
      | r \<Rightarrow>
          (let failed = (False, case r of Some (_, out) \<Rightarrow> out | None \<Rightarrow> []);
               wait = (if n = 0 then [] else [retry_backoff_ms k]);
               (res, waits) = tool_attempts spawn (k + 1) n failed
           in (res, wait @ waits)))"

definition run_tool :: "(nat \<Rightarrow> (bool \<times> string) option) \<Rightarrow> string list \<Rightarrow> (bool \<times> string) \<times> nat list" where
  "run_tool spawn argv =
     (case argv of [] \<Rightarrow> ((False, []), []) | prog # _ \<Rightarrow> tool_attempts spawn 1 (attempts_for prog) (False, []))"


section \<open>What a pull leaves alone\<close>

text \<open>Only the file \<open>dest\<close> may differ.\<close>

definition only_file :: "string \<Rightarrow> pull \<Rightarrow> pull \<Rightarrow> bool" where
  "only_file dest st st' \<longleftrightarrow> (\<forall>p. p \<noteq> dest \<longrightarrow> file_at st' p = file_at st p)"

lemma file_at_set: "file_at (set_file p c st) q = (if q = p then c else file_at st q)"
  by (auto simp: file_at_def set_file_def update_conv' delete_conv' split: option.splits)

lemma file_at_updates [simp]:
  "file_at (st\<lparr>pl_session := s\<rparr>) = file_at st" "file_at (st\<lparr>pl_index := i\<rparr>) = file_at st"
  "file_at (st\<lparr>pl_marker := b\<rparr>) = file_at st"
  by (simp_all add: file_at_def fun_eq_iff)

lemma requests_set [simp]: "requests (set_file p c st) = requests st"
  by (simp add: requests_def set_file_def)

lemma only_file_refl [simp]: "only_file dest st st"
  by (simp add: only_file_def)

lemma only_file_trans: "only_file dest st st' \<Longrightarrow> only_file dest st' st'' \<Longrightarrow> only_file dest st st''"
  by (simp add: only_file_def)

lemma only_file_set [simp]: "only_file dest st (set_file dest c st)"
  by (simp add: only_file_def file_at_set)

lemma only_file_ask: "ask net basic url n accept st = (r, st') \<Longrightarrow> only_file dest st st'"
  by (auto simp: ask_def only_file_def split: prod.splits)

lemma only_file_pump: "pump_body net resp dest app st = (r, st') \<Longrightarrow> only_file dest st st'"
  by (auto simp: pump_body_def Let_def split: if_splits option.splits)

lemma only_file_step:
  assumes "download_step net basic url dest accept started stall st = (r, st')"
  shows "only_file dest st st'"
proof -
  obtain q st1 where a: "ask net basic url (file_len st dest) accept st = (q, st1)"
    by (cases "ask net basic url (file_len st dest) accept st")
  note o1 = only_file_ask [OF a, of dest]
  have "only_file dest st1 st'"
  proof (cases q)
    case None
    with a assms show ?thesis by (auto simp: download_step_def Let_def split: sum.splits)
  next
    case (Some resp)
    obtain b st2 where p: "pump_body net resp dest (0 < file_len st dest \<and> rs_status resp \<noteq> 200) st1 = (b, st2)"
      by (cases "pump_body net resp dest (0 < file_len st dest \<and> rs_status resp \<noteq> 200) st1")
    show ?thesis
      using assms Some a p only_file_pump [OF p]
      by (cases b) (auto simp: download_step_def Let_def split: sum.splits if_splits)
  qed
  with o1 show ?thesis by (rule only_file_trans)
qed

lemma only_file_loop:
  "download_loop fuel net basic url dest accept started stall st = Some (r, st') \<Longrightarrow> only_file dest st st'"
proof (induction fuel arbitrary: stall st)
  case (Suc fuel)
  obtain q st1 where s: "download_step net basic url dest accept started stall st = (q, st1)"
    by (cases "download_step net basic url dest accept started stall st")
  show ?case
    using Suc.prems Suc.IH s only_file_step [OF s] by (cases q) (auto intro: only_file_trans)
qed simp

lemma only_file_download:
  "download_resumable fuel net basic url dest accept st = Some (r, st') \<Longrightarrow> only_file dest st st'"
  using only_file_loop by (auto simp: download_resumable_def split: if_splits)

lemma only_file_discard: "only_file p st (discard net p st)"
  by (simp add: discard_def)

lemma verify_True: "verify_file_sha256 net p want st = Inr True \<Longrightarrow> \<exists>c. file_at st p = Some c \<and> nt_sha net c = want"
  by (auto simp: verify_file_sha256_def split: option.splits if_splits)

lemma repull_ok:
  "repull n fuel net basic url dest want st = Some (r, st') \<Longrightarrow>
   only_file dest st st' \<and> (r = Inr () \<longrightarrow> (\<exists>c. file_at st' dest = Some c \<and> nt_sha net c = want))"
proof (induction n arbitrary: st)
  case (Suc n)
  from Suc.prems obtain d st1 where d: "download_resumable fuel net basic url dest None st = Some (d, st1)"
    by (cases "download_resumable fuel net basic url dest None st") auto
  note o1 = only_file_download [OF d]
  have o2: "only_file dest st (discard net dest st1)"
    using only_file_trans [OF o1 only_file_discard] .
  show ?case
  proof (cases d)
    case (Inl e)
    with Suc.prems d o1 show ?thesis by auto
  next
    case (Inr u)
    show ?thesis
    proof (cases "verify_file_sha256 net dest want st1 = Inr False")
      case True
      with Suc.prems d Inr have "repull n fuel net basic url dest want (discard net dest st1) = Some (r, st')" by simp
      from Suc.IH [OF this] o2 only_file_trans show ?thesis by blast
    next
      case False
      with Suc.prems d Inr o1 verify_True show ?thesis by (auto split: sum.splits bool.splits)
    qed
  qed
qed auto

section \<open>Verified blobs\<close>

definition ok_blob :: "net \<Rightarrow> string \<Rightarrow> string \<Rightarrow> pull \<Rightarrow> bool" where
  "ok_blob net blobs hex st \<longleftrightarrow> (\<exists>c. file_at st (join_rs blobs hex) = Some c \<and> nt_sha net c = hex)"

text \<open>A digest whose blob is there and has it.\<close>

definition verified :: "net \<Rightarrow> string \<Rightarrow> pull \<Rightarrow> string \<Rightarrow> bool" where
  "verified net blobs st digest \<longleftrightarrow> (\<exists>hex. digest = ''sha256:'' @ hex \<and> ok_blob net blobs hex st)"

text \<open>The name of a digest in hexadecimal: one component, and not the scratch name.\<close>

definition hex_name :: "string \<Rightarrow> bool" where
  "hex_name h \<longleftrightarrow> CHR ''/'' \<notin> set h \<and> h \<noteq> ''.manifest.tmp''"

lemma join_plain_inject:
  assumes "CHR ''/'' \<notin> set h" "CHR ''/'' \<notin> set h'"
  shows "join_rs d h = join_rs d h' \<longleftrightarrow> h = h'"
proof -
  have "\<not> starts_with ''/'' x" if "CHR ''/'' \<notin> set x" for x
    using that by (cases x) (auto simp: starts_with_def)
  with assms show ?thesis by (simp add: join_rs_def)
qed

text \<open>Every verified blob keeps its content.\<close>

definition keeps_blobs :: "net \<Rightarrow> string \<Rightarrow> pull \<Rightarrow> pull \<Rightarrow> bool" where
  "keeps_blobs net blobs st st' \<longleftrightarrow>
     (\<forall>c. file_at st (join_rs blobs (nt_sha net c)) = Some c \<longrightarrow> file_at st' (join_rs blobs (nt_sha net c)) = Some c)"

lemma keeps_blobs_refl [simp]: "keeps_blobs net blobs st st"
  by (simp add: keeps_blobs_def)

lemma keeps_blobs_trans: "keeps_blobs net blobs st st' \<Longrightarrow> keeps_blobs net blobs st' st'' \<Longrightarrow> keeps_blobs net blobs st st''"
  by (simp add: keeps_blobs_def)

lemma keeps_verified: "keeps_blobs net blobs st st' \<Longrightarrow> verified net blobs st d \<Longrightarrow> verified net blobs st' d"
  unfolding verified_def ok_blob_def keeps_blobs_def by blast

lemma pull_blob_ok:
  assumes "pull_blob fuel net base repo digest blobs basic st = Some (Inr (), st')" "\<forall>b. hex_name (nt_sha net b)"
  shows "verified net blobs st' digest \<and> keeps_blobs net blobs st st'"
proof -
  from assms(1) obtain hex where "strip_prefix ''sha256:'' digest = Some hex"
    by (auto simp: pull_blob_def split: option.splits)
  then have hex: "digest = ''sha256:'' @ hex" "strip_prefix ''sha256:'' digest = Some hex"
    using strip_prefix_Some by blast+
  show ?thesis
  proof (cases "verify_file_sha256 net (join_rs blobs hex) hex st = Inr True")
    case True
    with assms(1) hex verify_True [OF True] show ?thesis by (auto simp: pull_blob_def verified_def ok_blob_def)
  next
    case False
    with assms(1) hex have v: "verify_file_sha256 net (join_rs blobs hex) hex st = Inr False"
      and r: "repull VERIFY_REPULL_ATTEMPTS fuel net basic (base @ ''/v2/'' @ repo @ ''/blobs/'' @ digest)
                 (join_rs blobs hex) hex st = Some (Inr (), st')"
      by (auto simp: pull_blob_def split: sum.splits bool.splits)
    from repull_ok [OF r] obtain c where c: "only_file (join_rs blobs hex) st st'"
      "file_at st' (join_rs blobs hex) = Some c" "nt_sha net c = hex" by auto
    have "file_at st' (join_rs blobs (nt_sha net x)) = Some x"
      if x: "file_at st (join_rs blobs (nt_sha net x)) = Some x" for x
    proof (cases "nt_sha net x = hex")
      case True
      with v x show ?thesis by (auto simp: verify_file_sha256_def split: if_splits)
    next
      case False
      moreover have "CHR ''/'' \<notin> set (nt_sha net x)" "CHR ''/'' \<notin> set hex"
        using assms(2) c(3) unfolding hex_name_def by blast+
      ultimately have "join_rs blobs (nt_sha net x) \<noteq> join_rs blobs hex" by (simp add: join_plain_inject)
      with c(1) x show ?thesis by (simp add: only_file_def)
    qed
    with c(2,3) hex(1) show ?thesis by (auto simp: verified_def ok_blob_def keeps_blobs_def)
  qed
qed

lemma pull_layers_ok:
  assumes "pull_layers fuel net base repo blobs basic ls st = Some (Inr (), st')" "\<forall>b. hex_name (nt_sha net b)"
  shows "keeps_blobs net blobs st st' \<and>
    (\<forall>l \<in> set ls. \<exists>d. as_str (j_index l ''digest'') = Some d \<and> verified net blobs st' d)"
  using assms(1)
proof (induction ls arbitrary: st)
  case (Cons l ls)
  from Cons.prems obtain d st1 where d: "as_str (j_index l ''digest'') = Some d"
    "pull_blob fuel net base repo d blobs basic st = Some (Inr (), st1)"
    "pull_layers fuel net base repo blobs basic ls st1 = Some (Inr (), st')"
    by (auto split: option.splits sum.splits)
  note one = pull_blob_ok [OF d(2) assms(2)] and rest = Cons.IH [OF d(3)]
  have "verified net blobs st' d" using one rest keeps_verified by blast
  with d(1) one rest show ?case by (auto intro: keeps_blobs_trans)
qed simp

text \<open>The documents of the image are where their digest says.\<close>

definition stored :: "net \<Rightarrow> string \<Rightarrow> pull \<Rightarrow> FetchedManifest \<Rightarrow> bool" where
  "stored net blobs st m \<longleftrightarrow>
     fm_hex m = nt_sha net (fm_bytes m) \<and> file_at st (join_rs blobs (fm_hex m)) = Some (fm_bytes m)"

lemma keeps_stored: "keeps_blobs net blobs st st' \<Longrightarrow> stored net blobs st m \<Longrightarrow> stored net blobs st' m"
  unfolding stored_def keeps_blobs_def by metis

lemma fetch_manifest_ok:
  assumes "fetch_manifest fuel net url basic expected blobs st = Some (Inr m, st')" "\<forall>b. hex_name (nt_sha net b)"
  shows "stored net blobs st' m \<and> (\<forall>d. expected = Some d \<longrightarrow> d = ''sha256:'' @ fm_hex m)"
proof -
  let ?tmp = "join_rs blobs ''.manifest.tmp''"
  from assms(1) obtain st1 bytes where m: "m = \<lparr>fm_bytes = bytes, fm_hex = nt_sha net bytes,
      fm_media_type = manifest_media_type net bytes\<rparr>"
    "persist_manifest net ?tmp (join_rs blobs (nt_sha net bytes)) bytes st1 = Some st'"
    "\<forall>d. expected = Some d \<longrightarrow> d = ''sha256:'' @ nt_sha net bytes"
    unfolding fetch_manifest_def Let_def by (auto split: option.splits sum.splits if_splits)
  have "hex_name (nt_sha net bytes)" using assms(2) by blast
  then have "join_rs blobs (nt_sha net bytes) \<noteq> ?tmp"
    by (simp add: hex_name_def join_plain_inject)
  with m show ?thesis
    by (auto simp: stored_def persist_manifest_def file_at_set split: if_splits)
qed

text \<open>What a reference that pins a digest says of the manifest.\<close>

definition pinned_to :: "net \<Rightarrow> string \<Rightarrow> u8 list \<Rightarrow> bool" where
  "pinned_to net d bytes \<longleftrightarrow>
     d = ''sha256:'' @ nt_sha net bytes \<or>
     (\<exists>doc. d = ''sha256:'' @ nt_sha net doc \<and>
        maybe_select_index_child net doc = Inr (Some (''sha256:'' @ nt_sha net bytes)))"

lemma image_manifest_ok:
  assumes "image_manifest fuel net base p blobs basic st = Some (Inr m, st')" "\<forall>b. hex_name (nt_sha net b)"
  shows "stored net blobs st' m \<and> (pr_is_digest p \<longrightarrow> pinned_to net (pr_reference p) (fm_bytes m))"
proof -
  from assms(1) obtain doc st1 where doc:
    "fetch_manifest fuel net (manifest_url base p (pr_reference p)) basic (expected_digest p) blobs st = Some (Inr doc, st1)"
    unfolding image_manifest_def by (auto split: option.splits sum.splits)
  note ok = fetch_manifest_ok [OF doc assms(2)]
  note rest = assms(1) [unfolded image_manifest_def doc option.case prod.case sum.case]
  show ?thesis
  proof (cases "maybe_select_index_child net (fm_bytes doc)")
    case (Inl e)
    with rest show ?thesis by simp
  next
    case (Inr child)
    show ?thesis
    proof (cases child)
      case None
      with rest Inr ok show ?thesis by (auto simp: expected_digest_def pinned_to_def stored_def)
    next
      case (Some c)
      with rest Inr have f: "fetch_manifest fuel net (manifest_url base p c) basic (Some c) blobs st1 = Some (Inr m, st')" by simp
      from fetch_manifest_ok [OF this assms(2)] ok Inr Some show ?thesis
        by (auto simp: expected_digest_def pinned_to_def stored_def)
    qed
  qed
qed

text \<open>C16: what a pull leaves behind is verified. When a pull succeeds, the index of the layout names one
  manifest by the SHA-256 of its bytes and their number, that file is in the layout, and so are the
  configuration and every layer it names, each with the digest it is named by; a reference that pins a
  digest pins this manifest, directly or as the child that a verified index names for the host. This holds
  whatever the registry answers and however often transfers break.\<close>

theorem pulled_layout_is_verified:
  assumes "pull_image fuel net reff dir basic st = Some (Inr (), st')" "\<forall>b. hex_name (nt_sha net b)"
  shows "\<exists>media bytes man config p. parse_ref reff = Some p \<and>
    pl_index st' = Some (media, ''sha256:'' @ nt_sha net bytes, length bytes) \<and>
    file_at st' (join_rs (blobs_dir dir) (nt_sha net bytes)) = Some bytes \<and> nt_json net bytes = Some man \<and>
    as_str (j_index (j_index man ''config'') ''digest'') = Some config \<and> verified net (blobs_dir dir) st' config \<and>
    (\<forall>l \<in> set (layers_of man). \<exists>d. as_str (j_index l ''digest'') = Some d \<and> verified net (blobs_dir dir) st' d) \<and>
    (pr_is_digest p \<longrightarrow> pinned_to net (pr_reference p) bytes)"
proof -
  from assms(1) obtain p m st1 where p: "parse_ref reff = Some p"
    and m: "image_manifest fuel net (''http://'' @ pr_host p) p (blobs_dir dir) basic (st\<lparr>pl_session := new_session\<rparr>)
      = Some (Inr m, st1)"
    and c: "pull_contents fuel net (''http://'' @ pr_host p) p dir basic m st1 = Some (Inr (), st')"
    unfolding pull_image_def Let_def by (auto split: option.splits sum.splits if_splits)
  from c obtain man config st2 st3 where man: "nt_json net (fm_bytes m) = Some man"
    "as_str (j_index (j_index man ''config'') ''digest'') = Some config"
    and b: "pull_blob fuel net (''http://'' @ pr_host p) (pr_repo p) config (blobs_dir dir) basic st1 = Some (Inr (), st2)"
    and l: "pull_layers fuel net (''http://'' @ pr_host p) (pr_repo p) (blobs_dir dir) basic (layers_of man) st2 = Some (Inr (), st3)"
    and w: "write_layout net dir m st3 = (Inr (), st')"
    unfolding pull_contents_def by (auto split: option.splits sum.splits)
  note im = image_manifest_ok [OF m assms(2)] and bo = pull_blob_ok [OF b assms(2)] and lo = pull_layers_ok [OF l assms(2)]
  have same: "file_at st' = file_at st3"
    and idx: "pl_index st' = Some (fm_media_type m, ''sha256:'' @ fm_hex m, length (fm_bytes m))"
    using w by (auto simp: write_layout_def Let_def split: if_splits)
  have ver: "verified net (blobs_dir dir) st' d = verified net (blobs_dir dir) st3 d" for d
    by (simp add: verified_def ok_blob_def same)
  have "stored net (blobs_dir dir) st3 m" using im bo lo keeps_stored by blast
  moreover have "verified net (blobs_dir dir) st3 config" using bo lo keeps_verified by blast
  ultimately show ?thesis
    using p man idx lo im unfolding ver same stored_def by auto
qed

section \<open>Transfers that break\<close>

text \<open>A registry that answers the requests for one URL truthfully, from the asked offset on: it may fail,
  be busy, or break at any byte.\<close>

definition honest :: "net \<Rightarrow> string \<Rightarrow> u8 list \<Rightarrow> bool" where
  "honest net url c \<longleftrightarrow>
     (\<forall>n rq r. rq_url rq = url \<longrightarrow> nt_transport net n rq = Some r \<longrightarrow>
        is_transient_status (rs_status r) \<or>
        rs_status r = 416 \<and> (\<exists>k. rq_range rq = Some k \<and> length c \<le> k) \<or>
        rs_status r = (if rq_range rq = None then 200 else 206) \<and>
          prefix (concat (rs_chunks r)) (drop (case rq_range rq of Some k \<Rightarrow> k | None \<Rightarrow> 0) c) \<and>
          (rs_clean r \<longrightarrow> concat (rs_chunks r) = drop (case rq_range rq of Some k \<Rightarrow> k | None \<Rightarrow> 0) c))"

definition local_writes_ok :: "net \<Rightarrow> bool" where
  "local_writes_ok net \<longleftrightarrow> (\<forall>n. nt_open net n \<and> nt_wrote net n = None) \<and> (\<forall>p. nt_io net ''mkdir'' p)"

text \<open>The \<open>n\<close>-th request brings something: it ends the body, or at least one byte.\<close>

definition brings :: "net \<Rightarrow> nat \<Rightarrow> bool" where
  "brings net n \<longleftrightarrow> (\<forall>rq. \<exists>r. nt_transport net n rq = Some r \<and> \<not> is_transient_status (rs_status r) \<and>
     (rs_status r = 416 \<or> rs_clean r \<or> concat (rs_chunks r) \<noteq> []))"

definition so_far :: "pull \<Rightarrow> string \<Rightarrow> u8 list" where
  "so_far st p = (case file_at st p of Some c \<Rightarrow> c | None \<Rightarrow> [])"

lemma file_len_so_far: "file_len st p = length (so_far st p)"
  by (simp add: file_len_def so_far_def split: option.splits)

lemma honest_ask:
  assumes "honest net url c"
  shows "\<exists>rq s. rq_url rq = url \<and> rq_range rq = (if 0 < n then Some n else None) \<and>
    ask net basic url n accept st = (nt_transport net (requests st) rq, st\<lparr>pl_session := s\<rparr>) \<and>
    length (ss_log s) = Suc (requests st)"
proof -
  define rq where "rq = \<lparr>rq_url = url, rq_range = (if 0 < n then Some n else None), rq_accept = accept,
    rq_auth = (case ss_newest (pl_session st) of Some token \<Rightarrow> Some (bearer_header token) | None \<Rightarrow> map_option basic_header basic)\<rparr>"
  have "rq_url rq = url" by (simp add: rq_def)
  then have "rs_status r \<noteq> 401" if "nt_transport net (requests st) rq = Some r" for r
    using assms [unfolded honest_def, rule_format, OF _ that] by (auto simp: is_transient_status_def split: if_splits)
  then have "ask net basic url n accept st =
      (nt_transport net (requests st) rq, st\<lparr>pl_session := snd (issue (nt_transport net) rq (pl_session st))\<rparr>)"
    unfolding ask_def get_authed_def Let_def rq_def [symmetric] by (auto simp: issue_def requests_def split: option.splits)
  then show ?thesis
    by (intro exI [of _ rq] exI [of _ "snd (issue (nt_transport net) rq (pl_session st))"])
      (simp add: rq_def issue_def requests_def)
qed

text \<open>One turn against an honest registry: the file is complete, or longer, or as it was after a request
  that brought nothing.\<close>

lemma honest_step:
  assumes "honest net url c" "local_writes_ok net" "prefix (so_far st dest) c"
    and "\<forall>n. nt_clock net n - started < BLOB_DEADLINE"
    and "stall + 1 < MAX_STALL_RETRIES \<or> brings net (requests st)"
  shows "\<exists>r st'. download_step net basic url dest accept started stall st = (r, st') \<and>
    requests st' = Suc (requests st) \<and>
    (r = Inl (Inr ()) \<and> file_at st' dest = Some c \<or>
     prefix (so_far st' dest) c \<and>
      (r = Inr 0 \<and> file_len st dest < file_len st' dest \<or>
       r = Inr (stall + 1) \<and> file_len st' dest = file_len st dest \<and> \<not> brings net (requests st)))"
proof -
  let ?n = "file_len st dest"
  obtain rq s where rq: "rq_url rq = url" "rq_range rq = (if 0 < ?n then Some ?n else None)"
    and a: "ask net basic url ?n accept st = (nt_transport net (requests st) rq, st\<lparr>pl_session := s\<rparr>)"
    and n: "length (ss_log s) = Suc (requests st)"
    using honest_ask [OF assms(1)] by blast
  define st1 where "st1 = st\<lparr>pl_session := s\<rparr>"
  have st1: "requests st1 = Suc (requests st)" "file_at st1 = file_at st" "so_far st1 dest = so_far st dest" "file_len st1 dest = ?n"
    by (simp_all add: st1_def requests_def n so_far_def file_len_def)
  have w: "nt_open net k" "nt_wrote net k = None" for k using assms(2) by (simp_all add: local_writes_ok_def)
  have bump: "bump_stall net stall started x = Inr (stall + 1)" if "\<not> brings net (requests st)" for x
    using that assms(4,5) by (auto simp: bump_stall_def not_le)
  obtain rest where c: "c = so_far st dest @ rest" using assms(3) by (auto simp: prefix_def)
  have len: "?n = length (so_far st dest)" by (rule file_len_so_far)
  have off: "drop (case rq_range rq of Some k \<Rightarrow> k | None \<Rightarrow> 0) c = rest"
    using rq(2) by (auto simp: c len)
  show ?thesis
  proof (cases "nt_transport net (requests st) rq")
    case None
    then have "\<not> brings net (requests st)" unfolding brings_def by (metis option.distinct(1))
    with None a bump assms(3) st1 show ?thesis
      by (simp add: download_step_def Let_def st1_def [symmetric])
  next
    case (Some r)
    have h: "is_transient_status (rs_status r) \<or>
        rs_status r = 416 \<and> (\<exists>k. rq_range rq = Some k \<and> length c \<le> k) \<or>
        rs_status r = (if rq_range rq = None then 200 else 206) \<and> prefix (concat (rs_chunks r)) rest \<and>
          (rs_clean r \<longrightarrow> concat (rs_chunks r) = rest)"
      using assms(1) rq(1) Some off unfolding honest_def by fastforce
    note step = download_step_def Let_def a Some st1_def [symmetric]
    consider "is_transient_status (rs_status r)" | "rs_status r = 416" "length c \<le> ?n" "0 < ?n"
      | "rs_status r = (if ?n = 0 then 200 else 206)" "prefix (concat (rs_chunks r)) rest"
        "rs_clean r \<longrightarrow> concat (rs_chunks r) = rest"
      using h rq(2) by (auto split: if_splits)
    then show ?thesis
    proof cases
      case 1
      moreover have "\<not> brings net (requests st)" unfolding brings_def using 1 Some by (metis option.inject)
      moreover have "rs_status r \<noteq> 200" "rs_status r \<noteq> 206" "rs_status r \<noteq> 416"
        using 1 by (auto simp: is_transient_status_def)
      ultimately show ?thesis using bump assms(3) st1 by (simp add: step)
    next
      case 2
      then have "so_far st dest = c" using len by (simp add: c)
      with 2(3) len have "file_at st dest = Some c" by (auto simp: so_far_def split: option.splits)
      with 2 st1 show ?thesis by (simp add: step)
    next
      case 3
      let ?st2 = "set_file dest (Some (so_far st dest @ concat (rs_chunks r))) st1"
      have p: "pump_body net r dest (0 < ?n \<and> rs_status r \<noteq> 200) st1 = (rs_clean r, ?st2)"
        using 3(1) w len st1 by (auto simp: pump_body_def so_far_def)
      have st2: "file_at ?st2 dest = Some (so_far st dest @ concat (rs_chunks r))"
        "file_len ?st2 dest = ?n + length (concat (rs_chunks r))" "requests ?st2 = Suc (requests st)"
        "so_far ?st2 dest = so_far st dest @ concat (rs_chunks r)"
        by (simp_all add: file_at_set file_len_def so_far_def len st1 split: option.splits)
      have pre: "prefix (so_far ?st2 dest) c" using 3(2) by (simp add: st2 c)
      have ok: "rs_status r = 200 \<or> rs_status r = 206" "(if 0 < ?n \<and> rs_status r \<noteq> 200 then ?n else 0) = ?n"
        using 3(1) by (auto split: if_splits)
      have body: "download_step net basic url dest accept started stall st =
          (case (rs_clean r, ?st2) of
             (True, st2) \<Rightarrow> (Inl (Inr ()), st2)
           | (False, st2) \<Rightarrow> if ?n < file_len st2 dest then (Inr 0, st2)
               else (case bump_stall net stall started st2 of Inl e \<Rightarrow> (Inl (Inl e), st2) | Inr s \<Rightarrow> (Inr s, st2)))"
        using ok(1) by (simp only: step option.case prod.case p ok(2) if_True)
      show ?thesis
      proof (cases "rs_clean r")
        case True
        with body 3(3) st2 show ?thesis by (simp add: c)
      next
        case False
        show ?thesis
        proof (cases "concat (rs_chunks r) = []")
          case True
          have "rs_status r \<noteq> 416" using ok(1) by auto
          with True False Some have "\<not> brings net (requests st)" unfolding brings_def by (metis option.inject)
          with True False body bump st2 pre show ?thesis by simp
        next
          case ne: False
          with False body st2 pre show ?thesis by simp
        qed
      qed
    qed
  qed
qed

lemma honest_loop:
  assumes "honest net url c" "local_writes_ok net" "\<forall>n. nt_clock net n - started < BLOB_DEADLINE"
    and often: "\<forall>i. \<exists>j. i \<le> j \<and> j < i + MAX_STALL_RETRIES \<and> brings net j"
  shows "prefix (so_far st dest) c \<Longrightarrow> requests st \<le> j \<Longrightarrow> j + stall < requests st + MAX_STALL_RETRIES \<Longrightarrow>
    brings net j \<Longrightarrow>
    \<exists>fuel st'. download_loop fuel net basic url dest accept started stall st = Some (Inr (), st') \<and> file_at st' dest = Some c"
proof (induction "(length c - file_len st dest) * 41 + (j - requests st)" arbitrary: st stall j rule: less_induct)
  case less
  have "stall + 1 < MAX_STALL_RETRIES \<or> brings net (requests st)"
    using less.prems by (cases "j = requests st") auto
  then obtain r st' where st': "download_step net basic url dest accept started stall st = (r, st')"
    "requests st' = Suc (requests st)"
    and cases: "r = Inl (Inr ()) \<and> file_at st' dest = Some c \<or>
     prefix (so_far st' dest) c \<and>
      (r = Inr 0 \<and> file_len st dest < file_len st' dest \<or>
       r = Inr (stall + 1) \<and> file_len st' dest = file_len st dest \<and> \<not> brings net (requests st))"
    using honest_step [OF assms(1,2) less.prems(1) assms(3)] by blast
  have fuel: "\<exists>fuel st''. download_loop fuel net basic url dest accept started stall st = Some (Inr (), st'') \<and> file_at st'' dest = Some c"
    if "r = Inr s" "\<exists>fuel st''. download_loop fuel net basic url dest accept started s st' = Some (Inr (), st'') \<and> file_at st'' dest = Some c" for s
  proof -
    from that(2) obtain fuel st'' where "download_loop fuel net basic url dest accept started s st' = Some (Inr (), st'')"
      "file_at st'' dest = Some c" by blast
    then show ?thesis using st'(1) that(1) by (intro exI [of _ "Suc fuel"] exI [of _ st'']) simp
  qed
  consider "r = Inl (Inr ())" "file_at st' dest = Some c"
    | "r = Inr 0" "prefix (so_far st' dest) c" "file_len st dest < file_len st' dest"
    | "r = Inr (stall + 1)" "prefix (so_far st' dest) c" "file_len st' dest = file_len st dest" "\<not> brings net (requests st)"
    using cases by blast
  then show ?case
  proof cases
    case 1
    with st'(1) show ?thesis by (intro exI [of _ "Suc 0"] exI [of _ st']) simp
  next
    case 2
    obtain j' where j': "requests st' \<le> j'" "j' < requests st' + MAX_STALL_RETRIES" "brings net j'" using often by blast
    have "file_len st' dest \<le> length c" using 2(2) by (simp add: file_len_so_far prefix_length_le)
    then have "length c - file_len st' dest < length c - file_len st dest" using 2(3) by simp
    then have "Suc (length c - file_len st' dest) * 41 \<le> (length c - file_len st dest) * 41" by simp
    moreover have "j' - requests st' < 41" using j'(1,2) by (simp add: MAX_STALL_RETRIES_def)
    ultimately have "(length c - file_len st' dest) * 41 + (j' - requests st') < (length c - file_len st dest) * 41 + (j - requests st)"
      by simp
    from less.hyps [OF this 2(2) j'(1) _ j'(3), of 0] j'(2) show ?thesis by (intro fuel [OF 2(1)]) simp
  next
    case 3
    have "j \<noteq> requests st" using 3(4) less.prems(4) by auto
    then have j: "requests st' \<le> j" "j - requests st' < j - requests st" using less.prems(2) st'(2) by auto
    then have "(length c - file_len st' dest) * 41 + (j - requests st') < (length c - file_len st dest) * 41 + (j - requests st)"
      using 3(3) by simp
    from less.hyps [OF this 3(2) j(1) _ less.prems(4), of "stall + 1"] less.prems(3) st'(2)
    show ?thesis by (intro fuel [OF 3(1)]) simp
  qed
qed

text \<open>C17: transfers that break converge. Against a registry that answers truthfully from the asked offset
  but may fail, be busy or break at any byte, a download ends and the file holds exactly the blob, provided
  one request in any forty in a row brings at least a byte (or the end), the deadline is not passed and local
  writes succeed. The file may start as any prefix of the blob that an earlier run left.\<close>

theorem broken_transfers_converge:
  assumes "honest net url c" "local_writes_ok net" "prefix (so_far st dest) c"
    and "\<forall>n. nt_clock net n < nt_clock net (requests st) + BLOB_DEADLINE"
    and "\<forall>i. \<exists>j. i \<le> j \<and> j < i + MAX_STALL_RETRIES \<and> brings net j"
  shows "\<exists>fuel st'. download_resumable fuel net basic url dest accept st = Some (Inr (), st') \<and> file_at st' dest = Some c"
proof -
  obtain j where j: "requests st \<le> j" "j < requests st + MAX_STALL_RETRIES" "brings net j" using assms(5) by blast
  have "nt_clock net n - nt_clock net (requests st) < BLOB_DEADLINE" for n
    using spec [OF assms(4), of n] by (simp add: BLOB_DEADLINE_def)
  then have "\<forall>n. nt_clock net n - nt_clock net (requests st) < BLOB_DEADLINE" by blast
  from honest_loop [OF assms(1,2) this assms(5,3) j(1) _ j(3), of 0] j(2) assms(2)
  show ?thesis by (simp add: download_resumable_def local_writes_ok_def)
qed

end
