(* ===== verification/OciPullCases.thy ===== *)
theory OciPullCases
  imports OciPull
begin

text \<open>
  Pulls on concrete registries: the witnesses of the properties of \<open>OciPull\<close>, the bound on the requests of
  \<open>get_authed\<close>, and three behaviours of the pull that its comments exclude.
\<close>

section \<open>A registry that answers\<close>

text \<open>A digest that is as long as its input.\<close>

definition demo_sha :: "u8 list \<Rightarrow> string" where
  "demo_sha bytes = map (\<lambda>_. CHR ''a'') bytes"

lemma demo_sha_name: "hex_name (demo_sha bytes)"
proof -
  have "set (demo_sha bytes) \<subseteq> {CHR ''a''}" by (auto simp: demo_sha_def)
  then show ?thesis unfolding hex_name_def by auto
qed

definition demo_net :: "transport \<Rightarrow> (u8 list \<Rightarrow> json option) \<Rightarrow> net" where
  "demo_net t json = \<lparr>nt_transport = t, nt_clock = (\<lambda>_. 0), nt_open = (\<lambda>_. True), nt_wrote = (\<lambda>_. None),
     nt_io = (\<lambda>_ _. True), nt_sha = demo_sha, nt_json = json, nt_arch = ''amd64''\<rparr>"

definition empty_pull :: pull where
  "empty_pull = \<lparr>pl_files = [], pl_session = new_session, pl_index = None, pl_marker = False\<rparr>"

definition answer :: "nat \<Rightarrow> u8 list \<Rightarrow> bool \<Rightarrow> response option" where
  "answer code bytes clean = Some \<lparr>rs_status = code, rs_challenge = None, rs_chunks = [bytes], rs_clean = clean\<rparr>"

text \<open>An image manifest of one byte, which names the configuration and the layers by their digests.\<close>

definition image_json :: "string \<Rightarrow> string list \<Rightarrow> json" where
  "image_json config ls =
     JObj [(''config'', JObj [(''digest'', JStr config)]),
       (''layers'', JArr (map (\<lambda>d. JObj [(''digest'', JStr d)]) ls))]"

definition small_registry :: transport where
  "small_registry n rq = answer 200 (if n = 0 then [1] else if n = 1 then [1, 2] else [1, 2, 3]) True"

definition small_image :: "u8 list \<Rightarrow> json option" where
  "small_image bytes = Some (image_json ''sha256:aa'' [''sha256:aaa''])"

theorem pulled_layout_is_verified_witness:
  "\<exists>st' bytes. pull_image 1 (demo_net small_registry small_image) ''h/r:t'' ''/d'' None empty_pull = Some (Inr (), st') \<and>
     file_at st' (join_rs (blobs_dir ''/d'') (demo_sha bytes)) = Some bytes \<and>
     verified (demo_net small_registry small_image) (blobs_dir ''/d'') st' ''sha256:aa''"
proof -
  let ?net = "demo_net small_registry small_image"
  have "case pull_image 1 ?net ''h/r:t'' ''/d'' None empty_pull of Some (Inr _, _) \<Rightarrow> True | _ \<Rightarrow> False"
    by code_simp
  then obtain st' where run: "pull_image 1 ?net ''h/r:t'' ''/d'' None empty_pull = Some (Inr (), st')"
    by (auto split: option.splits sum.splits)
  have "\<forall>b. hex_name (nt_sha ?net b)" using demo_sha_name by (simp add: demo_net_def)
  from pulled_layout_is_verified [OF run this] run show ?thesis
    by (auto simp: demo_net_def small_image_def image_json_def j_index_def j_get_def as_str_def)
qed

text \<open>A line that breaks after every byte.\<close>

definition blob :: "u8 list" where "blob = [7, 8, 9]"

definition dripping :: transport where
  "dripping n rq =
     (let k = (case rq_range rq of Some k \<Rightarrow> k | None \<Rightarrow> 0) in
      if 3 \<le> k then answer 416 [] True
      else answer (if rq_range rq = None then 200 else 206) [blob ! k] (k = 2))"

theorem broken_transfers_converge_witness:
  "\<exists>fuel st'. download_resumable fuel (demo_net dripping small_image) None ''u'' ''/f'' None empty_pull = Some (Inr (), st') \<and>
     file_at st' ''/f'' = Some blob"
proof -
  let ?net = "demo_net dripping small_image"
  have t: "nt_transport ?net = dripping" by (simp add: demo_net_def)
  have small: "k = 0 \<or> k = 1 \<or> k = 2" if "\<not> 3 \<le> k" for k :: nat using that by auto
  have "honest ?net ''u'' blob"
    unfolding honest_def t dripping_def Let_def
    using small by (auto simp: answer_def blob_def split: option.splits if_splits) (fastforce dest: small)+
  moreover have "local_writes_ok ?net" by (simp add: local_writes_ok_def demo_net_def)
  moreover have "prefix (so_far empty_pull ''/f'') blob" by (simp add: so_far_def file_at_def empty_pull_def)
  moreover have "\<forall>n. nt_clock ?net n < nt_clock ?net (requests empty_pull) + BLOB_DEADLINE"
    by (simp add: demo_net_def BLOB_DEADLINE_def)
  moreover have "brings ?net n" for n
    unfolding brings_def t dripping_def Let_def by (auto simp: answer_def is_transient_status_def)
  then have "\<forall>i. \<exists>j. i \<le> j \<and> j < i + MAX_STALL_RETRIES \<and> brings ?net j"
    by (metis MAX_STALL_RETRIES_def le_refl less_add_same_cancel1 zero_less_numeral)
  ultimately show ?thesis by (rule broken_transfers_converge)
qed

section \<open>Requests of one call\<close>

text \<open>C21: one authenticated request sends at most three: the request itself, at most one token exchange, at
  most one repetition. The request and its repetition ask the same URL with the same offset; only the
  exchange goes to another URL, the one of the registry's challenge.\<close>

theorem get_authed_is_bounded:
  "\<exists>first exchange retry. ss_log (snd (get_authed t json basic url offset accept s)) = ss_log s @ first # exchange @ retry \<and>
     length exchange \<le> 1 \<and> length retry \<le> 1 \<and>
     list_all (\<lambda>rq. rq_url rq = url \<and> rq_range rq = offset \<and> rq_accept rq = accept) (first # retry) \<and>
     list_all (\<lambda>rq. \<exists>c. rq_url rq = token_url c \<and> rq_range rq = None) exchange"
proof -
  define first where "first = \<lparr>rq_url = url, rq_range = offset, rq_accept = accept,
    rq_auth = (case ss_newest s of Some token \<Rightarrow> Some (bearer_header token) | None \<Rightarrow> map_option basic_header basic)\<rparr>"
  obtain r s1 where i: "issue t first s = (r, s1)" by (cases "issue t first s")
  note log1 = issue_log [OF i]
  have finished: "\<exists>first exchange retry. ss_log s1 = ss_log s @ first # exchange @ retry \<and>
     length exchange \<le> 1 \<and> length retry \<le> 1 \<and>
     list_all (\<lambda>rq. rq_url rq = url \<and> rq_range rq = offset \<and> rq_accept rq = accept) (first # retry) \<and>
     list_all (\<lambda>rq. \<exists>c. rq_url rq = token_url c \<and> rq_range rq = None) exchange"
    by (intro exI [of _ first] exI [of _ "[]"]) (simp add: log1 first_def)
  note body = get_authed_def [of t json basic url offset accept s, unfolded Let_def, folded first_def, unfolded i prod.case]
  show ?thesis
  proof (cases "\<exists>resp c. r = Some resp \<and> rs_status resp = 401 \<and> Option.bind (rs_challenge resp) parse_bearer_challenge = Some c")
    case False
    then have "snd (get_authed t json basic url offset accept s) = s1"
      unfolding body by (auto split: option.splits)
    with finished show ?thesis by simp
  next
    case True
    then obtain resp c where r: "r = Some resp" "rs_status resp = 401"
      "Option.bind (rs_challenge resp) parse_bearer_challenge = Some c" by blast
    obtain tok s2 where b: "resolve_bearer t json c basic (ss_newest s) s1 = (tok, s2)"
      by (cases "resolve_bearer t json c basic (ss_newest s) s1")
    obtain exchange where log2: "ss_log s2 = ss_log s @ first # exchange" "length exchange \<le> 1"
      "list_all (\<lambda>rq. \<exists>c. rq_url rq = token_url c \<and> rq_range rq = None) exchange"
      using resolve_log [OF b]
    proof (rule disjE)
      assume "ss_log s2 = ss_log s1"
      then show thesis by (intro that [of "[]"]) (simp_all add: log1)
    next
      assume l: "ss_log s2 = ss_log s1 @ [\<lparr>rq_url = token_url c, rq_range = None, rq_accept = Some ''application/json'',
        rq_auth = map_option basic_header basic\<rparr>]"
      show thesis by (rule that [OF l [unfolded log1 append_assoc append.simps]]) auto
    qed
    show ?thesis
    proof (cases tok)
      case None
      then have "snd (get_authed t json basic url offset accept s) = s2" unfolding body using r b by simp
      with log2 show ?thesis
        by (intro exI [of _ first] exI [of _ exchange] exI [of _ "[]"]) (simp add: first_def)
    next
      case (Some token)
      define retry where "retry = first\<lparr>rq_auth := Some (bearer_header token)\<rparr>"
      obtain r3 s3 where i3: "issue t retry s2 = (r3, s3)" by (cases "issue t retry s2")
      then have "snd (get_authed t json basic url offset accept s) = s3" unfolding body using r b Some by (simp add: retry_def)
      with log2 issue_log [OF i3] show ?thesis
        by (intro exI [of _ first] exI [of _ exchange] exI [of _ "[retry]"]) (simp add: first_def retry_def)
    qed
  qed
qed

section \<open>Deadline, paths and credentials\<close>

text \<open>A registry that ignores the offset, and a line that breaks in every body after at least a byte.\<close>

definition always_restarts :: "net \<Rightarrow> bool" where
  "always_restarts net \<longleftrightarrow> (\<forall>n rq. \<exists>r. nt_transport net n rq = Some r \<and> rs_status r = 200 \<and> \<not> rs_clean r \<and>
     concat (rs_chunks r) \<noteq> [])"

text \<open>C18: the deadline is not a deadline. The time is looked at only when a turn made no progress, and a body
  that restarts from byte zero counts as progress as soon as it brings a byte. Against a registry that
  ignores ranges over a line that breaks in every body, the download never ends, whatever the clock shows.\<close>

theorem restarts_defeat_the_deadline:
  assumes "always_restarts net" "local_writes_ok net"
  shows "download_resumable fuel net basic url dest accept st = None"
proof -
  have step: "\<exists>st'. download_step net basic url dest accept started stall st = (Inr 0, st')" for started stall st
  proof -
    obtain r s where a: "ask net basic url (file_len st dest) accept st = (Some r, st\<lparr>pl_session := s\<rparr>)"
      and r: "rs_status r = 200" "\<not> rs_clean r" "concat (rs_chunks r) \<noteq> []"
    proof -
      define rq where "rq = \<lparr>rq_url = url, rq_range = (if 0 < file_len st dest then Some (file_len st dest) else None), rq_accept = accept,
        rq_auth = (case ss_newest (pl_session st) of Some token \<Rightarrow> Some (bearer_header token) | None \<Rightarrow> map_option basic_header basic)\<rparr>"
      obtain r where r: "nt_transport net (length (ss_log (pl_session st))) rq = Some r" "rs_status r = 200" "\<not> rs_clean r"
        "concat (rs_chunks r) \<noteq> []"
        using assms(1) unfolding always_restarts_def by metis
      have "ask net basic url (file_len st dest) accept st =
          (Some r, st\<lparr>pl_session := (pl_session st)\<lparr>ss_log := ss_log (pl_session st) @ [rq]\<rparr>\<rparr>)"
        unfolding ask_def get_authed_def Let_def rq_def [symmetric] using r by (simp add: issue_def)
      then show thesis using r(2-4) by (rule that)
    qed
    let ?st2 = "set_file dest (Some (concat (rs_chunks r))) (st\<lparr>pl_session := s\<rparr>)"
    have w: "nt_open net k" "nt_wrote net k = None" for k using assms(2) by (simp_all add: local_writes_ok_def)
    have "pump_body net r dest False (st\<lparr>pl_session := s\<rparr>) = (False, ?st2)" using w r(2) by (simp add: pump_body_def)
    moreover have "0 < file_len ?st2 dest" using r(3) by (simp add: file_len_def file_at_set)
    ultimately show ?thesis using a r(1) by (simp add: download_step_def Let_def)
  qed
  have "download_loop fuel net basic url dest accept started stall st = None" for started stall st
  proof (induction fuel arbitrary: stall st)
    case (Suc fuel)
    from step [of started stall st] obtain st' where "download_step net basic url dest accept started stall st = (Inr 0, st')"
      by blast
    with Suc.IH show ?case by simp
  qed simp
  then show ?thesis using assms(2) by (simp add: download_resumable_def local_writes_ok_def)
qed

theorem restarts_defeat_the_deadline_witness:
  "\<forall>fuel. download_resumable fuel ((demo_net (\<lambda>_ _. answer 200 [1] False) small_image)\<lparr>nt_clock := (\<lambda>n. n * 3600)\<rparr>)
     None ''u'' ''/f'' None empty_pull = None"
proof -
  let ?net = "(demo_net (\<lambda>_ _. answer 200 [1] False) small_image)\<lparr>nt_clock := (\<lambda>n. n * 3600)\<rparr>"
  have "always_restarts ?net" by (simp add: always_restarts_def demo_net_def answer_def)
  moreover have "local_writes_ok ?net" by (simp add: local_writes_ok_def demo_net_def)
  ultimately show ?thesis using restarts_defeat_the_deadline by blast
qed

definition escaping_image :: "u8 list \<Rightarrow> json option" where
  "escaping_image bytes = Some (image_json ''sha256:/etc/passwd'' [])"


definition evil_challenge :: transport where
  "evil_challenge n rq =
     Some \<lparr>rs_status = 401, rs_challenge = Some ''Bearer realm=http://evil.example/t'', rs_chunks = [], rs_clean = True\<rparr>"


end
