(* ===== verification/MicroVm.thy ===== *)
theory MicroVm
  imports Teardown OciAuth
begin

text \<open>
  One micro virtual machine of an app: booting it cold, restoring it from a snapshot, refreshing the
  snapshot with the credentials taken out and put back, shutting it down and dropping it
  (\<open>src/src/firecracker/linux.rs\<close>, with the request bodies of \<open>protocol.rs\<close>, the readiness polls of
  \<open>port_plan.rs\<close> and the credential protocol of \<open>cred_restore.rs\<close>). The state is the host of
  \<open>Process\<close> with what Firecracker adds to it; the answers of Firecracker, of the guest and of the broker
  inside it, and the failures of local commands, are an environment. Addresses are numbers, the NAT rules
  are left out.
\<close>

section \<open>The requests of the Firecracker API\<close>

definition machine_config_body :: "u32 \<Rightarrow> u32 \<Rightarrow> json" where
  "machine_config_body n_vcpus mem_size_mib =
     JObj [(''vcpu_count'', JNum (uint n_vcpus)), (''mem_size_mib'', JNum (uint mem_size_mib)),
           (''smt'', JBool False)]"

definition boot_source_body :: "string \<Rightarrow> string \<Rightarrow> string \<Rightarrow> json" where
  "boot_source_body kernel_image_path guest_ip host_ip =
     JObj [(''kernel_image_path'', JStr kernel_image_path),
           (''boot_args'', JStr (''console=ttyS0 reboot=k panic=1 pci=off root=/dev/vda rw init=/init ip='' @
              guest_ip @ ''::'' @ host_ip @ '':255.255.255.252::eth0:off''))]"

definition rootfs_drive_body :: "string \<Rightarrow> bool \<Rightarrow> json" where
  "rootfs_drive_body path_on_host read_only =
     JObj [(''drive_id'', JStr ''rootfs''), (''path_on_host'', JStr path_on_host),
           (''is_root_device'', JBool True), (''is_read_only'', JBool read_only)]"

definition aux_drive_body :: "string \<Rightarrow> string \<Rightarrow> bool \<Rightarrow> json" where
  "aux_drive_body drive_id path_on_host read_only =
     JObj [(''drive_id'', JStr drive_id), (''path_on_host'', JStr path_on_host),
           (''is_root_device'', JBool False), (''is_read_only'', JBool read_only)]"

definition network_iface_body :: "string \<Rightarrow> string \<Rightarrow> json" where
  "network_iface_body host_dev_name guest_mac =
     JObj [(''iface_id'', JStr ''eth0''), (''host_dev_name'', JStr host_dev_name),
           (''guest_mac'', JStr guest_mac)]"

definition instance_start_body :: json where
  "instance_start_body = JObj [(''action_type'', JStr ''InstanceStart'')]"

definition pause_body :: json where "pause_body = JObj [(''state'', JStr ''Paused'')]"
definition resume_body :: json where "resume_body = JObj [(''state'', JStr ''Resumed'')]"

definition snapshot_create_body :: "string \<Rightarrow> string \<Rightarrow> json" where
  "snapshot_create_body snapshot_path mem_file_path =
     JObj [(''snapshot_type'', JStr ''Full''), (''snapshot_path'', JStr snapshot_path),
           (''mem_file_path'', JStr mem_file_path)]"

definition snapshot_load_body :: "string \<Rightarrow> string \<Rightarrow> bool \<Rightarrow> json" where
  "snapshot_load_body snapshot_path mem_file_path resume =
     JObj [(''snapshot_path'', JStr snapshot_path),
           (''mem_backend'', JObj [(''backend_path'', JStr mem_file_path), (''backend_type'', JStr ''File'')]),
           (''resume_vm'', JBool resume)]"

definition hex_byte :: "nat \<Rightarrow> string" where
  "hex_byte n = [hex_upper (n div 16), hex_upper (n mod 16)]"

definition derive_guest_mac :: "u32 \<Rightarrow> string" where
  "derive_guest_mac seq =
     (let n = unat seq
      in ''02:FC:'' @ hex_byte (n mod 256) @ '':'' @ hex_byte (n div 256 mod 256) @ '':'' @
         hex_byte (n div 65536 mod 256) @ '':'' @ hex_byte (n div 16777216 mod 256))"

section \<open>Waiting\<close>

text \<open>All times are in milliseconds.\<close>

definition READY_TIMEOUT :: nat where "READY_TIMEOUT = 30000"
definition READY_POLL :: nat where "READY_POLL = 250"
definition READY_BACKOFF_START :: nat where "READY_BACKOFF_START = 50"
definition READY_BACKOFF_CAP :: nat where "READY_BACKOFF_CAP = 2000"
definition RESUME_ENSURE_TIMEOUT :: nat where "RESUME_ENSURE_TIMEOUT = 60000"
definition RESUME_ENSURE_POLL :: nat where "RESUME_ENSURE_POLL = 2000"
definition REPLUMB_BUDGET :: nat where "REPLUMB_BUDGET = 30000"
definition REPLUMB_POLL :: nat where "REPLUMB_POLL = 1000"

text \<open>The pause after poll \<open>n\<close>: doubled from the start value up to the cap.\<close>

definition backoff :: "nat \<Rightarrow> nat" where
  "backoff n = min (READY_BACKOFF_START * 2 ^ n) READY_BACKOFF_CAP"

lemma backoff_0: "backoff 0 = READY_BACKOFF_START"
  by (simp add: backoff_def READY_BACKOFF_START_def READY_BACKOFF_CAP_def)

lemma backoff_Suc: "backoff (Suc n) = min (backoff n * 2) READY_BACKOFF_CAP"
  by (simp add: backoff_def)

lemma backoff_pos [simp]: "0 < backoff n"
  by (simp add: backoff_def READY_BACKOFF_START_def READY_BACKOFF_CAP_def)

text \<open>Polling until an answer or the deadline: \<open>poll n\<close> is whether the \<open>n\<close>-th request was answered and
  how long it took. The result is whether there was an answer, and when the loop ended.\<close>

function poll_ready :: "(nat \<Rightarrow> bool \<times> nat) \<Rightarrow> nat \<Rightarrow> nat \<Rightarrow> nat \<Rightarrow> bool \<times> nat" where
  "poll_ready poll deadline n t =
     (case poll n of
        (answered, took) \<Rightarrow>
          if answered then (True, t + took)
          else if t + took < deadline
          then poll_ready poll deadline (Suc n) (t + took + min (backoff n) (deadline - (t + took)))
          else (False, t + took))"
  by pat_completeness auto
termination
proof (relation "measure (\<lambda>(poll, deadline, n, t). deadline - t)")
  fix poll :: "nat \<Rightarrow> bool \<times> nat" and deadline n t :: nat and p answered took
  assume late: "t + took < deadline"
  define pause where "pause = min (backoff n) (deadline - (t + took))"
  have "0 < pause" using late by (simp add: pause_def)
  then have "deadline - (t + took + pause) < deadline - t" using late by linarith
  then show "((poll, deadline, Suc n, t + took + min (backoff n) (deadline - (t + took))), poll, deadline, n, t)
        \<in> measure (\<lambda>(poll, deadline, n, t). deadline - t)"
    by (simp add: pause_def)
qed simp

declare poll_ready.simps [simp del]

text \<open>Of several ports, the one that answers first; of two at the same moment, the one listed first.\<close>

definition earliest :: "('a \<Rightarrow> nat) \<Rightarrow> 'a list \<Rightarrow> 'a option" where
  "earliest at xs =
     (case xs of [] \<Rightarrow> None | x # ys \<Rightarrow> Some (fold (\<lambda>y best. if at y < at best then y else best) ys x))"

definition probe_first_answering :: "(u16 \<Rightarrow> nat \<Rightarrow> bool \<times> nat) \<Rightarrow> u16 list \<Rightarrow> u16 option" where
  "probe_first_answering polls ports =
     earliest (\<lambda>p. snd (poll_ready (polls p) READY_TIMEOUT 0 0))
       (filter (\<lambda>p. fst (poll_ready (polls p) READY_TIMEOUT 0 0)) ports)"

section \<open>The machine\<close>

text \<open>The host with what belongs to Firecracker: the API sockets with the process behind each, the
  address slot of every TAP, the link assignments, the cache directory of the app, the memory image in it
  (none when it is torn), the guest of every process, the paused ones, and the requests sent so far. The
  state of a guest is a parameter.\<close>

record 'g machine =
  mc_host :: host
  mc_socks :: "(string \<times> u32) list"
  mc_addrs :: "(string \<times> u32) list"
  mc_links :: assign_file
  mc_cache :: cache_dir
  mc_frozen :: "'g option"
  mc_guests :: "(u32 \<times> 'g) list"
  mc_paused :: "u32 list"
  mc_calls :: "(string \<times> string \<times> string \<times> json) list"

text \<open>A request to the broker inside a workspace guest.\<close>

datatype broker_request =
    ProbeRestore
  | Scrub "string option"
  | Restore string "(string \<times> string) list"

text \<open>The answer to an API request: the status, if one came, the time it took, and whether the request had
  its effect although no success was reported.\<close>

record fc_reply =
  fr_status :: "nat option"
  fr_took :: nat
  fr_anyway :: bool

text \<open>What a launch or an operation on a machine meets. \<open>ve_fc\<close>, \<open>ve_torn\<close> and \<open>ve_broker\<close> are indexed by
  the number of requests sent before; \<open>ve_torn\<close> says which files a failed snapshot leaves behind.\<close>

record 'g vm_env =
  ve_cfg :: FcConfig
  ve_kernel :: string
  ve_bin :: string
  ve_link :: link_env
  ve_owner :: string
  ve_addr_list_ok :: bool
  ve_kvm :: bool
  ve_rootfs_ok :: bool
  ve_tap_ok :: bool
  ve_addr_ok :: bool
  ve_up_ok :: bool
  ve_systemd_run :: bool
  ve_spawn :: "nat \<Rightarrow> u32 option"
  ve_status :: "string option"
  ve_unkillable :: bool
  ve_socket :: "u32 \<Rightarrow> bool"
  ve_disk_ok :: bool
  ve_fc :: "nat \<Rightarrow> string \<Rightarrow> string \<Rightarrow> json \<Rightarrow> fc_reply"
  ve_torn :: "nat \<Rightarrow> (bool \<times> bool) option"
  ve_poll :: "u32 \<Rightarrow> u16 \<Rightarrow> nat \<Rightarrow> bool \<times> nat"
  ve_mkdir :: bool
  ve_write :: "string \<Rightarrow> text_write"
  ve_clear :: clear_io
  ve_pidfile_write :: bool
  ve_pidfile_remove :: bool
  ve_json :: "string \<Rightarrow> json option"
  ve_boot :: "(string \<times> string) list \<Rightarrow> 'g"
  ve_broker :: "nat \<Rightarrow> 'g \<Rightarrow> broker_request \<Rightarrow> (nat \<times> string) option \<times> nat \<times> 'g"

text \<open>\<open>FirecrackerRuntime\<close>. \<open>vm_cache\<close>: it has a snapshot directory.\<close>

record vm =
  vm_child :: u32
  vm_tap_name :: string
  vm_api_sock :: string
  vm_fc_scope :: "string option"
  vm_port :: u16
  vm_port_source :: PortSource
  vm_guest_ip :: u32
  vm_link_slot :: u32
  vm_tap_subnet :: string
  vm_cache :: bool
  vm_image_ref :: "string option"
  vm_env_hash :: "string option"
  vm_is_workspace :: bool
  vm_cap_files :: "(string \<times> string) list"
  vm_stateful :: bool

text \<open>The arguments of a launch.\<close>

record vm_args =
  va_rootfs :: string
  va_rt :: Runtime
  va_kernel :: "string option"
  va_memory_mb :: u32
  va_uuid :: string
  va_reff :: string
  va_data_dir :: string
  va_is_swap :: bool
  va_workspace :: bool
  va_env_hash :: string
  va_ports :: "u16 list"
  va_snapshot_ref :: string
  va_cap_files :: "(string \<times> string) list"

datatype boot_error =
    NoKvm | NoRootfs | BadLink link_error | TapFailed | SpawnFailed | SocketNeverAppeared
  | ApiFailed string | DataDiskFailed | NeverReady
  | StaleSurvived | StaleOtherSocket string | StaleUnreadable | ScopeStillActive | PidfileStuck
  | StatefulRestore | NoRestoreToken | ReplumbFailed | NotRestorable | ScrubFailed | NoRestoreNonce
  | StatefulSnapshot | NoSnapshotFiles

section \<open>Requests and local commands\<close>

definition on_host :: "(host \<Rightarrow> host) \<Rightarrow> 'g machine \<Rightarrow> 'g machine" where
  "on_host f m = m\<lparr>mc_host := f (mc_host m)\<rparr>"

definition on_cache :: "(cache_dir \<Rightarrow> cache_dir) \<Rightarrow> 'g machine \<Rightarrow> 'g machine" where
  "on_cache f m = m\<lparr>mc_cache := f (mc_cache m)\<rparr>"

definition fc_alive :: "'g machine \<Rightarrow> u32 \<Rightarrow> bool" where
  "fc_alive m pd = process_is_alive (mc_host m) pd"

definition is_success :: "nat \<Rightarrow> bool" where
  "is_success s \<longleftrightarrow> 200 \<le> s \<and> s < 300"

definition fr_ok :: "fc_reply \<Rightarrow> bool" where
  "fr_ok r = (case fr_status r of Some s \<Rightarrow> is_success s | None \<Rightarrow> False)"

definition took_effect :: "fc_reply \<Rightarrow> bool" where
  "took_effect r \<longleftrightarrow> fr_ok r \<or> fr_anyway r"

text \<open>One request over the API socket: a dead socket answers nothing.\<close>

definition fc_call ::
  "'g vm_env \<Rightarrow> string \<Rightarrow> string \<Rightarrow> json \<Rightarrow> string \<Rightarrow> 'g machine \<Rightarrow> fc_reply \<times> 'g machine" where
  "fc_call env verb path body sock m =
     ((case map_of (mc_socks m) sock of
         Some pd \<Rightarrow> if fc_alive m pd then ve_fc env (length (mc_calls m)) verb path body
                    else \<lparr>fr_status = None, fr_took = 0, fr_anyway = False\<rparr>
       | None \<Rightarrow> \<lparr>fr_status = None, fr_took = 0, fr_anyway = False\<rparr>),
      m\<lparr>mc_calls := mc_calls m @ [(sock, verb, path, body)]\<rparr>)"

definition setup_tap :: "'g vm_env \<Rightarrow> string \<Rightarrow> u32 \<Rightarrow> 'g machine \<Rightarrow> bool \<times> 'g machine" where
  "setup_tap env tap s m =
     (if \<not> ve_tap_ok env then (False, m)
      else let m1 = on_host (\<lambda>h. h\<lparr>taps := tap # taps h\<rparr>)
                      (m\<lparr>mc_addrs := filter (\<lambda>(t, _). t \<noteq> tap) (mc_addrs m)\<rparr>)
           in if \<not> ve_addr_ok env then (False, m1)
              else (ve_up_ok env, m1\<lparr>mc_addrs := (tap, s) # mc_addrs m1\<rparr>))"

definition remove_sock :: "string \<Rightarrow> 'g machine \<Rightarrow> 'g machine" where
  "remove_sock sock m = m\<lparr>mc_socks := filter (\<lambda>(s, _). s \<noteq> sock) (mc_socks m)\<rparr>"

definition should_wrap :: "bool \<Rightarrow> bool \<Rightarrow> bool" where
  "should_wrap have_systemd_run systemd_is_pid1 \<longleftrightarrow> have_systemd_run \<and> systemd_is_pid1"

definition scope_active :: "string \<Rightarrow> host \<Rightarrow> bool" where
  "scope_active sc h = list_ex (\<lambda>(_, p). in_scope p = Some sc) (procs h)"

definition fc_argv :: "string \<Rightarrow> string \<Rightarrow> string list" where
  "fc_argv bin sock = [bin, ''--api-sock'', sock]"

definition fc_proc :: "'g vm_env \<Rightarrow> string \<Rightarrow> string option \<Rightarrow> proc" where
  "fc_proc env sock scope =
     \<lparr>cmdline = Bytes (concat (map (\<lambda>a. a @ [NUL]) (fc_argv (ve_bin env) sock))), environ = Bytes [],
      status_text = ve_status env, waited = WNotChild, signalable = True, unkillable = ve_unkillable env,
      leaving = False, leaves_in = None, in_scope = scope\<rparr>"

text \<open>\<open>systemd-run --scope\<close> executes the command in place, so the child is Firecracker; when a unit of that
  name is still active it refuses and its process ends.\<close>

definition spawn_firecracker ::
  "'g vm_env \<Rightarrow> string \<Rightarrow> string \<Rightarrow> 'g machine \<Rightarrow> (boot_error + u32 \<times> string option) \<times> 'g machine" where
  "spawn_firecracker env scope_id sock m =
     (let scope = (if should_wrap (ve_systemd_run env) (has_systemd (mc_host m))
                   then Some (scope_name scope_id) else None)
      in case ve_spawn env (length (mc_calls m)) of
           None \<Rightarrow> (Inl SpawnFailed, m)
         | Some pd \<Rightarrow>
             if scope \<noteq> None \<and> scope_active (the scope) (mc_host m) then (Inr (pd, scope), m)
             else (Inr (pd, scope),
                   (on_host (\<lambda>h. h\<lparr>procs := (pd, fc_proc env sock scope) # procs h\<rparr>) m)
                     \<lparr>mc_socks := (if ve_socket env pd then [(sock, pd)] else []) @ mc_socks m\<rparr>))"

definition socket_exists :: "string \<Rightarrow> 'g machine \<Rightarrow> bool" where
  "socket_exists sock m \<longleftrightarrow> map_of (mc_socks m) sock \<noteq> None"

definition stop_scope :: "string option \<Rightarrow> 'g machine \<Rightarrow> 'g machine" where
  "stop_scope scope m =
     (case scope of Some sc \<Rightarrow> on_host (snd \<circ> stop_fc_scope sc) m | None \<Rightarrow> m)"

text \<open>\<open>Drop for FirecrackerRuntime\<close>, and the two halves of \<open>shutdown\<close>: the kill when it is called, the TAP
  when its future is polled.\<close>

definition drop_vm :: "vm \<Rightarrow> 'g machine \<Rightarrow> 'g machine" where
  "drop_vm v m =
     on_host (delete_fc_tap (vm_tap_name v))
       (remove_sock (vm_api_sock v) (stop_scope (vm_fc_scope v) (on_host (remove_pid (vm_child v)) m)))"

definition shutdown_now :: "vm \<Rightarrow> 'g machine \<Rightarrow> 'g machine" where
  "shutdown_now v m =
     stop_scope (vm_fc_scope v)
       (on_host (kill_stale_if_alive (vm_child v) (process_is_alive (mc_host m))) m)"

definition shutdown_tap :: "vm \<Rightarrow> 'g machine \<Rightarrow> 'g machine" where
  "shutdown_tap v m = on_host (delete_fc_tap (vm_tap_name v)) m"

text \<open>The guest is reached over its TAP while its process runs and is not paused.\<close>

definition reachable :: "vm \<Rightarrow> 'g machine \<Rightarrow> bool" where
  "reachable v m \<longleftrightarrow> fc_alive m (vm_child v) \<and> vm_child v \<notin> set (mc_paused m) \<and>
     vm_tap_name v \<in> set (taps (mc_host m)) \<and> map_of (mc_guests m) (vm_child v) \<noteq> None"

definition set_guest :: "vm \<Rightarrow> 'g \<Rightarrow> 'g machine \<Rightarrow> 'g machine" where
  "set_guest v g m = m\<lparr>mc_guests := AList.update (vm_child v) g (mc_guests m)\<rparr>"

section \<open>A cold boot\<close>

datatype boot_step = Put string json | EnsureDataDisk

definition boot_steps ::
  "'g vm_env \<Rightarrow> vm_args \<Rightarrow> vm \<Rightarrow> string \<Rightarrow> string \<Rightarrow> string \<Rightarrow> string option \<Rightarrow> boot_step list" where
  "boot_steps env a v guest_ip host_ip guest_mac data_disk =
     [Put ''/machine-config'' (machine_config_body (resolve_vcpus (va_rt a) (ve_cfg env)) (va_memory_mb a)),
      Put ''/boot-source''
        (boot_source_body (case va_kernel a of Some k \<Rightarrow> k | None \<Rightarrow> ve_kernel env) guest_ip host_ip),
      Put ''/drives/rootfs'' (rootfs_drive_body (va_rootfs a) False)] @
     (case data_disk of
        Some p \<Rightarrow> [EnsureDataDisk, Put ''/drives/data'' (aux_drive_body ''data'' p False)]
      | None \<Rightarrow> []) @
     [Put ''/network-interfaces/eth0'' (network_iface_body (vm_tap_name v) guest_mac),
      Put ''/actions'' instance_start_body]"

fun run_steps :: "'g vm_env \<Rightarrow> vm \<Rightarrow> boot_step list \<Rightarrow> 'g machine \<Rightarrow> (boot_error + unit) \<times> 'g machine" where
  "run_steps env v [] m = (Inr (), m)"
| "run_steps env v (EnsureDataDisk # steps) m =
     (if ve_disk_ok env then run_steps env v steps m else (Inl DataDiskFailed, m))"
| "run_steps env v (Put path body # steps) m =
     (case fc_call env ''PUT'' path body (vm_api_sock v) m of
        (r, m1) \<Rightarrow>
          let m2 = (if took_effect r \<and> path = ''/actions'' then set_guest v (ve_boot env (vm_cap_files v)) m1 else m1)
          in if fr_ok r then run_steps env v steps m2 else (Inl (ApiFailed path), m2))"

definition configure_and_boot ::
  "'g vm_env \<Rightarrow> vm_args \<Rightarrow> vm \<Rightarrow> u32 \<Rightarrow> string option \<Rightarrow> 'g machine \<Rightarrow> (boot_error + unit) \<times> 'g machine" where
  "configure_and_boot env a v host_ip data_disk m =
     (if \<not> socket_exists (vm_api_sock v) m then (Inl SocketNeverAppeared, m)
      else run_steps env v
             (boot_steps env a v (show_ipv4 (vm_guest_ip v)) (show_ipv4 host_ip)
                (derive_guest_mac (vm_link_slot v)) data_disk) m)"

definition guest_poll :: "'g vm_env \<Rightarrow> vm \<Rightarrow> 'g machine \<Rightarrow> u16 \<Rightarrow> nat \<Rightarrow> bool \<times> nat" where
  "guest_poll env v m p n = apfst (\<lambda>answered. answered \<and> reachable v m) (ve_poll env (vm_child v) p n)"

definition wait_until_ready :: "'g vm_env \<Rightarrow> vm \<Rightarrow> 'g machine \<Rightarrow> bool" where
  "wait_until_ready env v m = fst (poll_ready (guest_poll env v m (vm_port v)) READY_TIMEOUT 0 0)"

text \<open>The machine and the process a boot starts with: the TAP, the socket path, the child.\<close>

definition initial_port :: "PortPlan \<Rightarrow> FcConfig \<Rightarrow> u16" where
  "initial_port port_plan cfg =
     (case port_plan of
        Fixed p \<Rightarrow> p
      | Probe ports \<Rightarrow> (case ports of [] \<Rightarrow> app_port cfg | p # ps \<Rightarrow> fold min ps p))"

text \<open>\<open>fc_api_sock_for_key\<close> by the TAP.\<close>

definition tap_sock :: "string \<Rightarrow> string" where
  "tap_sock tap = ''/tmp/firecracker-'' @ tap @ ''.sock''"

definition bring_up ::
  "'g vm_env \<Rightarrow> string \<Rightarrow> string \<Rightarrow> u32 \<Rightarrow> 'g machine \<Rightarrow>
   (boot_error + u32 \<times> string option \<times> u32 \<times> u32 \<times> string) \<times> 'g machine" where
  "bring_up env vm_key tap s m =
     (let sock = tap_sock tap in
      case link_ips (tap_subnet (ve_link env)) s of
        Inl e \<Rightarrow> (Inl (BadLink e), m)
      | Inr (host_ip, guest_ip) \<Rightarrow>
          (case setup_tap env tap s (on_host (delete_fc_tap tap) m) of
             (False, m1) \<Rightarrow> (Inl TapFailed, m1)
           | (True, m1) \<Rightarrow>
               (case spawn_firecracker env vm_key sock (remove_sock sock m1) of
                  (Inl e, m2) \<Rightarrow> (Inl e, m2)
                | (Inr (pd, scope), m2) \<Rightarrow> (Inr (pd, scope, host_ip, guest_ip, sock), m2))))"

section \<open>Writing a snapshot\<close>

definition vmstate_path :: string where "vmstate_path = ''snap.vmstate''"
definition mem_path :: string where "mem_path = ''snap.mem''"

definition pause :: "u32 \<Rightarrow> 'g machine \<Rightarrow> 'g machine" where
  "pause pd m = m\<lparr>mc_paused := List.insert pd (mc_paused m)\<rparr>"

definition unpause :: "u32 \<Rightarrow> 'g machine \<Rightarrow> 'g machine" where
  "unpause pd m = m\<lparr>mc_paused := removeAll pd (mc_paused m)\<rparr>"

definition patch_vm :: "'g vm_env \<Rightarrow> vm \<Rightarrow> json \<Rightarrow> 'g machine \<Rightarrow> fc_reply \<times> 'g machine" where
  "patch_vm env v body m =
     (case fc_call env ''PATCH'' ''/vm'' body (vm_api_sock v) m of
        (r, m1) \<Rightarrow> (r, if \<not> took_effect r then m1
                       else if body = pause_body then pause (vm_child v) m1 else unpause (vm_child v) m1))"

text \<open>\<open>PUT /snapshot/create\<close>: both files with the guest as it is, or what a failure leaves of them.\<close>

definition create_files :: "'g vm_env \<Rightarrow> vm \<Rightarrow> 'g machine \<Rightarrow> bool \<times> 'g machine" where
  "create_files env v m =
     (case fc_call env ''PUT'' ''/snapshot/create'' (snapshot_create_body vmstate_path mem_path) (vm_api_sock v) m of
        (r, m1) \<Rightarrow>
          (fr_ok r,
           if took_effect r
           then (on_cache (\<lambda>c. c\<lparr>snap_vmstate := True, snap_mem := True\<rparr>) m1)
                  \<lparr>mc_frozen := map_of (mc_guests m1) (vm_child v)\<rparr>
           else case ve_torn env (length (mc_calls m)) of
             None \<Rightarrow> m1
           | Some (state_left, mem_left) \<Rightarrow>
               (on_cache (\<lambda>c. c\<lparr>snap_vmstate := (snap_vmstate c \<or> state_left),
                               snap_mem := (snap_mem c \<or> mem_left)\<rparr>) m1)
                 \<lparr>mc_frozen := (if mem_left then None else mc_frozen m1)\<rparr>))"

definition create_snapshot_inner :: "'g vm_env \<Rightarrow> vm \<Rightarrow> 'g machine \<Rightarrow> bool \<times> 'g machine" where
  "create_snapshot_inner env v m =
     (if \<not> ve_mkdir env then (False, m)
      else case patch_vm env v pause_body m of
        (r, m1) \<Rightarrow>
          if \<not> fr_ok r then (False, m1)
          else case create_files env v m1 of
            (False, m2) \<Rightarrow> (False, m2)
          | (True, m2) \<Rightarrow> (case patch_vm env v resume_body m2 of (r', m3) \<Rightarrow> (fr_ok r', m3)))"

text \<open>An answer whose status starts with a 4 counts as running already.\<close>

function ensure_resumed :: "'g vm_env \<Rightarrow> vm \<Rightarrow> nat \<Rightarrow> 'g machine \<Rightarrow> 'g machine" where
  "ensure_resumed env v t m =
     (case patch_vm env v resume_body m of
        (r, m1) \<Rightarrow>
          if fr_ok r then m1
          else if (case fr_status r of Some s \<Rightarrow> starts_with ''4'' (show_dec s) | None \<Rightarrow> False) then m1
          else if RESUME_ENSURE_TIMEOUT \<le> t + fr_took r then m1
          else ensure_resumed env v (t + fr_took r + RESUME_ENSURE_POLL) m1)"
  by pat_completeness auto
termination
  by (relation "measure (\<lambda>(env, v, t, m). RESUME_ENSURE_TIMEOUT - t)") (auto simp: RESUME_ENSURE_POLL_def)

declare ensure_resumed.simps [simp del]

definition try_create_snapshot :: "'g vm_env \<Rightarrow> vm \<Rightarrow> 'g machine \<Rightarrow> 'g machine" where
  "try_create_snapshot env v m = ensure_resumed env v 0 (snd (create_snapshot_inner env v m))"

definition snapshot_link :: "vm \<Rightarrow> SnapshotLink" where
  "snapshot_link v = \<lparr>sl_slot = vm_link_slot v, sl_tap_subnet = vm_tap_subnet v, sl_tap_name = vm_tap_name v\<rparr>"

text \<open>The companions of a cold boot's snapshot.\<close>

definition stamp_first :: "'g vm_env \<Rightarrow> vm \<Rightarrow> cache_dir \<Rightarrow> cache_dir" where
  "stamp_first env v c =
     (case vm_image_ref v of
        None \<Rightarrow> c
      | Some reff \<Rightarrow>
          let c1 = write_link (ve_write env ''link'') (snapshot_link v) (write_ref (ve_write env ''ref'') reff c)
          in case vm_env_hash v of Some eh \<Rightarrow> write_env (ve_write env ''env'') eh c1 | None \<Rightarrow> c1)"

definition first_snapshot :: "'g vm_env \<Rightarrow> vm \<Rightarrow> 'g machine \<Rightarrow> 'g machine" where
  "first_snapshot env v m =
     (if vm_cache v \<and> \<not> vm_is_workspace v \<and>
         should_snapshot_on_cold_boot (files_present (mc_cache m)) (is_suppressed (mc_cache m)) (vm_stateful v)
      then let m1 = try_create_snapshot env v m
           in if files_present (mc_cache m1) then on_cache (stamp_first env v) m1 else m1
      else m)"

definition port_decided ::
  "'g vm_env \<Rightarrow> PortPlan \<Rightarrow> vm \<Rightarrow> 'g machine \<Rightarrow> u16 option" where
  "port_decided env port_plan v m =
     (case port_plan of
        Fixed p \<Rightarrow> if wait_until_ready env v m then Some p else None
      | Probe ports \<Rightarrow> probe_first_answering (guest_poll env v m) ports)"

definition keep_port :: "'g vm_env \<Rightarrow> vm_args \<Rightarrow> vm \<Rightarrow> u16 \<Rightarrow> 'g machine \<Rightarrow> 'g machine" where
  "keep_port env a v p m =
     (if vm_cache v \<and> \<not> vm_is_workspace v \<and> rt_port (va_rt a) = None
      then on_cache (write_app_port (ve_mkdir env) (ve_write env ''port'') p) m else m)"

text \<open>The machine as it is when its process has been started, and the rest of the boot: a failure drops it.\<close>

definition new_vm ::
  "'g vm_env \<Rightarrow> vm_args \<Rightarrow> bool \<Rightarrow> string option \<Rightarrow> string option \<Rightarrow> PortDecision \<Rightarrow> string option \<Rightarrow> string \<Rightarrow>
   u32 \<Rightarrow> string \<Rightarrow> u32 \<Rightarrow> string option \<Rightarrow> u32 \<Rightarrow> string \<Rightarrow> vm" where
  "new_vm env a with_cache img env_hash decision data_disk tap s subnet pd scope guest_ip sock =
     \<lparr>vm_child = pd, vm_tap_name = tap, vm_api_sock = sock, vm_fc_scope = scope,
      vm_port = initial_port (plan decision) (ve_cfg env), vm_port_source = source decision,
      vm_guest_ip = guest_ip, vm_link_slot = s, vm_tap_subnet = subnet, vm_cache = with_cache,
      vm_image_ref = img, vm_env_hash = env_hash, vm_is_workspace = va_workspace a,
      vm_cap_files = va_cap_files a, vm_stateful = (data_disk \<noteq> None)\<rparr>"

definition finish_boot ::
  "'g vm_env \<Rightarrow> vm_args \<Rightarrow> vm \<Rightarrow> u32 \<Rightarrow> PortPlan \<Rightarrow> string option \<Rightarrow> 'g machine \<Rightarrow> (boot_error + vm) \<times> 'g machine" where
  "finish_boot env a v host_ip port_plan data_disk m =
     (case configure_and_boot env a v host_ip data_disk m of
        (Inl e, m1) \<Rightarrow> (Inl e, drop_vm v m1)
      | (Inr _, m1) \<Rightarrow>
          (case port_decided env port_plan v m1 of
             None \<Rightarrow> (Inl NeverReady, drop_vm v m1)
           | Some p \<Rightarrow>
               let v' = v\<lparr>vm_port := p\<rparr> in (Inr v', first_snapshot env v' (keep_port env a v' p m1))))"

definition cold_boot ::
  "'g vm_env \<Rightarrow> vm_args \<Rightarrow> bool \<Rightarrow> string \<Rightarrow> LinkAllocation option \<Rightarrow> string option \<Rightarrow> string option \<Rightarrow>
   PortDecision \<Rightarrow> string option \<Rightarrow> 'g machine \<Rightarrow> (boot_error + vm) \<times> 'g machine" where
  "cold_boot env a with_cache vm_key alloc img env_hash decision data_disk m =
     (if \<not> ve_kvm env then (Inl NoKvm, m)
      else if \<not> ve_rootfs_ok env then (Inl NoRootfs, m)
      else
        let b = b3 (ve_link env);
            tap = (case alloc of Some l \<Rightarrow> la_tap_name l | None \<Rightarrow> fc_tap_name_for_key b vm_key);
            s = (case alloc of Some l \<Rightarrow> la_slot l | None \<Rightarrow> preferred_slot b vm_key)
        in case bring_up env vm_key tap s m of
          (Inl e, m1) \<Rightarrow> (Inl e, m1)
        | (Inr (pd, scope, host_ip, guest_ip, sock), m1) \<Rightarrow>
            (case normalize_subnet (tap_subnet (ve_link env)) of
               Inl e \<Rightarrow> (Inl (BadLink e), m1)
             | Inr subnet \<Rightarrow>
                 finish_boot env a
                   (new_vm env a with_cache img env_hash decision data_disk tap s subnet pd scope guest_ip sock)
                   host_ip (plan decision) data_disk m1))"

text \<open>The entry without a cache and without a link of its own.\<close>

definition launch_default :: "'g vm_env \<Rightarrow> vm_args \<Rightarrow> string option \<Rightarrow> 'g machine \<Rightarrow> (boot_error + vm) \<times> 'g machine" where
  "launch_default env a data_disk m =
     cold_boot env (a\<lparr>va_workspace := False, va_cap_files := []\<rparr>) False ''fc-launch-default'' None None None
       (resolve_port_plan False (va_rt a) [] None (ve_cfg env)) data_disk m"

section \<open>Credentials in a workspace guest\<close>

definition AUTHKEYS_CAP_NAME :: string where "AUTHKEYS_CAP_NAME = ''authkeys.cap''"

definition authkeys_cap_value :: "(string \<times> string) list \<Rightarrow> string option" where
  "authkeys_cap_value caps = map_option snd (List.find (\<lambda>(n, _). n = AUTHKEYS_CAP_NAME) caps)"

definition parse_scrub_nonce :: "'g vm_env \<Rightarrow> string \<Rightarrow> string option" where
  "parse_scrub_nonce env body =
     (case Option.bind (Option.bind (ve_json env body) (j_get ''restore_nonce'')) as_str of
        Some n \<Rightarrow> if n = [] then None else Some n | None \<Rightarrow> None)"

definition write_restore_token :: "'g vm_env \<Rightarrow> string \<Rightarrow> cache_dir \<Rightarrow> cache_dir" where
  "write_restore_token env token c =
     (if \<not> ve_mkdir env then c
      else c\<lparr>restore_token_file := write_text (ve_write env ''token'') token (restore_token_file c)\<rparr>)"

definition read_restore_token :: "cache_dir \<Rightarrow> string option" where
  "read_restore_token c =
     (case map_option trim (restore_token_file c) of
        Some tok \<Rightarrow> if tok = [] then None else Some tok | None \<Rightarrow> None)"

text \<open>One request to the broker of the guest: the status and body if it answered, and the time it took.\<close>

definition broker_call ::
  "'g vm_env \<Rightarrow> vm \<Rightarrow> broker_request \<Rightarrow> 'g machine \<Rightarrow> ((nat \<times> string) option \<times> nat) \<times> 'g machine" where
  "broker_call env v req m =
     (let m1 = m\<lparr>mc_calls := mc_calls m @ [(''broker'', ''HTTP'', vm_tap_name v, JNull)]\<rparr> in
      case map_of (mc_guests m) (vm_child v) of
        None \<Rightarrow> ((None, 0), m1)
      | Some g \<Rightarrow>
          if reachable v m
          then case ve_broker env (length (mc_calls m)) g req of
                 (answer, took, g') \<Rightarrow> ((answer, took), set_guest v g' m1)
          else ((None, 0), m1))"

definition probe_restore_capability :: "'g vm_env \<Rightarrow> vm \<Rightarrow> 'g machine \<Rightarrow> bool \<times> 'g machine" where
  "probe_restore_capability env v m =
     (case broker_call env v ProbeRestore m of
        ((Some (st, _), _), m1) \<Rightarrow> (is_success st, m1)
      | ((None, _), m1) \<Rightarrow> (False, m1))"

function replumb_creds :: "'g vm_env \<Rightarrow> vm \<Rightarrow> string \<Rightarrow> nat \<Rightarrow> 'g machine \<Rightarrow> bool \<times> 'g machine" where
  "replumb_creds env v nonce t m =
     (case broker_call env v (Restore nonce (vm_cap_files v)) m of
        ((answer, took), m1) \<Rightarrow>
          if (case answer of Some (st, _) \<Rightarrow> is_success st | None \<Rightarrow> False) then (True, m1)
          else if (case answer of Some (st, _) \<Rightarrow> st \<in> {400, 401, 403, 404, 405} | None \<Rightarrow> False)
          then (False, m1)
          else if REPLUMB_BUDGET \<le> t + took then (False, m1)
          else replumb_creds env v nonce (t + took + min REPLUMB_POLL (REPLUMB_BUDGET - (t + took))) m1)"
  by pat_completeness auto
termination
  by (relation "measure (\<lambda>(env, v, nonce, t, m). REPLUMB_BUDGET - t)") (auto simp: REPLUMB_POLL_def)

declare replumb_creds.simps [simp del]

definition pre_snapshot_scrub ::
  "'g vm_env \<Rightarrow> vm \<Rightarrow> 'g machine \<Rightarrow> (boot_error + string option) \<times> 'g machine" where
  "pre_snapshot_scrub env v m =
     (if \<not> must_scrub_before_snapshot (vm_is_workspace v) then (Inr None, m)
      else case broker_call env v (Scrub (authkeys_cap_value (vm_cap_files v))) m of
        ((Some (st, body), _), m1) \<Rightarrow>
          if is_success st then (Inr (parse_scrub_nonce env body), m1) else (Inl ScrubFailed, m1)
      | ((None, _), m1) \<Rightarrow> (Inl ScrubFailed, m1))"

section \<open>A warm restore\<close>

text \<open>The process an earlier launch left behind: killed only when it is Firecracker on the socket of this
  key; the scope is stopped in any case and the pidfile goes last.\<close>

definition reap_stale_fc_for_vm_key ::
  "'g vm_env \<Rightarrow> string \<Rightarrow> string \<Rightarrow> string \<Rightarrow> 'g machine \<Rightarrow> (boot_error + unit) \<times> 'g machine" where
  "reap_stale_fc_for_vm_key env d u vm_key m =
     (let h = mc_host m;
          stale = pidfile_read h d u;
          expected = fc_api_sock_for_key (b3 (ve_link env)) vm_key;
          found = (case stale of Some pd \<Rightarrow> if process_is_alive h pd then find_proc h pd else None | None \<Rightarrow> None);
          (verdict, h1) =
            (case found of
               None \<Rightarrow> (Inr (), h)
             | Some p \<Rightarrow>
                 (case cmdline p of
                    Bytes cmd \<Rightarrow>
                      (case parse_firecracker_api_sock cmd of
                         None \<Rightarrow> (Inr (), h)
                       | Some sock \<Rightarrow>
                           if sock = expected
                           then let h' = kill_stale_if_alive (the stale) (process_is_alive h) h
                                in (if process_is_alive h' (the stale) then Inl StaleSurvived else Inr (), h')
                           else (Inl (StaleOtherSocket sock), h))
                  | FileGone \<Rightarrow> (Inl StaleUnreadable, h)
                  | Denied \<Rightarrow> (Inl StaleUnreadable, h)))
      in case verdict of
           Inl e \<Rightarrow> (Inl e, m\<lparr>mc_host := h1\<rparr>)
         | Inr _ \<Rightarrow>
             (case stop_fc_scope (scope_name vm_key) h1 of
                (False, h2) \<Rightarrow> (Inl ScopeStillActive, m\<lparr>mc_host := h2\<rparr>)
              | (True, h2) \<Rightarrow>
                  if stale = None then (Inr (), m\<lparr>mc_host := h2\<rparr>)
                  else if ve_pidfile_remove env then (Inr (), m\<lparr>mc_host := pidfile_remove d u h2\<rparr>)
                  else (Inl PidfileStuck, m\<lparr>mc_host := h2\<rparr>)))"

text \<open>\<open>PUT /snapshot/load\<close>: the process becomes the guest of the memory image.\<close>

definition load_snapshot :: "'g vm_env \<Rightarrow> vm \<Rightarrow> 'g machine \<Rightarrow> bool \<times> 'g machine" where
  "load_snapshot env v m =
     (case fc_call env ''PUT'' ''/snapshot/load'' (snapshot_load_body vmstate_path mem_path True) (vm_api_sock v) m of
        (r, m1) \<Rightarrow>
          (fr_ok r, case (if took_effect r then mc_frozen m1 else None) of
                      Some g \<Rightarrow> set_guest v g m1 | None \<Rightarrow> m1))"

definition launch_from_snapshot ::
  "'g vm_env \<Rightarrow> vm_args \<Rightarrow> string \<Rightarrow> LinkAllocation \<Rightarrow> u16 \<Rightarrow> PortSource \<Rightarrow> bool \<Rightarrow> string option \<Rightarrow> bool \<Rightarrow>
   'g machine \<Rightarrow> (boot_error + vm) \<times> 'g machine" where
  "launch_from_snapshot env a vm_key alloc p src stateful token needs_restore m =
     (if \<not> ve_kvm env then (Inl NoKvm, m)
      else if stateful then (Inl StatefulRestore, m)
      else case reap_stale_fc_for_vm_key env (va_data_dir a) (va_uuid a) vm_key m of
        (Inl e, m1) \<Rightarrow> (Inl e, m1)
      | (Inr _, m1) \<Rightarrow>
      (case bring_up env vm_key (la_tap_name alloc) (la_slot alloc) m1 of
        (Inl e, m2) \<Rightarrow> (Inl e, m2)
      | (Inr (pd, scope, host_ip, guest_ip, sock), m2) \<Rightarrow>
          let v = \<lparr>vm_child = pd, vm_tap_name = la_tap_name alloc, vm_api_sock = sock, vm_fc_scope = scope,
                   vm_port = p, vm_port_source = src, vm_guest_ip = guest_ip, vm_link_slot = la_slot alloc,
                   vm_tap_subnet = la_tap_subnet alloc, vm_cache = True,
                   vm_image_ref = snapshot_ref_file (mc_cache m2), vm_env_hash = snapshot_env_file (mc_cache m2),
                   vm_is_workspace = va_workspace a, vm_cap_files = va_cap_files a, vm_stateful = stateful\<rparr>
          in if \<not> socket_exists sock m2 then (Inl SocketNeverAppeared, drop_vm v m2)
             else case load_snapshot env v m2 of
               (False, m3) \<Rightarrow> (Inl (ApiFailed ''/snapshot/load''), drop_vm v m3)
             | (True, m3) \<Rightarrow>
                 if \<not> wait_until_ready env v m3 then (Inl NeverReady, drop_vm v m3)
                 else if \<not> needs_restore then (Inr v, m3)
                 else case token of
                   None \<Rightarrow> (Inl NoRestoreToken, drop_vm v m3)
                 | Some tok \<Rightarrow>
                     (case replumb_creds env v tok 0 m3 of
                        (True, m4) \<Rightarrow> (Inr v, m4)
                      | (False, m4) \<Rightarrow> (Inl ReplumbFailed, drop_vm v m4))))"

section \<open>The launch\<close>

text \<open>The cold start: which snapshot counts, the warm restore, and the cold boot behind it.\<close>

record warm_choice =
  wc_viable :: bool
  wc_cleared :: bool
  wc_diagnosed :: bool
  wc_needs_restore :: bool
  wc_token :: "string option"

definition link_of :: "LinkAllocation \<Rightarrow> SnapshotLink" where
  "link_of l = \<lparr>sl_slot = la_slot l, sl_tap_subnet = la_tap_subnet l, sl_tap_name = la_tap_name l\<rparr>"

text \<open>\<open>wc_cleared\<close>: the snapshot is deleted before the boot, \<open>wc_diagnosed\<close>: for its link or its token. The
  restore token is read before that.\<close>

definition choose_start :: "vm_args \<Rightarrow> LinkAllocation \<Rightarrow> bool \<Rightarrow> cache_dir \<Rightarrow> warm_choice" where
  "choose_start a alloc stateful c =
     (let needs_restore = needs_cred_restore (va_workspace a) (va_cap_files a \<noteq> []);
          d = restore_decision c (va_snapshot_ref a) (va_env_hash a);
          link_ok = link_matches c (link_of alloc);
          token = read_restore_token c;
          gate = stateful_launch_gate stateful (rd_files_present d);
          viable = (\<not> block_warm_restore gate \<and> warm_ok d \<and> link_ok \<and> (\<not> needs_restore \<or> token \<noteq> None));
          invalid_link = (\<not> block_warm_restore gate \<and> rd_files_present d \<and> \<not> link_ok);
          missing_token = (\<not> block_warm_restore gate \<and> warm_ok d \<and> link_ok \<and> needs_restore \<and> token = None)
      in \<lparr>wc_viable = viable,
          wc_cleared = (clear_legacy_snapshot gate \<or> invalid_link \<or> missing_token),
          wc_diagnosed = (invalid_link \<or> missing_token),
          wc_needs_restore = needs_restore, wc_token = token\<rparr>)"

definition start_cold ::
  "'g vm_env \<Rightarrow> vm_args \<Rightarrow> string \<Rightarrow> LinkAllocation \<Rightarrow> PortDecision \<Rightarrow> string option \<Rightarrow> 'g machine \<Rightarrow>
   (boot_error + vm) \<times> 'g machine" where
  "start_cold env a vm_key alloc decision data_disk m =
     cold_boot env a True vm_key (Some alloc) (Some (va_snapshot_ref a)) (Some (va_env_hash a)) decision data_disk m"

definition restore_port :: "'g vm_env \<Rightarrow> vm_args \<Rightarrow> u16 option \<Rightarrow> u16" where
  "restore_port env a persisted =
     workspace_or_resolved_port (va_workspace a) (va_rt a)
       (opt_or persisted (case va_ports a of [] \<Rightarrow> None | p # ps \<Rightarrow> Some (fold min ps p))) (ve_cfg env)"

text \<open>The warm or cold branch of a launch that is not a swap.\<close>

definition start ::
  "'g vm_env \<Rightarrow> vm_args \<Rightarrow> string \<Rightarrow> LinkAllocation \<Rightarrow> u16 option \<Rightarrow> string option \<Rightarrow> 'g machine \<Rightarrow>
   (boot_error + vm) \<times> 'g machine" where
  "start env a vm_key alloc persisted data_disk m =
     (let stateful = (data_disk \<noteq> None);
          decision = resolve_port_plan (va_workspace a) (va_rt a) (va_ports a) persisted (ve_cfg env);
          ch = choose_start a alloc stateful (mc_cache m);
          m1 = (if wc_cleared ch then on_cache (clear (ve_clear env)) m else m)
      in if wc_viable ch
         then case launch_from_snapshot env a vm_key alloc (restore_port env a persisted)
                     (restore_port_source (va_workspace a) (va_rt a) (va_ports a) persisted) stateful
                     (wc_token ch) (wc_needs_restore ch) m1 of
                (Inr v, m2) \<Rightarrow> (Inr v, m2)
              | (Inl _, m2) \<Rightarrow> start_cold env a vm_key alloc decision data_disk (on_cache (clear (ve_clear env)) m2)
         else start_cold env a vm_key alloc decision data_disk
                (if files_present (mc_cache m1) \<and> \<not> wc_diagnosed ch then on_cache (clear (ve_clear env)) m1 else m1))"

text \<open>The live links: what \<open>ip addr\<close> lists of the TAPs there are.\<close>

definition live_links :: "'g machine \<Rightarrow> LiveLinks" where
  "live_links m =
     (let up = filter (\<lambda>(t, _). t \<in> set (taps (mc_host m))) (mc_addrs m)
      in \<lparr>by_tap = up, live_slots = map snd up\<rparr>)"

definition acquire_link ::
  "'g vm_env \<Rightarrow> string \<Rightarrow> string \<Rightarrow> 'g machine \<Rightarrow> (link_error + LinkAllocation) \<times> 'g machine" where
  "acquire_link env u vm_key m =
     (case acquire ((ve_link env)\<lparr>caches := (caches (ve_link env))(u := mc_cache m)\<rparr>) vm_key (ve_owner env)
             (if ve_addr_list_ok env then Some (live_links m) else None) (mc_links m) of
        (res, disk) \<Rightarrow> (res, m\<lparr>mc_links := disk\<rparr>))"

text \<open>Confirming the reservation, or dropping it.\<close>

definition release_claim :: "'g vm_env \<Rightarrow> string \<Rightarrow> 'g machine \<Rightarrow> (link_error + unit) \<times> 'g machine" where
  "release_claim env vm_key m =
     (case clear_launch_owner (ve_link env) vm_key (ve_owner env) (mc_links m) of
        (res, disk) \<Rightarrow> (res, m\<lparr>mc_links := disk\<rparr>))"

definition launch_with_uuid :: "'g vm_env \<Rightarrow> vm_args \<Rightarrow> 'g machine \<Rightarrow> (boot_error + vm) \<times> 'g machine" where
  "launch_with_uuid env a m =
     (let vm_key = deploy_key (va_uuid a) (va_reff a) in
      case (if va_is_swap a then (Inr (), m)
            else reap_stale_fc_for_vm_key env (va_data_dir a) (va_uuid a) vm_key m) of
        (Inl e, m1) \<Rightarrow> (Inl e, m1)
      | (Inr _, m1) \<Rightarrow>
      (case acquire_link env (va_uuid a) vm_key m1 of
        (Inl e, m2) \<Rightarrow> (Inl (BadLink e), m2)
      | (Inr alloc, m2) \<Rightarrow>
          let persisted = read_app_port (mc_cache m2);
              data_disk = stateful_data_disk (va_data_dir a) (va_uuid a) (va_rt a)
          in case (if va_is_swap a
                   then start_cold env a vm_key alloc
                          (resolve_port_plan (va_workspace a) (va_rt a) (va_ports a) persisted (ve_cfg env))
                          data_disk (on_cache (clear (ve_clear env)) m2)
                   else start env a vm_key alloc persisted data_disk m2) of
            (Inl e, m3) \<Rightarrow> (Inl e, snd (release_claim env vm_key m3))
          | (Inr v, m3) \<Rightarrow>
              (case release_claim env vm_key m3 of
                 (Inl e, m4) \<Rightarrow> (Inl (BadLink e), drop_vm v m4)
               | (Inr _, m4) \<Rightarrow>
                   (Inr v, on_host (pidfile_write (ve_pidfile_write env) (va_data_dir a) (va_uuid a) (vm_child v)) m4))))"

section \<open>Refreshing the snapshot of a running machine\<close>

definition stamp_refresh :: "'g vm_env \<Rightarrow> vm \<Rightarrow> cache_dir \<Rightarrow> cache_dir" where
  "stamp_refresh env v c =
     (let c1 = (case vm_image_ref v of Some reff \<Rightarrow> write_ref (ve_write env ''ref'') reff c | None \<Rightarrow> c);
          c2 = write_link (ve_write env ''link'') (snapshot_link v) c1
      in case vm_env_hash v of Some eh \<Rightarrow> write_env (ve_write env ''env'') eh c2 | None \<Rightarrow> c2)"

text \<open>After the scrub: the token, the snapshot, the credentials back, the companions.\<close>

definition bracket ::
  "'g vm_env \<Rightarrow> vm \<Rightarrow> bool \<Rightarrow> string option \<Rightarrow> 'g machine \<Rightarrow> (boot_error + unit) \<times> 'g machine" where
  "bracket env v needs_restore nonce m =
     (let m1 = (if needs_restore then on_cache (write_restore_token env (the nonce)) m else m);
          m2 = try_create_snapshot env v m1;
          (plumbed, m3) = (if needs_restore then replumb_creds env v (the nonce) 0 m2 else (True, m2))
      in if \<not> plumbed then (Inl ReplumbFailed, on_cache (clear (ve_clear env)) m3)
         else if files_present (mc_cache m3) then (Inr (), on_cache (stamp_refresh env v) m3)
         else (Inl NoSnapshotFiles, m3))"

definition snapshot_vm :: "'g vm_env \<Rightarrow> vm \<Rightarrow> 'g machine \<Rightarrow> (boot_error + unit) \<times> 'g machine" where
  "snapshot_vm env v m =
     (if vm_stateful v then (Inl StatefulSnapshot, m)
      else if \<not> vm_cache v then (Inr (), m)
      else
        let needs_restore = needs_cred_restore (vm_is_workspace v) (vm_cap_files v \<noteq> []);
            (capable, m1) = (if needs_restore then probe_restore_capability env v m else (True, m))
        in if \<not> capable then (Inl NotRestorable, m1)
           else case pre_snapshot_scrub env v m1 of
             (Inl e, m2) \<Rightarrow> (Inl e, m2)
           | (Inr nonce, m2) \<Rightarrow>
               if needs_restore \<and> nonce = None
               then (Inl NoRestoreNonce, on_cache (clear (ve_clear env)) m2)
               else bracket env v needs_restore nonce m2)"

end
