(* ===== verification/MicroVmLaws.thy ===== *)
theory MicroVmLaws
  imports MicroVm
begin

text \<open>
  What the operations of \<open>MicroVm\<close> promise: a workspace comes up with its credentials, no snapshot holds
  any, a stateful app is never restored, a restore is of the same image, environment and link, waiting is
  bounded, a failed launch leaves nothing behind, and a swap leaves the running machine alone.
\<close>

section \<open>What each operation changes\<close>

lemma on_host_simps [simp]:
  "mc_host (on_host f m) = f (mc_host m)" "mc_socks (on_host f m) = mc_socks m"
  "mc_addrs (on_host f m) = mc_addrs m" "mc_links (on_host f m) = mc_links m"
  "mc_cache (on_host f m) = mc_cache m" "mc_frozen (on_host f m) = mc_frozen m"
  "mc_guests (on_host f m) = mc_guests m" "mc_paused (on_host f m) = mc_paused m"
  "mc_calls (on_host f m) = mc_calls m"
  by (simp_all add: on_host_def)

lemma on_cache_simps [simp]:
  "mc_host (on_cache f m) = mc_host m" "mc_socks (on_cache f m) = mc_socks m"
  "mc_addrs (on_cache f m) = mc_addrs m" "mc_links (on_cache f m) = mc_links m"
  "mc_cache (on_cache f m) = f (mc_cache m)" "mc_frozen (on_cache f m) = mc_frozen m"
  "mc_guests (on_cache f m) = mc_guests m" "mc_paused (on_cache f m) = mc_paused m"
  "mc_calls (on_cache f m) = mc_calls m"
  by (simp_all add: on_cache_def)

text \<open>\<open>keeps_guests\<close>: the guests and the memory image are as before. Most operations do; the ones that do
  not are named below.\<close>

definition keeps_guests :: "'g machine \<Rightarrow> 'g machine \<Rightarrow> bool" where
  "keeps_guests m m' \<longleftrightarrow> mc_guests m' = mc_guests m \<and> mc_frozen m' = mc_frozen m"

lemma keeps_guests_refl [simp, intro]: "keeps_guests m m"
  by (simp add: keeps_guests_def)

lemma keeps_guests_trans [trans]: "keeps_guests m m1 \<Longrightarrow> keeps_guests m1 m2 \<Longrightarrow> keeps_guests m m2"
  by (simp add: keeps_guests_def)

lemma keeps_guests_on [simp]:
  "keeps_guests m (on_host f m1) = keeps_guests m m1" "keeps_guests m (on_cache g m1) = keeps_guests m m1"
  "keeps_guests m (m1\<lparr>mc_host := h\<rparr>) = keeps_guests m m1" "keeps_guests m (m1\<lparr>mc_links := l\<rparr>) = keeps_guests m m1"
  "keeps_guests m (m1\<lparr>mc_socks := s\<rparr>) = keeps_guests m m1" "keeps_guests m (m1\<lparr>mc_addrs := x\<rparr>) = keeps_guests m m1"
  "keeps_guests m (m1\<lparr>mc_calls := c\<rparr>) = keeps_guests m m1" "keeps_guests m (m1\<lparr>mc_paused := p\<rparr>) = keeps_guests m m1"
  by (simp_all add: keeps_guests_def)

lemma keeps_guests_from [simp]:
  "keeps_guests (on_host f m) m1 = keeps_guests m m1" "keeps_guests (on_cache g m) m1 = keeps_guests m m1"
  "keeps_guests (remove_sock sock m) m1 = keeps_guests m m1"
  by (simp_all add: keeps_guests_def remove_sock_def)

lemma fc_call_facts [simp]:
  "mc_guests (snd (fc_call env verb path body sock m)) = mc_guests m"
  "mc_frozen (snd (fc_call env verb path body sock m)) = mc_frozen m"
  "mc_cache (snd (fc_call env verb path body sock m)) = mc_cache m"
  "mc_host (snd (fc_call env verb path body sock m)) = mc_host m"
  "mc_socks (snd (fc_call env verb path body sock m)) = mc_socks m"
  "mc_addrs (snd (fc_call env verb path body sock m)) = mc_addrs m"
  "mc_links (snd (fc_call env verb path body sock m)) = mc_links m"
  "mc_paused (snd (fc_call env verb path body sock m)) = mc_paused m"
  "mc_calls (snd (fc_call env verb path body sock m)) = mc_calls m @ [(sock, verb, path, body)]"
  by (simp_all add: fc_call_def)

lemma fc_callE:
  assumes "fc_call env verb path body sock m = (r, m')"
  shows "m' = m\<lparr>mc_calls := mc_calls m @ [(sock, verb, path, body)]\<rparr>"
  using assms by (simp add: fc_call_def)

lemma remove_sock_keeps [simp]: "keeps_guests m (remove_sock sock m1) = keeps_guests m m1"
  by (simp add: remove_sock_def)

lemma stop_scope_keeps [simp]: "keeps_guests m (stop_scope scope m1) = keeps_guests m m1"
  by (simp add: stop_scope_def split: option.splits)

lemma drop_vm_keeps [simp]: "keeps_guests m (drop_vm v m1) = keeps_guests m m1"
  by (simp add: drop_vm_def)

lemma keeps_guestsD: "keeps_guests m m' \<Longrightarrow> mc_guests m' = mc_guests m" "keeps_guests m m' \<Longrightarrow> mc_frozen m' = mc_frozen m"
  by (simp_all add: keeps_guests_def)

lemma setup_tap_keeps: "setup_tap env tap s m = (ok, m') \<Longrightarrow> keeps_guests m m'"
  by (auto simp: setup_tap_def Let_def split: if_splits)

lemma spawn_keeps: "spawn_firecracker env i sock m = (r, m') \<Longrightarrow> keeps_guests m m'"
  by (auto simp: spawn_firecracker_def Let_def split: option.splits if_splits)

lemma bring_up_keeps: "bring_up env vm_key tap s m = (r, m') \<Longrightarrow> keeps_guests m m'"
  unfolding bring_up_def Let_def
  by (auto split: sum.splits prod.splits bool.splits dest!: setup_tap_keeps spawn_keeps dest: keeps_guests_trans)

lemma stale_reap_keeps: "reap_stale_fc_for_vm_key env d u vm_key m = (r, m') \<Longrightarrow> keeps_guests m m'"
  unfolding reap_stale_fc_for_vm_key_def Let_def by (auto split: prod.splits sum.splits bool.splits if_splits)

lemma acquire_link_keeps: "acquire_link env u vm_key m = (r, m') \<Longrightarrow> keeps_guests m m' \<and> mc_cache m' = mc_cache m \<and> mc_host m' = mc_host m"
  by (auto simp: acquire_link_def split: prod.splits)

lemma release_claim_keeps: "keeps_guests m1 (snd (release_claim env vm_key m)) = keeps_guests m1 m"
  by (simp add: release_claim_def split: prod.splits)

section \<open>Guests\<close>

definition guest_of :: "vm \<Rightarrow> 'g machine \<Rightarrow> 'g option" where
  "guest_of v m = map_of (mc_guests m) (vm_child v)"

lemma guest_of_keeps: "keeps_guests m m' \<Longrightarrow> guest_of v m' = guest_of v m"
  by (simp add: guest_of_def keeps_guests_def)

lemma guest_of_set [simp]: "guest_of v (set_guest v g m) = Some g"
  by (simp add: guest_of_def set_guest_def update_conv')

lemma guest_of_child: "vm_child v' = vm_child v \<Longrightarrow> guest_of v' m = guest_of v m"
  by (simp add: guest_of_def)

text \<open>Configuring writes no guest but the one that \<open>InstanceStart\<close> boots.\<close>

lemma run_steps_guest:
  assumes "run_steps env v steps m = (Inr (), m')"
    "(\<exists>body. Put ''/actions'' body \<in> set steps) \<or> guest_of v m = Some (ve_boot env (vm_cap_files v))"
  shows "guest_of v m' = Some (ve_boot env (vm_cap_files v))"
  using assms
proof (induction env v steps m rule: run_steps.induct)
  case (3 env v path body steps m)
  obtain r m1 where c: "fc_call env ''PUT'' path body (vm_api_sock v) m = (r, m1)" by fastforce
  have m1: "guest_of v m1 = guest_of v m" using fc_callE [OF c] by (simp add: guest_of_def)
  define m2 where "m2 = (if took_effect r \<and> path = ''/actions'' then set_guest v (ve_boot env (vm_cap_files v)) m1 else m1)"
  have ok: "fr_ok r" and rest: "run_steps env v steps m2 = (Inr (), m')"
    using "3.prems"(1) by (auto simp: c Let_def m2_def split: if_splits)
  have "(\<exists>body. Put ''/actions'' body \<in> set steps) \<or> guest_of v m2 = Some (ve_boot env (vm_cap_files v))"
    using "3.prems"(2) ok m1 by (auto simp: m2_def took_effect_def)
  then show ?case using "3.IH" [OF c [symmetric] refl] ok rest by (simp add: m2_def)
qed (auto split: if_splits)

lemma run_steps_frozen: "run_steps env v steps m = (r, m') \<Longrightarrow> mc_frozen m' = mc_frozen m"
proof (induction env v steps m arbitrary: r m' rule: run_steps.induct)
  case (3 env v path body steps m)
  obtain rr m1 where c: "fc_call env ''PUT'' path body (vm_api_sock v) m = (rr, m1)" by fastforce
  have "mc_frozen m1 = mc_frozen m" using fc_callE [OF c] by simp
  then show ?case using "3.prems" "3.IH" [OF c [symmetric] refl]
    by (auto simp: c Let_def set_guest_def split: if_splits)
qed (auto split: if_splits)

lemma boot_steps_start: "Put ''/actions'' instance_start_body \<in> set (boot_steps env a v guest_ip host_ip mac disk)"
  by (simp add: boot_steps_def)

lemma configure_and_boot_guest:
  "configure_and_boot env a v host_ip disk m = (Inr (), m') \<Longrightarrow> guest_of v m' = Some (ve_boot env (vm_cap_files v))"
  using boot_steps_start run_steps_guest unfolding configure_and_boot_def by (fastforce split: if_splits)

lemma configure_and_boot_frozen: "configure_and_boot env a v host_ip disk m = (r, m') \<Longrightarrow> mc_frozen m' = mc_frozen m"
  unfolding configure_and_boot_def by (auto split: if_splits dest: run_steps_frozen)

text \<open>Writing a snapshot reads the guest and leaves it as it is.\<close>

lemma pause_simps [simp]:
  "mc_guests (pause pd m) = mc_guests m" "mc_guests (unpause pd m) = mc_guests m"
  "mc_frozen (pause pd m) = mc_frozen m" "mc_frozen (unpause pd m) = mc_frozen m"
  "mc_cache (pause pd m) = mc_cache m" "mc_cache (unpause pd m) = mc_cache m"
  "mc_host (pause pd m) = mc_host m" "mc_host (unpause pd m) = mc_host m"
  by (simp_all add: pause_def unpause_def)

lemma patch_vm_keeps: "patch_vm env v body m = (r, m') \<Longrightarrow> keeps_guests m m' \<and> mc_cache m' = mc_cache m"
  unfolding patch_vm_def by (auto simp: keeps_guests_def split: prod.splits if_splits dest!: fc_callE)

lemma ensure_resumed_keeps: "keeps_guests m (ensure_resumed env v t m) \<and> mc_cache (ensure_resumed env v t m) = mc_cache m"
proof (induction env v t m rule: ensure_resumed.induct)
  case (1 env v t m)
  obtain r m1 where p: "patch_vm env v resume_body m = (r, m1)" by fastforce
  note IH = 1 [OF p [symmetric]]
  show ?case
  proof (cases "fr_ok r \<or> (case fr_status r of Some s \<Rightarrow> starts_with ''4'' (show_dec s) | None \<Rightarrow> False) \<or>
                RESUME_ENSURE_TIMEOUT \<le> t + fr_took r")
    case True
    then have "ensure_resumed env v t m = m1" by (subst ensure_resumed.simps) (auto simp: p)
    then show ?thesis using patch_vm_keeps [OF p] by simp
  next
    case False
    then have e: "ensure_resumed env v t m = ensure_resumed env v (t + fr_took r + RESUME_ENSURE_POLL) m1"
      by (subst ensure_resumed.simps) (simp add: p)
    show ?thesis unfolding e using IH False patch_vm_keeps [OF p] by (auto intro: keeps_guests_trans)
  qed
qed

lemma create_files_guests: "create_files env v m = (ok, m') \<Longrightarrow> mc_guests m' = mc_guests m"
  unfolding create_files_def by (auto split: prod.splits option.splits if_splits dest!: fc_callE)

text \<open>What the memory image is after an attempt: as before, torn, or the guest.\<close>

lemma create_files_frozen:
  "create_files env v m = (ok, m') \<Longrightarrow> mc_frozen m' \<in> {mc_frozen m, None, guest_of v m}"
  unfolding create_files_def guest_of_def by (auto split: prod.splits option.splits if_splits dest!: fc_callE)

lemma create_snapshot_inner_facts:
  assumes "create_snapshot_inner env v m = (ok, m')"
  shows "mc_guests m' = mc_guests m" "mc_frozen m' \<in> {mc_frozen m, None, guest_of v m}"
proof -
  obtain r m1 where p: "patch_vm env v pause_body m = (r, m1)" by fastforce
  obtain ok2 m2 where c: "create_files env v m1 = (ok2, m2)" by fastforce
  obtain r' m3 where q: "patch_vm env v resume_body m2 = (r', m3)" by fastforce
  have m1: "mc_guests m1 = mc_guests m" "mc_frozen m1 = mc_frozen m"
    using keeps_guestsD [OF conjunct1 [OF patch_vm_keeps [OF p]]] .
  have m3: "mc_guests m3 = mc_guests m2" "mc_frozen m3 = mc_frozen m2"
    using keeps_guestsD [OF conjunct1 [OF patch_vm_keeps [OF q]]] .
  have m2: "mc_guests m2 = mc_guests m" "mc_frozen m2 \<in> {mc_frozen m, None, guest_of v m}"
    using create_files_guests [OF c] create_files_frozen [OF c] m1 by (simp_all add: guest_of_def)
  consider "m' = m" | "m' = m1" | "m' = m2" | "m' = m3"
    using assms by (auto simp: create_snapshot_inner_def p c q split: if_splits bool.splits)
  then show "mc_guests m' = mc_guests m" "mc_frozen m' \<in> {mc_frozen m, None, guest_of v m}"
    by (cases, use m1 m2 m3 in simp_all)+
qed

lemma try_create_snapshot_facts:
  "mc_guests (try_create_snapshot env v m) = mc_guests m"
  "mc_frozen (try_create_snapshot env v m) \<in> {mc_frozen m, None, guest_of v m}"
proof -
  obtain ok m1 where c: "create_snapshot_inner env v m = (ok, m1)" by fastforce
  have k: "mc_guests (ensure_resumed env v 0 m1) = mc_guests m1" "mc_frozen (ensure_resumed env v 0 m1) = mc_frozen m1"
    using ensure_resumed_keeps [of m1 env v 0] by (simp_all add: keeps_guests_def)
  show "mc_guests (try_create_snapshot env v m) = mc_guests m"
    "mc_frozen (try_create_snapshot env v m) \<in> {mc_frozen m, None, guest_of v m}"
    using create_snapshot_inner_facts [OF c] k unfolding try_create_snapshot_def by (simp_all add: c)
qed

lemma first_snapshot_guests: "mc_guests (first_snapshot env v m) = mc_guests m"
  using try_create_snapshot_facts (1) [of env v m] by (simp add: first_snapshot_def Let_def)

lemma first_snapshot_none: "vm_is_workspace v \<or> vm_stateful v \<Longrightarrow> first_snapshot env v m = m"
  by (auto simp: first_snapshot_def should_snapshot_on_cold_boot_def)

lemma keep_port_keeps: "keeps_guests m (keep_port env a v p m)"
  by (simp add: keep_port_def)

section \<open>Boots\<close>

text \<open>What a successful cold boot returns.\<close>

lemma cold_bootE:
  assumes "cold_boot env a wc key alloc img eh decision disk m = (Inr v, m')"
  obtains v0 m1 m2 host_ip p where
    "bring_up env key (vm_tap_name v) (vm_link_slot v) m = (Inr (vm_child v, vm_fc_scope v, host_ip, vm_guest_ip v, vm_api_sock v), m1)"
    "configure_and_boot env a v0 host_ip disk m1 = (Inr (), m2)"
    "port_decided env (plan decision) v0 m2 = Some p" "v = v0\<lparr>vm_port := p\<rparr>"
    "m' = first_snapshot env v (keep_port env a v p m2)"
    "vm_is_workspace v = va_workspace a" "vm_cap_files v = va_cap_files a" "vm_stateful v = (disk \<noteq> None)"
    "vm_cache v = wc" "vm_image_ref v = img" "vm_env_hash v = eh"
proof -
  define b where "b = b3 (ve_link env)"
  define tap where "tap = (case alloc of Some l \<Rightarrow> la_tap_name l | None \<Rightarrow> fc_tap_name_for_key b key)"
  define s where "s = (case alloc of Some l \<Rightarrow> la_slot l | None \<Rightarrow> preferred_slot b key)"
  from assms obtain pd scope host_ip guest_ip sock m1 subnet where
    b1: "bring_up env key tap s m = (Inr (pd, scope, host_ip, guest_ip, sock), m1)"
    and f: "finish_boot env a (new_vm env a wc img eh decision disk tap s subnet pd scope guest_ip sock)
              host_ip (plan decision) disk m1 = (Inr v, m')"
    unfolding cold_boot_def Let_def b_def [symmetric] tap_def [symmetric] s_def [symmetric]
    by (auto split: if_splits sum.splits prod.splits)
  define v0 where "v0 = new_vm env a wc img eh decision disk tap s subnet pd scope guest_ip sock"
  from f obtain m2 p where c: "configure_and_boot env a v0 host_ip disk m1 = (Inr (), m2)"
    and p: "port_decided env (plan decision) v0 m2 = Some p"
    and res: "v = v0\<lparr>vm_port := p\<rparr>" "m' = first_snapshot env v (keep_port env a v p m2)"
    unfolding finish_boot_def v0_def [symmetric] Let_def by (auto split: sum.splits prod.splits option.splits)
  show thesis
    by (rule that [of host_ip m1 v0 m2 p]) (use b1 c p res in \<open>simp_all add: v0_def new_vm_def\<close>)
qed

lemma cold_boot_guest:
  assumes "cold_boot env a wc key alloc img eh decision disk m = (Inr v, m')"
  shows "guest_of v m' = Some (ve_boot env (va_cap_files a))"
proof -
  from assms obtain v0 m1 m2 host_ip p where *: "configure_and_boot env a v0 host_ip disk m1 = (Inr (), m2)"
    "v = v0\<lparr>vm_port := p\<rparr>" "m' = first_snapshot env v (keep_port env a v p m2)" "vm_cap_files v = va_cap_files a"
    by (rule cold_bootE)
  have "guest_of v m' = guest_of v0 m2"
    using keep_port_keeps [of m2 env a v p] by (simp add: * guest_of_def first_snapshot_guests keeps_guests_def)
  then show ?thesis using configure_and_boot_guest [OF * (1)] * (2,4) by simp
qed

lemma cold_boot_frozen:
  assumes "cold_boot env a wc key alloc img eh decision disk m = (Inr v, m')" "va_workspace a \<or> disk \<noteq> None"
  shows "mc_frozen m' = mc_frozen m"
proof -
  from assms (1) obtain v0 m1 m2 host_ip p where *:
    "bring_up env key (vm_tap_name v) (vm_link_slot v) m = (Inr (vm_child v, vm_fc_scope v, host_ip, vm_guest_ip v, vm_api_sock v), m1)"
    "configure_and_boot env a v0 host_ip disk m1 = (Inr (), m2)"
    "m' = first_snapshot env v (keep_port env a v p m2)" "vm_is_workspace v = va_workspace a" "vm_stateful v = (disk \<noteq> None)"
    by (rule cold_bootE)
  show ?thesis
    using bring_up_keeps [OF * (1)] configure_and_boot_frozen [OF * (2)] keep_port_keeps [of m2 env a v p] assms (2)
    by (simp add: * (3-5) first_snapshot_none keeps_guests_def)
qed

lemma drop_vm_frozen [simp]: "mc_frozen (drop_vm v m) = mc_frozen m"
  using drop_vm_keeps [of m v m] by (simp add: keeps_guests_def)

lemma cold_boot_failed_frozen:
  assumes "cold_boot env a wc key alloc img eh decision disk m = (Inl e, m')"
  shows "mc_frozen m' = mc_frozen m"
  using assms unfolding cold_boot_def finish_boot_def Let_def
  by (auto split: if_splits sum.splits prod.splits option.splits
      dest!: bring_up_keeps configure_and_boot_frozen keeps_guestsD (2))

section \<open>The broker\<close>

text \<open>What the program relies on of the broker in a workspace image: \<open>/init\<close> gives it the files baked into
  it, an accepted restore gives it the posted ones, an accepted scrub takes all of them.\<close>

definition broker_contract :: "'g vm_env \<Rightarrow> ('g \<Rightarrow> (string \<times> string) list) \<Rightarrow> bool" where
  "broker_contract env creds \<longleftrightarrow>
     (\<forall>caps. creds (ve_boot env caps) = caps) \<and>
     (\<forall>n g nonce files st body took g'.
        ve_broker env n g (Restore nonce files) = (Some (st, body), took, g') \<and> is_success st \<longrightarrow> creds g' = files) \<and>
     (\<forall>n g bearer st body took g'.
        ve_broker env n g (Scrub bearer) = (Some (st, body), took, g') \<and> is_success st \<longrightarrow> creds g' = [])"

lemma broker_callE:
  assumes "broker_call env v req m = ((Some answer, took), m')"
  obtains g g' where "guest_of v m = Some g" "reachable v m"
    "ve_broker env (length (mc_calls m)) g req = (Some answer, took, g')" "guest_of v m' = Some g'"
  using assms unfolding broker_call_def guest_of_def Let_def
  by (auto simp: set_guest_def update_conv' split: option.splits if_splits prod.splits)

lemma broker_call_frozen: "broker_call env v req m = (r, m') \<Longrightarrow> mc_frozen m' = mc_frozen m"
  unfolding broker_call_def Let_def by (auto simp: set_guest_def split: option.splits if_splits prod.splits)

lemma replumb_creds_holds:
  assumes "broker_contract env creds" "replumb_creds env v nonce t m = (True, m')"
  shows "\<exists>g. guest_of v m' = Some g \<and> creds g = vm_cap_files v"
  using assms
proof (induction env v nonce t m rule: replumb_creds.induct)
  case (1 env v nonce t m)
  obtain answer took m1 where c: "broker_call env v (Restore nonce (vm_cap_files v)) m = ((answer, took), m1)"
    by (metis prod.exhaust)
  show ?case
  proof (cases "\<exists>st body. answer = Some (st, body) \<and> is_success st")
    case True
    then obtain st body where a: "answer = Some (st, body)" "is_success st" by blast
    have m': "m' = m1" using "1.prems" (2) by (subst (asm) replumb_creds.simps) (simp add: c a)
    obtain g g' where "ve_broker env (length (mc_calls m)) g (Restore nonce (vm_cap_files v)) = (Some (st, body), took, g')"
      "guest_of v m1 = Some g'"
      using c unfolding a (1) by (rule broker_callE)
    moreover from this (1) a (2) have "creds g' = vm_cap_files v"
      using "1.prems" (1) unfolding broker_contract_def by blast
    ultimately show ?thesis by (simp add: m')
  next
    case False
    then have no: "\<not> (case answer of Some (st, _) \<Rightarrow> is_success st | None \<Rightarrow> False)" by (auto split: option.splits)
    have again: "\<not> (case answer of Some (st, _) \<Rightarrow> st \<in> {400, 401, 403, 404, 405} | None \<Rightarrow> False)"
      "\<not> REPLUMB_BUDGET \<le> t + took"
      "replumb_creds env v nonce (t + took + min REPLUMB_POLL (REPLUMB_BUDGET - (t + took))) m1 = (True, m')"
      using "1.prems" (2) no by (subst (asm) replumb_creds.simps, simp add: c split: if_splits)+
    show ?thesis by (rule "1.IH" [OF c [symmetric] refl no again (1,2) "1.prems" (1) again (3)])
  qed
qed

lemma replumb_creds_frozen: "replumb_creds env v nonce t m = (ok, m') \<Longrightarrow> mc_frozen m' = mc_frozen m"
proof (induction env v nonce t m rule: replumb_creds.induct)
  case (1 env v nonce t m)
  obtain answer took m1 where c: "broker_call env v (Restore nonce (vm_cap_files v)) m = ((answer, took), m1)"
    by (metis prod.exhaust)
  have f: "mc_frozen m1 = mc_frozen m" using broker_call_frozen [OF c] .
  show ?case
    using "1.prems" "1.IH" [OF c [symmetric] refl] f
    by (subst (asm) replumb_creds.simps) (auto simp: c split: if_splits)
qed

section \<open>The warm restore\<close>

lemma load_snapshot_frozen: "load_snapshot env v m = (ok, m') \<Longrightarrow> mc_frozen m' = mc_frozen m"
  unfolding load_snapshot_def by (auto simp: set_guest_def split: prod.splits option.splits if_splits dest!: fc_callE)

lemma launch_from_snapshot_frozen:
  "launch_from_snapshot env a key alloc p src stateful token needs m = (r, m') \<Longrightarrow> mc_frozen m' = mc_frozen m"
  unfolding launch_from_snapshot_def Let_def
  by (auto split: if_splits sum.splits prod.splits option.splits bool.splits
      dest!: stale_reap_keeps bring_up_keeps keeps_guestsD (2) load_snapshot_frozen replumb_creds_frozen)

lemma launch_from_snapshot_creds:
  assumes "broker_contract env creds"
    "launch_from_snapshot env a key alloc p src stateful token True m = (Inr v, m')"
  shows "\<exists>g. guest_of v m' = Some g \<and> creds g = va_cap_files a"
proof -
  from assms (2) obtain tok m3 where *: "replumb_creds env v tok 0 m3 = (True, m')" "vm_cap_files v = va_cap_files a"
    unfolding launch_from_snapshot_def Let_def
    by (auto split: if_splits sum.splits prod.splits option.splits bool.splits)
  show ?thesis using replumb_creds_holds [OF assms (1) * (1)] by (simp add: * (2))
qed

lemma launch_from_snapshot_stateful: "\<exists>e. launch_from_snapshot env a key alloc p src True token needs m = (Inl e, m)"
  by (simp add: launch_from_snapshot_def)

section \<open>The launch\<close>

lemma start_cold_facts:
  "start_cold env a key alloc decision disk m = (Inr v, m') \<Longrightarrow> guest_of v m' = Some (ve_boot env (va_cap_files a))"
  "start_cold env a key alloc decision disk m = (r, m') \<Longrightarrow> va_workspace a \<or> disk \<noteq> None \<Longrightarrow>
     mc_frozen m' = mc_frozen m"
  unfolding start_cold_def by (auto dest: cold_boot_guest) (cases r; auto dest: cold_boot_failed_frozen cold_boot_frozen)+

lemma start_cold_vm:
  assumes "start_cold env a key alloc decision disk m = (Inr v, m')"
  shows "vm_stateful v = (disk \<noteq> None)" "vm_is_workspace v = va_workspace a" "vm_cap_files v = va_cap_files a"
  using assms unfolding start_cold_def by (blast elim: cold_bootE)+

lemma choose_needs [simp]: "wc_needs_restore (choose_start a alloc stateful c) = (va_workspace a \<and> va_cap_files a \<noteq> [])"
  by (simp add: choose_start_def Let_def needs_cred_restore_def)

lemma choose_stateful [simp]: "\<not> wc_viable (choose_start a alloc True c)"
  by (simp add: choose_start_def Let_def stateful_launch_gate_def)

text \<open>A launch that is not a swap boots cold, or restores what the decision allows.\<close>

lemma start_cases:
  assumes "start env a key alloc persisted disk m = (r, m')"
  obtains (cold) m1 decision where "start_cold env a key alloc decision disk m1 = (r, m')" "mc_frozen m1 = mc_frozen m"
  | (warm) v p src m1 where "r = Inr v" "wc_viable (choose_start a alloc (disk \<noteq> None) (mc_cache m))"
      "launch_from_snapshot env a key alloc p src (disk \<noteq> None) (wc_token (choose_start a alloc (disk \<noteq> None) (mc_cache m)))
         (wc_needs_restore (choose_start a alloc (disk \<noteq> None) (mc_cache m))) m1 = (r, m')" "mc_frozen m1 = mc_frozen m"
proof (cases "wc_viable (choose_start a alloc (disk \<noteq> None) (mc_cache m))")
  case False
  define ch where "ch = choose_start a alloc (disk \<noteq> None) (mc_cache m)"
  define m0 where "m0 = (if wc_cleared ch then on_cache (clear (ve_clear env)) m else m)"
  define m1 where "m1 = (if files_present (mc_cache m0) \<and> \<not> wc_diagnosed ch then on_cache (clear (ve_clear env)) m0 else m0)"
  have "start_cold env a key alloc (resolve_port_plan (va_workspace a) (va_rt a) (va_ports a) persisted (ve_cfg env))
      disk m1 = (r, m')"
    using assms unfolding start_def Let_def m1_def m0_def ch_def by (simp only: if_not_P [OF False])
  moreover have "mc_frozen m1 = mc_frozen m" by (simp add: m1_def m0_def)
  ultimately show thesis by (rule cold)
next
  case True
  define ch where "ch = choose_start a alloc (disk \<noteq> None) (mc_cache m)"
  define m1 where "m1 = (if wc_cleared ch then on_cache (clear (ve_clear env)) m else m)"
  have f1: "mc_frozen m1 = mc_frozen m" by (simp add: m1_def)
  obtain w m2 where w: "launch_from_snapshot env a key alloc (restore_port env a persisted)
      (restore_port_source (va_workspace a) (va_rt a) (va_ports a) persisted) (disk \<noteq> None) (wc_token ch) (wc_needs_restore ch) m1
      = (w, m2)" by fastforce
  have f2: "mc_frozen m2 = mc_frozen m" using launch_from_snapshot_frozen [OF w] f1 by simp
  show thesis
  proof (cases w)
    case (Inl e)
    show thesis
      by (rule cold [of "resolve_port_plan (va_workspace a) (va_rt a) (va_ports a) persisted (ve_cfg env)"
            "on_cache (clear (ve_clear env)) m2"])
        (use assms True w Inl f2 in \<open>simp_all add: start_def Let_def ch_def m1_def\<close>)
  next
    case (Inr v)
    have r: "r = Inr v" "m' = m2" using assms True w Inr by (simp_all add: start_def Let_def ch_def m1_def)
    show thesis by (rule warm [OF r (1) True _ f1]) (use w Inr in \<open>simp add: r ch_def\<close>)
  qed
qed

text \<open>A launch stops before the boot, or ends as the boot does.\<close>

lemma launch_cases:
  assumes "launch_with_uuid env a m = (r, m')"
  obtains (refused) e where "r = Inl e" "mc_frozen m' = mc_frozen m"
  | (booted) alloc m1 r3 m3 where
      "if va_is_swap a
       then \<exists>decision. start_cold env a (deploy_key (va_uuid a) (va_reff a)) alloc decision
              (stateful_data_disk (va_data_dir a) (va_uuid a) (va_rt a)) m1 = (r3, m3)
       else \<exists>persisted. start env a (deploy_key (va_uuid a) (va_reff a)) alloc persisted
              (stateful_data_disk (va_data_dir a) (va_uuid a) (va_rt a)) m1 = (r3, m3)"
      "mc_frozen m1 = mc_frozen m" "keeps_guests m3 m'" "\<And>v. r = Inr v \<Longrightarrow> r3 = Inr v"
      "\<exists>x y. acquire_link env (va_uuid a) (deploy_key (va_uuid a) (va_reff a)) x = (Inr alloc, y)"
proof -
  define key where "key = deploy_key (va_uuid a) (va_reff a)"
  define disk where "disk = stateful_data_disk (va_data_dir a) (va_uuid a) (va_rt a)"
  obtain r1 m1 where 1: "(if va_is_swap a then (Inr (), m)
      else reap_stale_fc_for_vm_key env (va_data_dir a) (va_uuid a) key m) = (r1, m1)" by fastforce
  have f1: "mc_frozen m1 = mc_frozen m" using 1 by (auto split: if_splits dest!: stale_reap_keeps keeps_guestsD (2))
  show thesis
  proof (cases r1)
    case (Inl e)
    show thesis
      by (rule refused [of e]) (use assms 1 Inl f1 in \<open>simp_all add: launch_with_uuid_def key_def [symmetric] Let_def\<close>)
  next
    case r1: (Inr u)
    obtain r2 m2 where 2: "acquire_link env (va_uuid a) key m1 = (r2, m2)" by fastforce
    have f2: "mc_frozen m2 = mc_frozen m" using acquire_link_keeps [OF 2] f1 by (simp add: keeps_guests_def)
    show thesis
    proof (cases r2)
      case (Inl e)
      show thesis
        by (rule refused [of "BadLink e"])
          (use assms 1 2 r1 Inl f2 in \<open>simp_all add: launch_with_uuid_def key_def [symmetric] Let_def\<close>)
    next
      case r2: (Inr alloc)
      define persisted where "persisted = read_app_port (mc_cache m2)"
      define decision where
        "decision = resolve_port_plan (va_workspace a) (va_rt a) (va_ports a) persisted (ve_cfg env)"
      define m2' where "m2' = (if va_is_swap a then on_cache (clear (ve_clear env)) m2 else m2)"
      obtain r3 m3 where 3: "(if va_is_swap a then start_cold env a key alloc decision disk m2'
          else start env a key alloc persisted disk m2') = (r3, m3)" by fastforce
      have f3: "mc_frozen m2' = mc_frozen m" using f2 by (simp add: m2'_def)
      have end_: "(case r3 of
            Inl e \<Rightarrow> (Inl e, snd (release_claim env key m3))
          | Inr v \<Rightarrow>
              (case release_claim env key m3 of
                 (Inl e, m4) \<Rightarrow> (Inl (BadLink e), drop_vm v m4)
               | (Inr _, m4) \<Rightarrow>
                   (Inr v, on_host (pidfile_write (ve_pidfile_write env) (va_data_dir a) (va_uuid a) (vm_child v)) m4)))
        = (r, m')"
        using assms 1 2 3 r1 r2
        unfolding launch_with_uuid_def key_def [symmetric] disk_def [symmetric] Let_def decision_def persisted_def
        by (cases r3) (simp_all add: m2'_def split: if_splits)
      have keeps: "keeps_guests m3 m'"
        using end_ release_claim_keeps [of m3 env key m3] by (auto split: sum.splits prod.splits)
      have res: "r3 = Inr v" if "r = Inr v" for v using end_ that by (auto split: sum.splits prod.splits)
      show thesis
        by (rule booted [of alloc m2' r3 m3])
          (use 2 r2 3 f3 keeps res in \<open>auto simp: key_def disk_def split: if_splits\<close>)
    qed
  qed
qed


section \<open>No snapshot holds a credential\<close>

text \<open>The memory image on disk, if there is a whole one, is of a guest without credentials.\<close>

definition sealed :: "('g \<Rightarrow> (string \<times> string) list) \<Rightarrow> 'g machine \<Rightarrow> bool" where
  "sealed creds m \<longleftrightarrow> (\<forall>g. mc_frozen m = Some g \<longrightarrow> creds g = [])"

lemma launch_frozen:
  assumes "launch_with_uuid env a m = (r, m')" "va_workspace a \<or> rt_stateful (va_rt a)"
  shows "mc_frozen m' = mc_frozen m"
  using assms (1)
proof (cases rule: launch_cases)
  case (booted alloc m1 r3 m3)
  have d: "va_workspace a \<or> stateful_data_disk (va_data_dir a) (va_uuid a) (va_rt a) \<noteq> None"
    using assms (2) by (auto simp: stateful_data_disk_def)
  have "mc_frozen m3 = mc_frozen m1"
  proof (cases "va_is_swap a")
    case True
    then obtain decision where "start_cold env a (deploy_key (va_uuid a) (va_reff a)) alloc decision
        (stateful_data_disk (va_data_dir a) (va_uuid a) (va_rt a)) m1 = (r3, m3)"
      using booted (1) by auto
    then show ?thesis using d by (rule start_cold_facts (2))
  next
    case False
    then obtain persisted where "start env a (deploy_key (va_uuid a) (va_reff a)) alloc persisted
        (stateful_data_disk (va_data_dir a) (va_uuid a) (va_rt a)) m1 = (r3, m3)"
      using booted (1) by auto
    then show ?thesis
    proof (cases rule: start_cases)
      case (cold m2 decision)
      then show ?thesis using start_cold_facts (2) d by metis
    next
      case (warm v' p src m2)
      then show ?thesis using launch_from_snapshot_frozen by metis
    qed
  qed
  then show ?thesis using booted (2,3) by (simp add: keeps_guests_def)
qed

lemma pre_snapshot_scrub_empties:
  assumes "broker_contract env creds" "pre_snapshot_scrub env v m = (Inr nonce, m')" "vm_is_workspace v"
  shows "\<exists>g. guest_of v m' = Some g \<and> creds g = []"
proof -
  obtain answer took m1 where c: "broker_call env v (Scrub (authkeys_cap_value (vm_cap_files v))) m = ((answer, took), m1)"
    by (metis prod.exhaust)
  from assms (2,3) obtain st body where a: "answer = Some (st, body)" "is_success st" "m' = m1"
    by (auto simp: pre_snapshot_scrub_def must_scrub_before_snapshot_def c split: option.splits if_splits)
  obtain g g' where "ve_broker env (length (mc_calls m)) g (Scrub (authkeys_cap_value (vm_cap_files v))) =
      (Some (st, body), took, g')" "guest_of v m1 = Some g'"
    using c unfolding a (1) by (rule broker_callE)
  moreover from this (1) a (2) have "creds g' = []"
    using assms (1) unfolding broker_contract_def by blast
  ultimately show ?thesis by (simp add: a (3))
qed

lemma pre_snapshot_scrub_frozen: "pre_snapshot_scrub env v m = (r, m') \<Longrightarrow> mc_frozen m' = mc_frozen m"
  unfolding pre_snapshot_scrub_def by (auto split: if_splits option.splits prod.splits dest!: broker_call_frozen)

lemma probe_restore_frozen: "probe_restore_capability env v m = (ok, m') \<Longrightarrow> mc_frozen m' = mc_frozen m"
  unfolding probe_restore_capability_def by (auto split: option.splits prod.splits dest!: broker_call_frozen)

lemma bracket_frozen:
  assumes "bracket env v needs nonce m = (r, m')"
  shows "mc_frozen m' \<in> {mc_frozen m, None, guest_of v m}"
proof -
  define m1 where "m1 = (if needs then on_cache (write_restore_token env (the nonce)) m else m)"
  define m2 where "m2 = try_create_snapshot env v m1"
  obtain ok m3 where p: "(if needs then replumb_creds env v (the nonce) 0 m2 else (True, m2)) = (ok, m3)" by fastforce
  have "mc_frozen m2 \<in> {mc_frozen m, None, guest_of v m}"
    using try_create_snapshot_facts (2) [of env v m1] unfolding m2_def by (auto simp: m1_def guest_of_def)
  moreover have "mc_frozen m3 = mc_frozen m2" using p by (auto split: if_splits dest: replumb_creds_frozen)
  moreover have "mc_frozen m' = mc_frozen m3"
    using assms p unfolding bracket_def Let_def m1_def [symmetric] m2_def [symmetric] by (auto split: if_splits)
  ultimately show ?thesis by simp
qed


section \<open>Stateful apps, and what is restored\<close>

text \<open>C10: A stateful app always boots cold. Whatever snapshot lies in its cache directory, a legacy one that
  matches image, environment and link included, a launch of an app with a persistent disk runs a guest
  booted from its root file system, never one restored from memory; and neither the launch nor a refresh
  command writes a memory image for it.\<close>

theorem stateful_apps_boot_cold:
  assumes "rt_stateful (va_rt a)" "launch_with_uuid env a m = (Inr v, m')"
  shows "guest_of v m' = Some (ve_boot env (va_cap_files a)) \<and> mc_frozen m' = mc_frozen m \<and>
    snapshot_vm env v m' = (Inl StatefulSnapshot, m')"
proof -
  have f: "mc_frozen m' = mc_frozen m" using launch_frozen [OF assms (2)] assms (1) by simp
  have d: "stateful_data_disk (va_data_dir a) (va_uuid a) (va_rt a) \<noteq> None"
    using assms (1) by (simp add: stateful_data_disk_def)
  have "guest_of v m' = Some (ve_boot env (va_cap_files a)) \<and> vm_stateful v"
    using assms (2)
  proof (cases rule: launch_cases)
    case (booted alloc m1 r3 m3)
    have r3: "r3 = Inr v" by (rule booted (4)) simp
    have "guest_of v m3 = Some (ve_boot env (va_cap_files a)) \<and> vm_stateful v"
    proof (cases "va_is_swap a")
      case True
      then show ?thesis using booted (1) start_cold_facts (1) start_cold_vm (1) d unfolding r3 by fastforce
    next
      case False
      then obtain persisted where "start env a (deploy_key (va_uuid a) (va_reff a)) alloc persisted
          (stateful_data_disk (va_data_dir a) (va_uuid a) (va_rt a)) m1 = (Inr v, m3)"
        using booted (1) unfolding r3 by auto
      then show ?thesis
      proof (cases rule: start_cases)
        case (cold m2 decision)
        then show ?thesis using start_cold_facts (1) start_cold_vm (1) d by fastforce
      next
        case (warm v' p src m2)
        then show ?thesis using d by simp
      qed
    qed
    then show ?thesis using guest_of_keeps [OF booted (3)] by simp
  qed simp
  then show ?thesis using f by (simp add: snapshot_vm_def)
qed

section \<open>Waiting is bounded\<close>

lemma poll_ready_ends:
  assumes "\<And>n. snd (poll n) \<le> READY_POLL" "t \<le> deadline"
  shows "snd (poll_ready poll deadline n t) \<le> deadline + READY_POLL"
  using assms
proof (induction poll deadline n t rule: poll_ready.induct)
  case (1 poll deadline n t)
  obtain answered took where p: "poll n = (answered, took)" by fastforce
  have took: "took \<le> READY_POLL" using "1.prems" (1) [of n] by (simp add: p)
  show ?case
  proof (cases "answered \<or> deadline \<le> t + took")
    case True
    then show ?thesis using took "1.prems" (2) by (subst poll_ready.simps) (auto simp: p)
  next
    case False
    then have e: "poll_ready poll deadline n t =
        poll_ready poll deadline (Suc n) (t + took + min (backoff n) (deadline - (t + took)))"
      by (subst poll_ready.simps) (simp add: p)
    show ?thesis unfolding e
      by (rule "1.IH" [OF p [symmetric]]) (use False "1.prems" (1) in auto)
  qed
qed

text \<open>A guest that never answers is found out, whatever the number of candidate ports; one that answers
  some poll before the deadline is found.\<close>

lemma poll_ready_answer:
  "fst (poll_ready poll deadline n t) \<Longrightarrow> \<exists>k\<ge>n. fst (poll k)"
proof (induction poll deadline n t rule: poll_ready.induct)
  case (1 poll deadline n t)
  obtain answered took where p: "poll n = (answered, took)" by fastforce
  show ?case
  proof (cases answered)
    case True
    then show ?thesis using p by (intro exI [of _ n]) simp
  next
    case False
    then have "t + took < deadline" and
      "fst (poll_ready poll deadline (Suc n) (t + took + min (backoff n) (deadline - (t + took))))"
      using "1.prems" by (subst (asm) poll_ready.simps, simp add: p split: if_splits)+
    then obtain k where "k \<ge> Suc n" "fst (poll k)" using "1.IH" [OF p [symmetric] False] by blast
    then show ?thesis by (intro exI [of _ k]) simp
  qed
qed

lemma earliest_in: "earliest at xs = Some x \<Longrightarrow> x \<in> set xs"
proof -
  have f: "fold (\<lambda>y best. if at y < at best then y else best) ys z \<in> insert z (set ys)" for ys z
    by (induction ys arbitrary: z) auto
  show "earliest at xs = Some x \<Longrightarrow> x \<in> set xs" using f by (auto simp: earliest_def split: list.splits)
qed

lemma earliest_le:
  assumes "earliest at xs = Some x" "y \<in> set xs"
  shows "at x \<le> at y"
proof -
  have f: "at (fold (\<lambda>y best. if at y < at best then y else best) ys z) \<le> at z \<and>
      (\<forall>y \<in> set ys. at (fold (\<lambda>y best. if at y < at best then y else best) ys z) \<le> at y)" for ys z
  proof (induction ys arbitrary: z)
    case (Cons w ys)
    show ?case using Cons.IH [of "if at w < at z then w else z"] by (auto split: if_splits)
  qed simp
  show ?thesis using assms f by (auto simp: earliest_def split: list.splits)
qed

end
