(* ===== verification/MicroVmSwap.thy ===== *)
theory MicroVmSwap
  imports MicroVmLaws
begin

text \<open>
  Two machines of one app on one host: a launch touches nothing of another machine whose process, TAP,
  socket and scope have other names, and what a launch that fails leaves behind.
\<close>

section \<open>A machine that stands\<close>

text \<open>The process of the machine with its scope, its TAP, its socket, its running guest.\<close>

definition stands :: "vm \<Rightarrow> proc \<Rightarrow> 'g \<Rightarrow> 'g machine \<Rightarrow> bool" where
  "stands v p g m \<longleftrightarrow>
     find_proc (mc_host m) (vm_child v) = Some p \<and> vm_tap_name v \<in> set (taps (mc_host m)) \<and>
     map_of (mc_socks m) (vm_api_sock v) = Some (vm_child v) \<and> guest_of v m = Some g \<and>
     vm_child v \<notin> set (mc_paused m)"

text \<open>Names that are not the machine's.\<close>

definition apart :: "vm \<Rightarrow> proc \<Rightarrow> u32 \<Rightarrow> string \<Rightarrow> string \<Rightarrow> string option \<Rightarrow> bool" where
  "apart v p pd tap sock scope \<longleftrightarrow>
     vm_child v \<noteq> pd \<and> vm_tap_name v \<noteq> tap \<and> vm_api_sock v \<noteq> sock \<and> (scope \<noteq> None \<longrightarrow> in_scope p \<noteq> scope)"

lemma stands_on [simp]:
  "stands v p g (on_cache f m) = stands v p g m" "stands v p g (m\<lparr>mc_links := l\<rparr>) = stands v p g m"
  "stands v p g (m\<lparr>mc_addrs := x\<rparr>) = stands v p g m" "stands v p g (m\<lparr>mc_calls := c\<rparr>) = stands v p g m"
  "stands v p g (m\<lparr>mc_frozen := fr\<rparr>) = stands v p g m"
  by (simp_all add: stands_def guest_of_def)

lemma map_of_filter_kept: "map_of xs k = Some v \<Longrightarrow> P (k, v) \<Longrightarrow> map_of (filter P xs) k = Some v"
  by (induction xs) (auto split: if_splits)

lemma stands_host:
  assumes "stands v p g m" "find_proc (f (mc_host m)) (vm_child v) = find_proc (mc_host m) (vm_child v)"
    "vm_tap_name v \<in> set (taps (mc_host m)) \<Longrightarrow> vm_tap_name v \<in> set (taps (f (mc_host m)))"
  shows "stands v p g (on_host f m)"
  using assms by (simp add: stands_def guest_of_def)

lemma stands_delete_tap:
  "stands v p g m \<Longrightarrow> vm_tap_name v \<noteq> tap \<Longrightarrow> stands v p g (on_host (delete_fc_tap tap) m)"
  by (rule stands_host) (simp_all add: delete_fc_tap_def find_proc_def)

lemma stands_remove_pid:
  "stands v p g m \<Longrightarrow> vm_child v \<noteq> pd \<Longrightarrow> stands v p g (on_host (remove_pid pd) m)"
  by (rule stands_host) (auto simp: remove_pid_def find_proc_def stands_def intro!: map_of_filter_kept)

lemma stands_stop_scope:
  assumes "stands v p g m" "scope \<noteq> None \<longrightarrow> in_scope p \<noteq> scope"
  shows "stands v p g (stop_scope scope m)"
proof (cases scope)
  case (Some sc)
  have "stands v p g (on_host (snd \<circ> stop_fc_scope sc) m)"
    by (rule stands_host [OF assms (1)])
      (use assms Some in \<open>auto simp: stop_fc_scope_def find_proc_def stands_def Let_def intro!: map_of_filter_kept\<close>)
  then show ?thesis by (simp add: stop_scope_def Some)
qed (use assms in \<open>simp add: stop_scope_def\<close>)

lemma stands_remove_sock: "stands v p g m \<Longrightarrow> vm_api_sock v \<noteq> sock \<Longrightarrow> stands v p g (remove_sock sock m)"
  by (auto simp: stands_def remove_sock_def guest_of_def intro!: map_of_filter_kept)

lemma stands_setup_tap:
  "setup_tap env tap s m = (ok, m') \<Longrightarrow> stands v p g m \<Longrightarrow> stands v p g m'"
  by (auto simp: setup_tap_def Let_def stands_def find_proc_def guest_of_def split: if_splits)

lemma stands_spawn:
  assumes "spawn_firecracker env i sock m = (r, m')" "stands v p g m" "vm_api_sock v \<noteq> sock"
    "\<And>n. ve_spawn env n \<noteq> Some (vm_child v)"
  shows "stands v p g m'"
  using assms unfolding spawn_firecracker_def Let_def
  by (auto simp: stands_def find_proc_def guest_of_def split: option.splits if_splits)

lemma stands_set_guest: "stands v p g m \<Longrightarrow> vm_child v \<noteq> vm_child w \<Longrightarrow> stands v p g (set_guest w g' m)"
  by (simp add: stands_def set_guest_def guest_of_def update_conv')

lemma stands_fc_call: "fc_call env verb path body sock m = (r, m') \<Longrightarrow> stands v p g m' = stands v p g m"
  by (auto dest!: fc_callE)

lemma stands_drop:
  assumes "stands v p g m" "apart v p (vm_child w) (vm_tap_name w) (vm_api_sock w) (vm_fc_scope w)"
  shows "stands v p g (drop_vm w m)"
  using assms unfolding drop_vm_def apart_def
  by (intro stands_delete_tap stands_remove_sock stands_stop_scope stands_remove_pid) auto

lemma stands_patch:
  "patch_vm env w body m = (r, m') \<Longrightarrow> vm_child v \<noteq> vm_child w \<Longrightarrow> stands v p g m \<Longrightarrow> stands v p g m'"
  unfolding patch_vm_def
  by (auto simp: stands_def guest_of_def pause_def unpause_def split: prod.splits if_splits dest!: fc_callE)

lemma stands_ensure_resumed:
  "vm_child v \<noteq> vm_child w \<Longrightarrow> stands v p g m \<Longrightarrow> stands v p g (ensure_resumed env w t m)"
proof (induction env w t m rule: ensure_resumed.induct)
  case (1 env w t m)
  obtain r m1 where q: "patch_vm env w resume_body m = (r, m1)" by fastforce
  have s: "stands v p g m1" using stands_patch [OF q] "1.prems" by blast
  show ?case using "1.IH" [OF q [symmetric]] "1.prems" (1) s by (subst ensure_resumed.simps) (simp add: q)
qed

lemma stands_create_files:
  assumes "create_files env w m = (ok, m')" "stands v p g m"
  shows "stands v p g m'"
  using assms unfolding create_files_def
  by (auto simp: stands_fc_call split: prod.splits option.splits if_splits dest!: fc_callE)

lemma stands_try_create:
  assumes "stands v p g m" "vm_child v \<noteq> vm_child w"
  shows "stands v p g (try_create_snapshot env w m)"
proof -
  obtain ok m1 where c: "create_snapshot_inner env w m = (ok, m1)" by fastforce
  have "stands v p g m1"
    using c assms unfolding create_snapshot_inner_def
    by (auto split: if_splits prod.splits bool.splits dest: stands_patch stands_create_files)
  then show ?thesis using assms (2) unfolding try_create_snapshot_def c by (simp add: stands_ensure_resumed)
qed

lemma stands_first_snapshot:
  "stands v p g m \<Longrightarrow> vm_child v \<noteq> vm_child w \<Longrightarrow> stands v p g (first_snapshot env w m)"
  by (auto simp: first_snapshot_def Let_def stands_try_create)

lemma stands_keep_port: "stands v p g m \<Longrightarrow> stands v p g (keep_port env a w port m)"
  by (simp add: keep_port_def)

lemma stands_run_steps:
  "run_steps env w steps m = (r, m') \<Longrightarrow> vm_child v \<noteq> vm_child w \<Longrightarrow> stands v p g m \<Longrightarrow> stands v p g m'"
proof (induction env w steps m arbitrary: r m' rule: run_steps.induct)
  case (3 env w path body steps m)
  obtain rr m1 where c: "fc_call env ''PUT'' path body (vm_api_sock w) m = (rr, m1)" by fastforce
  have s: "stands v p g m1" using stands_fc_call [OF c] "3.prems" by simp
  show ?case using "3.prems" (1,2) "3.IH" [OF c [symmetric] refl] s
    by (auto simp: c Let_def stands_set_guest split: if_splits)
qed (auto split: if_splits)

lemma stands_configure:
  "configure_and_boot env a w host_ip disk m = (r, m') \<Longrightarrow> vm_child v \<noteq> vm_child w \<Longrightarrow> stands v p g m \<Longrightarrow> stands v p g m'"
  unfolding configure_and_boot_def by (auto split: if_splits dest: stands_run_steps)

section \<open>A boot beside a machine\<close>

text \<open>What a boot under a key calls its own.\<close>

definition scope_for :: "'g vm_env \<Rightarrow> host \<Rightarrow> string \<Rightarrow> string option" where
  "scope_for env h key =
     (if should_wrap (ve_systemd_run env) (has_systemd h) then Some (scope_name key) else None)"

definition clear_of :: "'g vm_env \<Rightarrow> string \<Rightarrow> string \<Rightarrow> vm \<Rightarrow> proc \<Rightarrow> bool" where
  "clear_of env key tap v p \<longleftrightarrow>
     (\<forall>n. ve_spawn env n \<noteq> Some (vm_child v)) \<and> vm_tap_name v \<noteq> tap \<and>
     vm_api_sock v \<noteq> tap_sock tap \<and> in_scope p \<noteq> Some (scope_name key)"

lemma spawn_names:
  assumes "spawn_firecracker env i sock m = (Inr (pd, scope), m')"
  shows "ve_spawn env (length (mc_calls m)) = Some pd" "scope = scope_for env (mc_host m) i"
  using assms unfolding spawn_firecracker_def Let_def scope_for_def by (auto split: option.splits if_splits)

lemma bring_up_names:
  assumes "bring_up env key tap s m = (Inr (pd, scope, host_ip, guest_ip, sock), m')"
  shows "sock = tap_sock tap" "\<exists>n. ve_spawn env n = Some pd"
    "scope = None \<or> scope = Some (scope_name key)"
proof -
  define sk where "sk = tap_sock tap"
  obtain ok m1 where 1: "setup_tap env tap s (on_host (delete_fc_tap tap) m) = (ok, m1)" by fastforce
  obtain r2 m2 where 2: "spawn_firecracker env key sk (remove_sock sk m1) = (r2, m2)" by fastforce
  have "ok \<and> r2 = Inr (pd, scope) \<and> sock = sk \<and> m' = m2"
    using assms unfolding bring_up_def Let_def sk_def [symmetric] 1
    by (cases ok; cases r2) (auto simp: 2 split: sum.splits)
  then have sp: "spawn_firecracker env key sock (remove_sock sk m1) = (Inr (pd, scope), m')"
    and sock: "sock = tap_sock tap"
    using 2 by (simp_all add: sk_def)
  show "sock = tap_sock tap" by (fact sock)
  show "\<exists>n. ve_spawn env n = Some pd" "scope = None \<or> scope = Some (scope_name key)"
    using spawn_names [OF sp] by (auto simp: scope_for_def)
qed

lemma stands_bring_up:
  assumes "bring_up env key tap s m = (r, m')" "stands v p g m" "clear_of env key tap v p"
  shows "stands v p g m'"
proof -
  define sock where "sock = tap_sock tap"
  define m0 where "m0 = on_host (delete_fc_tap tap) m"
  have 0: "stands v p g m0" using assms (2,3) by (simp add: m0_def stands_delete_tap clear_of_def)
  obtain ok m1 where 1: "setup_tap env tap s m0 = (ok, m1)" by fastforce
  have s1: "stands v p g m1" by (rule stands_setup_tap [OF 1 0])
  have s1': "stands v p g (remove_sock sock m1)"
    using s1 assms (3) by (intro stands_remove_sock) (simp_all add: clear_of_def sock_def)
  obtain r2 m2 where 2: "spawn_firecracker env key sock (remove_sock sock m1) = (r2, m2)" by fastforce
  have s2: "stands v p g m2"
    by (rule stands_spawn [OF 2 s1']) (use assms (3) in \<open>auto simp: clear_of_def sock_def\<close>)
  consider "m' = m" | "m' = m1" | "m' = m2"
    using assms (1) unfolding bring_up_def Let_def sock_def [symmetric] m0_def [symmetric]
    by (auto simp: 1 2 split: sum.splits bool.splits)
  then show ?thesis by cases (use assms (2) s1 s2 in simp_all)
qed

lemma stands_finish_boot:
  assumes "finish_boot env a w host_ip pl disk m = (r, m')" "stands v p g m"
    "apart v p (vm_child w) (vm_tap_name w) (vm_api_sock w) (vm_fc_scope w)"
  shows "stands v p g m'"
proof -
  obtain c m1 where c: "configure_and_boot env a w host_ip disk m = (c, m1)" by fastforce
  have ch: "vm_child v \<noteq> vm_child w" using assms (3) by (simp add: apart_def)
  have s1: "stands v p g m1" by (rule stands_configure [OF c ch assms (2)])
  show ?thesis
    using assms (1,3) s1 ch unfolding finish_boot_def c
    by (auto simp: Let_def split: sum.splits option.splits
        intro!: stands_drop stands_first_snapshot stands_keep_port)
qed

lemma stands_cold_boot:
  assumes "cold_boot env a wc key alloc img eh decision disk m = (r, m')" "stands v p g m"
    "clear_of env key (case alloc of Some l \<Rightarrow> la_tap_name l | None \<Rightarrow> fc_tap_name_for_key (b3 (ve_link env)) key) v p"
  shows "stands v p g m'"
proof -
  define b where "b = b3 (ve_link env)"
  define tap where "tap = (case alloc of Some l \<Rightarrow> la_tap_name l | None \<Rightarrow> fc_tap_name_for_key b key)"
  define s where "s = (case alloc of Some l \<Rightarrow> la_slot l | None \<Rightarrow> preferred_slot b key)"
  have co: "clear_of env key tap v p" using assms (3) unfolding tap_def b_def by simp
  obtain r1 m1 where 1: "bring_up env key tap s m = (r1, m1)" by fastforce
  have s1: "stands v p g m1" by (rule stands_bring_up [OF 1 assms (2) co])
  have "m' = m \<or> m' = m1 \<or> (\<exists>pd scope host_ip guest_ip sock subnet. r1 = Inr (pd, scope, host_ip, guest_ip, sock) \<and>
      finish_boot env a (new_vm env a wc img eh decision disk tap s subnet pd scope guest_ip sock)
        host_ip (plan decision) disk m1 = (r, m'))"
    using assms (1) unfolding cold_boot_def Let_def b_def [symmetric] tap_def [symmetric] s_def [symmetric] 1
    by (auto split: if_splits sum.splits)
  then show ?thesis
  proof (elim disjE exE conjE)
    fix pd scope host_ip guest_ip sock subnet
    assume r1: "r1 = Inr (pd, scope, host_ip, guest_ip, sock)"
      and f: "finish_boot env a (new_vm env a wc img eh decision disk tap s subnet pd scope guest_ip sock)
        host_ip (plan decision) disk m1 = (r, m')"
    show "stands v p g m'"
      by (rule stands_finish_boot [OF f s1])
        (use bring_up_names [OF 1 [unfolded r1]] co in \<open>auto simp: apart_def clear_of_def new_vm_def\<close>)
  qed (use assms (2) s1 in simp_all)
qed

lemma acquire_tap:
  assumes "acquire_link env u key m = (Inr alloc, m')"
  shows "la_tap_name alloc = fc_tap_name_for_key (b3 (ve_link env)) key"
proof -
  define e where "e = (ve_link env)\<lparr>caches := (caches (ve_link env))(u := mc_cache m)\<rparr>"
  have b: "b3 e = b3 (ve_link env)" by (simp add: e_def)
  from assms obtain live st st' where "allocate_in e key Acquire (Some (ve_owner env)) live st = Inr (st', alloc)"
    unfolding acquire_link_def acquire_def allocate_def with_locked_state_def e_def [symmetric]
    by (auto split: prod.splits sum.splits option.splits if_splits)
  then show ?thesis by (cases rule: allocate_in_stages) (simp_all add: allocation_def b)
qed

section \<open>A swap beside a running machine\<close>

text \<open>What a launch returns has the names of its key and the type of its request.\<close>

definition named_for :: "blake3 \<Rightarrow> string \<Rightarrow> vm \<Rightarrow> bool" where
  "named_for b key v \<longleftrightarrow>
     vm_tap_name v = fc_tap_name_for_key b key \<and> vm_api_sock v = fc_api_sock_for_key b key \<and>
     (vm_fc_scope v = None \<or> vm_fc_scope v = Some (scope_name key))"

lemma tap_sock_for_key: "tap_sock (fc_tap_name_for_key b key) = fc_api_sock_for_key b key"
  unfolding tap_sock_def fc_api_sock_for_key_def by (rule refl)

lemma cold_named:
  assumes "acquire_link env u key m = (Inr alloc, m2)"
    "cold_boot env a True key (Some alloc) img eh decision disk x = (Inr w, m3)"
  shows "named_for (b3 (ve_link env)) key w" "\<exists>n. ve_spawn env n = Some (vm_child w)"
proof -
  from assms (2) obtain m1 host_ip where
    b: "bring_up env key (vm_tap_name w) (vm_link_slot w) x =
      (Inr (vm_child w, vm_fc_scope w, host_ip, vm_guest_ip w, vm_api_sock w), m1)"
    by (rule cold_bootE)
  have tap: "vm_tap_name w = fc_tap_name_for_key (b3 (ve_link env)) key"
    using assms (2) acquire_tap [OF assms (1)] unfolding cold_boot_def finish_boot_def new_vm_def Let_def
    by (auto split: if_splits sum.splits prod.splits option.splits)
  show "named_for (b3 (ve_link env)) key w" "\<exists>n. ve_spawn env n = Some (vm_child w)"
    using bring_up_names [OF b] by (simp_all add: named_for_def tap tap_sock_for_key)
qed

lemma warm_named:
  assumes "acquire_link env u key m = (Inr alloc, m2)"
    "launch_from_snapshot env a key alloc p src stateful token needs x = (Inr w, m3)"
  shows "named_for (b3 (ve_link env)) key w" "vm_stateful w = stateful" "vm_is_workspace w = va_workspace a"
    "vm_cap_files w = va_cap_files a"
proof -
  from assms (2) obtain y z host_ip where
    b: "bring_up env key (la_tap_name alloc) (la_slot alloc) y =
      (Inr (vm_child w, vm_fc_scope w, host_ip, vm_guest_ip w, vm_api_sock w), z)"
    and w: "vm_tap_name w = la_tap_name alloc" "vm_stateful w = stateful" "vm_is_workspace w = va_workspace a"
      "vm_cap_files w = va_cap_files a"
    unfolding launch_from_snapshot_def Let_def
    by (auto split: if_splits sum.splits prod.splits option.splits bool.splits)
  show "named_for (b3 (ve_link env)) key w"
    using bring_up_names [OF b] by (simp add: named_for_def w (1) acquire_tap [OF assms (1)] tap_sock_for_key)
  show "vm_stateful w = stateful" "vm_is_workspace w = va_workspace a" "vm_cap_files w = va_cap_files a"
    by (fact w)+
qed

lemma launch_named:
  assumes "launch_with_uuid env a m = (Inr w, m')"
  shows "named_for (b3 (ve_link env)) (deploy_key (va_uuid a) (va_reff a)) w \<and> vm_stateful w = rt_stateful (va_rt a) \<and>
    vm_is_workspace w = va_workspace a \<and> vm_cap_files w = va_cap_files a"
  using assms
proof (cases rule: launch_cases)
  case (booted alloc m1 r3 m3)
  define key where "key = deploy_key (va_uuid a) (va_reff a)"
  define disk where "disk = stateful_data_disk (va_data_dir a) (va_uuid a) (va_rt a)"
  have d: "(disk \<noteq> None) = rt_stateful (va_rt a)" by (simp add: disk_def stateful_data_disk_def)
  obtain x y where ac: "acquire_link env (va_uuid a) key x = (Inr alloc, y)" using booted (5) unfolding key_def by blast
  have r3: "r3 = Inr w" by (rule booted (4)) simp
  have boots_cold: ?thesis if "start_cold env a key alloc decision disk z = (Inr w, m3)" for decision z
    using cold_named (1) [OF ac that [unfolded start_cold_def]] start_cold_vm [OF that] d
      cold_bootE [OF that [unfolded start_cold_def]]
    unfolding key_def by metis
  show ?thesis
  proof (cases "va_is_swap a")
    case True
    then show ?thesis using booted (1) boots_cold unfolding r3 key_def disk_def by auto
  next
    case False
    then obtain persisted where "start env a key alloc persisted disk m1 = (Inr w, m3)"
      using booted (1) unfolding r3 key_def disk_def by auto
    then show ?thesis
    proof (cases rule: start_cases)
      case (cold z decision)
      then show ?thesis by (intro boots_cold)
    next
      case (warm v p src z)
      have "v = w" using warm (1) by simp
      then show ?thesis using warm_named [OF ac warm (3)] d unfolding key_def by simp
    qed
  qed
qed simp

text \<open>A machine booted under another key is apart.\<close>

lemma cold_apart:
  assumes "acquire_link env u key m = (Inr alloc, m2)"
    "cold_boot env a True key (Some alloc) img eh decision disk x = (Inr w, m3)"
    "clear_of env key (fc_tap_name_for_key (b3 (ve_link env)) key) v p"
  shows "apart v p (vm_child w) (vm_tap_name w) (vm_api_sock w) (vm_fc_scope w)"
  using cold_named [OF assms (1,2)] assms (3)
  unfolding apart_def clear_of_def named_for_def tap_sock_for_key by auto

lemma swap_apart:
  assumes "launch_with_uuid env a m = (Inr w, m')" "va_is_swap a"
    "clear_of env (deploy_key (va_uuid a) (va_reff a))
       (fc_tap_name_for_key (b3 (ve_link env)) (deploy_key (va_uuid a) (va_reff a))) v p"
  shows "apart v p (vm_child w) (vm_tap_name w) (vm_api_sock w) (vm_fc_scope w)"
proof -
  define key where "key = deploy_key (va_uuid a) (va_reff a)"
  from assms (1,2) obtain alloc m2 decision disk x m3 where
    "acquire_link env (va_uuid a) key m = (Inr alloc, m2)"
    "cold_boot env a True key (Some alloc) (Some (va_snapshot_ref a)) (Some (va_env_hash a)) decision disk x = (Inr w, m3)"
    unfolding launch_with_uuid_def key_def [symmetric] Let_def start_cold_def
    by (auto split: if_splits sum.splits prod.splits)
  then show ?thesis by (rule cold_apart) (use assms (3) in \<open>simp add: key_def\<close>)
qed

lemma swap_stands:
  assumes "launch_with_uuid env a m = (r, m')" "va_is_swap a" "stands v p g m"
    "clear_of env (deploy_key (va_uuid a) (va_reff a))
       (fc_tap_name_for_key (b3 (ve_link env)) (deploy_key (va_uuid a) (va_reff a))) v p"
  shows "stands v p g m'"
proof -
  define key where "key = deploy_key (va_uuid a) (va_reff a)"
  obtain r2 m2 where 2: "acquire_link env (va_uuid a) key m = (r2, m2)" by fastforce
  have s2: "stands v p g m2"
    using 2 assms (3) by (auto simp: acquire_link_def split: prod.splits)
  have rel: "stands v p g (snd (release_claim env key x)) = stands v p g x" for x
    by (simp add: release_claim_def split: prod.splits)
  have pid: "stands v p g x \<Longrightarrow> stands v p g (on_host (pidfile_write w d u pd) x)" for w d u pd x
    by (rule stands_host) (simp_all add: pidfile_write_def find_proc_def)
  show ?thesis
  proof (cases r2)
    case (Inl e)
    then show ?thesis using assms (1,2) s2 by (simp add: launch_with_uuid_def key_def [symmetric] Let_def 2)
  next
    case r2: (Inr alloc)
    define decision where "decision = resolve_port_plan (va_workspace a) (va_rt a) (va_ports a)
      (read_app_port (mc_cache m2)) (ve_cfg env)"
    define disk where "disk = stateful_data_disk (va_data_dir a) (va_uuid a) (va_rt a)"
    obtain r3 m3 where 3: "start_cold env a key alloc decision disk (on_cache (clear (ve_clear env)) m2) = (r3, m3)"
      by fastforce
    have s3: "stands v p g m3"
      by (rule stands_cold_boot [OF 3 [unfolded start_cold_def]])
        (use s2 assms (4) acquire_tap [OF 2 [unfolded r2]] in \<open>simp_all add: key_def\<close>)
    obtain r4 m4 where 4: "release_claim env key m3 = (r4, m4)" by fastforce
    have s4: "stands v p g m4" using s3 rel [of m3] by (simp add: 4)
    have out: "m' = (case r3 of Inl _ \<Rightarrow> m4 | Inr w \<Rightarrow>
        (case r4 of Inl _ \<Rightarrow> drop_vm w m4
         | Inr _ \<Rightarrow> on_host (pidfile_write (ve_pidfile_write env) (va_data_dir a) (va_uuid a) (vm_child w)) m4))"
      using assms (1,2) unfolding launch_with_uuid_def key_def [symmetric] Let_def
      by (auto simp: 2 r2 3 4 decision_def [symmetric] disk_def [symmetric] split: sum.splits)
    have "stands v p g (drop_vm w m4)" if w: "r3 = Inr w" for w
      by (rule stands_drop [OF s4], rule cold_apart [OF 2 [unfolded r2] 3 [unfolded w start_cold_def]])
        (use assms (4) in \<open>simp add: key_def\<close>)
    then show ?thesis using s4 pid by (auto simp: out split: sum.splits)
  qed
qed

lemma stands_shutdown:
  assumes "stands v p g m" "apart v p (vm_child w) (vm_tap_name w) (vm_api_sock w) (vm_fc_scope w)"
  shows "stands v p g (shutdown_now w m)" "stands v p g (shutdown_tap w m)" "stands v p g (drop_vm w m)"
proof -
  have "stands v p g (on_host (kill_stale_if_alive (vm_child w) (process_is_alive (mc_host m))) m)"
  proof (cases "vm_child w = 0 \<or> \<not> process_is_alive (mc_host m) (vm_child w)")
    case True
    then have "kill_stale_if_alive (vm_child w) (process_is_alive (mc_host m)) (mc_host m) = mc_host m"
      by (auto simp: kill_stale_if_alive_def)
    then show ?thesis using assms (1) by (simp add: on_host_def)
  next
    case False
    then have "kill_stale_if_alive (vm_child w) (process_is_alive (mc_host m)) (mc_host m) = remove_pid (vm_child w) (mc_host m)"
      by (auto simp: kill_stale_if_alive_def)
    then show ?thesis using stands_remove_pid [OF assms (1)] assms (2) by (simp add: on_host_def apart_def)
  qed
  then show "stands v p g (shutdown_now w m)"
    unfolding shutdown_now_def using assms (2) by (intro stands_stop_scope) (auto simp: apart_def)
  show "stands v p g (shutdown_tap w m)"
    unfolding shutdown_tap_def using assms by (intro stands_delete_tap) (auto simp: apart_def)
  show "stands v p g (drop_vm w m)" by (rule stands_drop [OF assms])
qed

text \<open>C7: A swap leaves the running machine alone. While a deploy boots its new machine, whether that
  succeeds or fails, the machine that serves keeps its process, its TAP, its API socket and its running
  guest, as long as the two keys give different names: another TAP, hence another socket, and another
  scope than the one the old process runs in.\<close>

theorem swap_spares_the_live_machine:
  assumes "launch_with_uuid env a m = (r, m')" "va_is_swap a" "stands v p g m"
    "clear_of env (deploy_key (va_uuid a) (va_reff a))
       (fc_tap_name_for_key (b3 (ve_link env)) (deploy_key (va_uuid a) (va_reff a))) v p"
  shows "stands v p g m'"
  using assms by (rule swap_stands)

end
