(* ===== verification/MicroVmCases.thy ===== *)
theory MicroVmCases
  imports MicroVmSwap
begin

text \<open>
  Launches that run through: a boot with every answer in its favour step by step, the witnesses of the
  properties of machines, and the behaviours of the launch path that its comments exclude.
\<close>

section \<open>A boot with nothing in its way\<close>

text \<open>Every command works, every request is answered with 204, the guest answers its first poll.\<close>

definition prompt :: "'g vm_env \<Rightarrow> bool" where
  "prompt env \<longleftrightarrow> ve_kvm env \<and> ve_rootfs_ok env \<and> ve_tap_ok env \<and> ve_addr_ok env \<and> ve_up_ok env \<and>
     (\<forall>pd. ve_socket env pd) \<and> ve_disk_ok env \<and>
     (\<forall>n verb path body. ve_fc env n verb path body = \<lparr>fr_status = Some 204, fr_took = 0, fr_anyway = False\<rparr>) \<and>
     (\<forall>pd p n. ve_poll env pd p n = (True, 0))"

text \<open>The machine with one more guest: its TAP, process, socket and state.\<close>

definition booted ::
  "'g vm_env \<Rightarrow> string \<Rightarrow> u32 \<Rightarrow> u32 \<Rightarrow> string option \<Rightarrow> 'g \<Rightarrow> (string \<times> string \<times> string \<times> json) list \<Rightarrow>
   'g machine \<Rightarrow> 'g machine" where
  "booted env tap s pd scope g reqs m =
     (let sock = tap_sock tap; h = mc_host m
      in m\<lparr>mc_host := h\<lparr>procs := (pd, fc_proc env sock scope) # procs h, taps := tap # removeAll tap (taps h)\<rparr>,
           mc_socks := (sock, pd) # filter (\<lambda>(x, _). x \<noteq> sock) (mc_socks m),
           mc_addrs := (tap, s) # filter (\<lambda>(t, _). t \<noteq> tap) (mc_addrs m),
           mc_guests := AList.update pd g (mc_guests m),
           mc_calls := mc_calls m @ reqs\<rparr>)"

fun step_request :: "string \<Rightarrow> boot_step \<Rightarrow> (string \<times> string \<times> string \<times> json) list" where
  "step_request sock (Put path body) = [(sock, ''PUT'', path, body)]"
| "step_request sock EnsureDataDisk = []"

lemma prompt_call:
  assumes "prompt env" "map_of (mc_socks m) sock = Some pd" "fc_alive m pd"
  shows "fc_call env verb path body sock m =
    (\<lparr>fr_status = Some 204, fr_took = 0, fr_anyway = False\<rparr>, m\<lparr>mc_calls := mc_calls m @ [(sock, verb, path, body)]\<rparr>)"
  using assms by (simp add: fc_call_def prompt_def)

lemma update_twice: "AList.update k v (AList.update k w al) = AList.update k v al"
  by (induction al) auto

lemma prompt_run_steps:
  assumes "prompt env" "map_of (mc_socks m) (vm_api_sock v) = Some pd" "fc_alive m pd"
  shows "run_steps env v steps m =
    (Inr (), (if \<exists>body. Put ''/actions'' body \<in> set steps then set_guest v (ve_boot env (vm_cap_files v)) m else m)
       \<lparr>mc_calls := mc_calls m @ concat (map (step_request (vm_api_sock v)) steps)\<rparr>)"
  using assms
proof (induction steps arbitrary: m)
  case (Cons st steps)
  show ?case
  proof (cases st)
    case EnsureDataDisk
    then show ?thesis using Cons by (simp add: prompt_def)
  next
    case (Put path body)
    define m1 where "m1 = m\<lparr>mc_calls := mc_calls m @ [(vm_api_sock v, ''PUT'', path, body)]\<rparr>"
    define m2 where "m2 = (if path = ''/actions'' then set_guest v (ve_boot env (vm_cap_files v)) m1 else m1)"
    have "run_steps env v (st # steps) m = run_steps env v steps m2"
      using prompt_call [OF Cons.prems] by (simp add: Put m1_def m2_def took_effect_def fr_ok_def is_success_def)
    also have "\<dots> = (Inr (), (if \<exists>body. Put ''/actions'' body \<in> set steps then set_guest v (ve_boot env (vm_cap_files v)) m2 else m2)
       \<lparr>mc_calls := mc_calls m2 @ concat (map (step_request (vm_api_sock v)) steps)\<rparr>)"
      by (rule Cons.IH [OF Cons.prems (1)])
        (use Cons.prems in \<open>simp_all add: m1_def m2_def set_guest_def fc_alive_def\<close>)
    finally show ?thesis
      by (auto simp: Put m1_def m2_def set_guest_def update_twice)
  qed
qed simp

lemma prompt_bring_up:
  assumes "prompt env" "ve_spawn env (length (mc_calls m)) = Some pd" "link_ips (tap_subnet (ve_link env)) s = Inr (host_ip, guest_ip)"
    "scope = scope_for env (mc_host m) key" "\<forall>sc. scope = Some sc \<longrightarrow> \<not> scope_active sc (mc_host m)"
  shows "bring_up env key tap s m =
    (Inr (pd, scope, host_ip, guest_ip, tap_sock tap),
     (booted env tap s pd scope g reqs m)\<lparr>mc_guests := mc_guests m, mc_calls := mc_calls m\<rparr>)"
proof -
  define sock where "sock = tap_sock tap"
  define m1 where "m1 = remove_sock sock ((on_host (\<lambda>h. h\<lparr>taps := tap # removeAll tap (taps h)\<rparr>) m)
      \<lparr>mc_addrs := (tap, s) # filter (\<lambda>(t, _). t \<noteq> tap) (mc_addrs m)\<rparr>)"
  have tap: "setup_tap env tap s (on_host (delete_fc_tap tap) m) =
      (True, (on_host (\<lambda>h. h\<lparr>taps := tap # removeAll tap (taps h)\<rparr>) m)
        \<lparr>mc_addrs := (tap, s) # filter (\<lambda>(t, _). t \<noteq> tap) (mc_addrs m)\<rparr>)"
    using assms (1) by (simp add: prompt_def setup_tap_def Let_def on_host_def delete_fc_tap_def)
  have h: "procs (mc_host m1) = procs (mc_host m)" "has_systemd (mc_host m1) = has_systemd (mc_host m)"
    "mc_calls m1 = mc_calls m"
    by (simp_all add: m1_def remove_sock_def on_host_def)
  have sp: "spawn_firecracker env key sock m1 =
      (Inr (pd, scope), (on_host (\<lambda>h. h\<lparr>procs := (pd, fc_proc env sock scope) # procs h\<rparr>) m1)
         \<lparr>mc_socks := [(sock, pd)] @ mc_socks m1\<rparr>)"
    using assms (1,2,4,5) h unfolding spawn_firecracker_def Let_def
    by (auto simp: prompt_def scope_for_def scope_active_def)
  have "bring_up env key tap s m = (Inr (pd, scope, host_ip, guest_ip, sock),
      (on_host (\<lambda>h. h\<lparr>procs := (pd, fc_proc env sock scope) # procs h\<rparr>) m1)\<lparr>mc_socks := [(sock, pd)] @ mc_socks m1\<rparr>)"
    unfolding bring_up_def Let_def sock_def [symmetric] assms (3)
    using sp by (simp add: tap m1_def)
  then show ?thesis by (simp add: sock_def booted_def Let_def m1_def remove_sock_def on_host_def)
qed

lemma booted_simps [simp]:
  "mc_cache (booted env tap s pd scope g reqs m) = mc_cache m" "mc_links (booted env tap s pd scope g reqs m) = mc_links m"
  "mc_paused (booted env tap s pd scope g reqs m) = mc_paused m" "mc_frozen (booted env tap s pd scope g reqs m) = mc_frozen m"
  "mc_calls (booted env tap s pd scope g reqs m) = mc_calls m @ reqs"
  "map_of (mc_guests (booted env tap s pd scope g reqs m)) = (map_of (mc_guests m))(pd \<mapsto> g)"
  "taps (mc_host (booted env tap s pd scope g reqs m)) = tap # removeAll tap (taps (mc_host m))"
  "procs (mc_host (booted env tap s pd scope g reqs m)) =
     (pd, fc_proc env (tap_sock tap) scope) # procs (mc_host m)"
  "mc_addrs (booted env tap s pd scope g reqs m) = (tap, s) # filter (\<lambda>(t, _). t \<noteq> tap) (mc_addrs m)"
  "map_of (mc_socks (booted env tap s pd scope g reqs m)) (tap_sock tap) = Some pd"
  "pidfiles (mc_host (booted env tap s pd scope g reqs m)) = pidfiles (mc_host m)"
  "has_systemd (mc_host (booted env tap s pd scope g reqs m)) = has_systemd (mc_host m)"
  "stuck_scopes (mc_host (booted env tap s pd scope g reqs m)) = stuck_scopes (mc_host m)"
  by (simp_all add: booted_def Let_def update_conv')

lemma prompt_cold_boot:
  assumes "prompt env" "ve_spawn env (length (mc_calls m)) = Some pd" "pd \<noteq> 0" "pd \<notin> set (mc_paused m)"
    "link_ips (tap_subnet (ve_link env)) (la_slot alloc) = Inr (host_ip, guest_ip)"
    "normalize_subnet (tap_subnet (ve_link env)) = Inr subnet"
    "scope = scope_for env (mc_host m) key" "\<forall>sc. scope = Some sc \<longrightarrow> \<not> scope_active sc (mc_host m)"
    "plan decision = Fixed port" "va_workspace a \<or> disk \<noteq> None \<or> is_suppressed (mc_cache m)"
    and v: "v = new_vm env a True img eh decision disk (la_tap_name alloc) (la_slot alloc) subnet pd scope guest_ip
      (tap_sock (la_tap_name alloc))"
  shows "cold_boot env a True key (Some alloc) img eh decision disk m =
    (Inr v, keep_port env a v port
      (booted env (la_tap_name alloc) (la_slot alloc) pd scope (ve_boot env (va_cap_files a))
        (concat (map (step_request (vm_api_sock v))
          (boot_steps env a v (show_ipv4 guest_ip) (show_ipv4 host_ip) (derive_guest_mac (la_slot alloc)) disk))) m))"
proof -
  define steps where
    "steps = boot_steps env a v (show_ipv4 guest_ip) (show_ipv4 host_ip) (derive_guest_mac (la_slot alloc)) disk"
  define reqs where "reqs = concat (map (step_request (vm_api_sock v)) steps)"
  define m1 where "m1 = (booted env (la_tap_name alloc) (la_slot alloc) pd scope (ve_boot env (va_cap_files a)) reqs m)
      \<lparr>mc_guests := mc_guests m, mc_calls := mc_calls m\<rparr>"
  define m2 where "m2 = booted env (la_tap_name alloc) (la_slot alloc) pd scope (ve_boot env (va_cap_files a)) reqs m"
  have fields: "vm_child v = pd" "vm_api_sock v = tap_sock (la_tap_name alloc)"
    "vm_tap_name v = la_tap_name alloc" "vm_port v = port" "vm_cap_files v = va_cap_files a" "vm_guest_ip v = guest_ip"
    "vm_link_slot v = la_slot alloc" "vm_is_workspace v = va_workspace a" "vm_stateful v = (disk \<noteq> None)"
    using assms (9) by (simp_all add: v new_vm_def initial_port_def)
  have up: "bring_up env key (la_tap_name alloc) (la_slot alloc) m = (Inr (pd, scope, host_ip, guest_ip, vm_api_sock v), m1)"
    unfolding fields m1_def by (rule prompt_bring_up) (use assms in blast)+
  have alive: "fc_alive m1 pd" using assms (3)
    by (simp add: m1_def fc_alive_def process_is_alive_def find_proc_def fc_proc_def)
  have sk: "map_of (mc_socks m1) (vm_api_sock v) = Some pd" by (simp add: m1_def fields)
  have conf: "configure_and_boot env a v host_ip disk m1 = (Inr (), m2)"
  proof -
    have "run_steps env v steps m1 = (Inr (), (set_guest v (ve_boot env (vm_cap_files v)) m1)
        \<lparr>mc_calls := mc_calls m1 @ reqs\<rparr>)"
      using prompt_run_steps [OF assms (1) sk alive, of steps]
        boot_steps_start [of env a v "show_ipv4 guest_ip" "show_ipv4 host_ip" "derive_guest_mac (la_slot alloc)" disk]
      by (auto simp: reqs_def steps_def)
    also have "\<dots> = (Inr (), m2)"
      by (simp add: m1_def m2_def set_guest_def fields booted_def Let_def)
    finally show ?thesis
      using sk by (simp add: configure_and_boot_def socket_exists_def fields steps_def)
  qed
  have reach: "reachable v m2"
    using assms (3,4) by (simp add: reachable_def fields m2_def fc_alive_def process_is_alive_def find_proc_def fc_proc_def)
  have ready: "wait_until_ready env v m2"
    using assms (1) reach unfolding wait_until_ready_def
    by (subst poll_ready.simps) (simp add: guest_poll_def prompt_def)
  have fin: "finish_boot env a v host_ip (plan decision) disk m1 = (Inr v, keep_port env a v port m2)"
  proof -
    have same: "v\<lparr>vm_port := port\<rparr> = v" using fields (4) by (cases v) simp
    define mk where "mk = keep_port env a v port m2"
    have "is_suppressed (mc_cache mk) = is_suppressed (mc_cache m)"
      by (simp add: mk_def keep_port_def is_suppressed_def write_app_port_def m2_def)
    then have "\<not> (vm_cache v \<and> \<not> vm_is_workspace v \<and>
        should_snapshot_on_cold_boot (files_present (mc_cache mk)) (is_suppressed (mc_cache mk)) (vm_stateful v))"
      using assms (10) by (auto simp: fields should_snapshot_on_cold_boot_def)
    then have "first_snapshot env v (keep_port env a v port m2) = keep_port env a v port m2"
      unfolding first_snapshot_def mk_def by (rule if_not_P)
    then show ?thesis
      by (simp add: finish_boot_def conf assms (9) port_decided_def ready same)
  qed
  show ?thesis
    using assms (1,6) up fin unfolding cold_boot_def Let_def
    by (simp add: prompt_def v fields [unfolded v] m2_def reqs_def steps_def)
qed

text \<open>A swap with nothing in its way.\<close>

lemma prompt_swap:
  assumes "prompt env" "va_is_swap a" "key = deploy_key (va_uuid a) (va_reff a)"
    "acquire_link env (va_uuid a) key m = (Inr alloc, m1)"
    "\<And>x. mc_links x = mc_links m1 \<Longrightarrow> release_claim env key x = (Inr (), x\<lparr>mc_links := l\<rparr>)"
    "ve_spawn env (length (mc_calls m)) = Some pd" "pd \<noteq> 0" "pd \<notin> set (mc_paused m)"
    "link_ips (tap_subnet (ve_link env)) (la_slot alloc) = Inr (host_ip, guest_ip)"
    "normalize_subnet (tap_subnet (ve_link env)) = Inr subnet"
    "scope = scope_for env (mc_host m) key" "\<forall>sc. scope = Some sc \<longrightarrow> \<not> scope_active sc (mc_host m)"
    "resolve_port_plan (va_workspace a) (va_rt a) (va_ports a) (read_app_port (mc_cache m)) (ve_cfg env) = decision"
    "plan decision = Fixed port" "stateful_data_disk (va_data_dir a) (va_uuid a) (va_rt a) = disk"
    "va_workspace a \<or> disk \<noteq> None \<or> is_suppressed (mc_cache m)"
    and v: "v = new_vm env a True (Some (va_snapshot_ref a)) (Some (va_env_hash a)) decision disk (la_tap_name alloc)
      (la_slot alloc) subnet pd scope guest_ip (tap_sock (la_tap_name alloc))"
    and reqs: "reqs = concat (map (step_request (vm_api_sock v))
          (boot_steps env a v (show_ipv4 guest_ip) (show_ipv4 host_ip) (derive_guest_mac (la_slot alloc)) disk))"
  shows "launch_with_uuid env a m =
    (Inr v, on_host (pidfile_write (ve_pidfile_write env) (va_data_dir a) (va_uuid a) pd)
      ((keep_port env a v port
         (booted env (la_tap_name alloc) (la_slot alloc) pd scope (ve_boot env (va_cap_files a)) reqs
           (on_cache (clear (ve_clear env)) m)))\<lparr>mc_links := l\<rparr>))"
proof -
  have m1: "m1 = m\<lparr>mc_links := mc_links m1\<rparr>" using assms (4) by (auto simp: acquire_link_def split: prod.splits)
  have cache: "mc_cache m1 = mc_cache m" "mc_calls m1 = mc_calls m" "mc_paused m1 = mc_paused m" "mc_host m1 = mc_host m"
    by (subst m1, simp)+
  define m2 where "m2 = on_cache (clear (ve_clear env)) m1"
  have sup: "is_suppressed (clear io c) = is_suppressed c" for io c by (simp add: is_suppressed_def clear_def)
  have boot: "cold_boot env a True key (Some alloc) (Some (va_snapshot_ref a)) (Some (va_env_hash a)) decision disk m2 =
    (Inr v, keep_port env a v port
      (booted env (la_tap_name alloc) (la_slot alloc) pd scope (ve_boot env (va_cap_files a)) reqs m2))"
    unfolding reqs
    by (rule prompt_cold_boot) (use assms cache sup in \<open>auto simp: m2_def\<close>)
  have child: "vm_child v = pd" by (simp add: v new_vm_def)
  define m3 where "m3 = keep_port env a v port
      (booted env (la_tap_name alloc) (la_slot alloc) pd scope (ve_boot env (va_cap_files a)) reqs m2)"
  have l3: "mc_links m3 = mc_links m1" by (simp add: m3_def keep_port_def m2_def)
  have "m3\<lparr>mc_links := l\<rparr> = (keep_port env a v port
         (booted env (la_tap_name alloc) (la_slot alloc) pd scope (ve_boot env (va_cap_files a)) reqs
           (on_cache (clear (ve_clear env)) m)))\<lparr>mc_links := l\<rparr>"
    unfolding m3_def m2_def by (subst m1) (simp add: keep_port_def booted_def Let_def on_cache_def)
  then show ?thesis
    using assms (2,4,13,15) boot assms (5) [OF l3] unfolding launch_with_uuid_def assms (3) [symmetric] Let_def
    by (simp add: cache start_cold_def m2_def [symmetric] m3_def [symmetric] child)
qed

text \<open>A first start with nothing in its way: no process of an earlier launch, no snapshot.\<close>

lemma prompt_start:
  assumes "prompt env" "\<not> va_is_swap a" "key = deploy_key (va_uuid a) (va_reff a)"
    "pidfile_read (mc_host m) (va_data_dir a) (va_uuid a) = None" "stop_fc_scope (scope_name key) (mc_host m) = (True, mc_host m)"
    "\<not> files_present (mc_cache m)"
    "acquire_link env (va_uuid a) key m = (Inr alloc, m1)"
    "\<And>x. mc_links x = mc_links m1 \<Longrightarrow> release_claim env key x = (Inr (), x\<lparr>mc_links := l\<rparr>)"
    "ve_spawn env (length (mc_calls m)) = Some pd" "pd \<noteq> 0" "pd \<notin> set (mc_paused m)"
    "link_ips (tap_subnet (ve_link env)) (la_slot alloc) = Inr (host_ip, guest_ip)"
    "normalize_subnet (tap_subnet (ve_link env)) = Inr subnet"
    "scope = scope_for env (mc_host m) key" "\<forall>sc. scope = Some sc \<longrightarrow> \<not> scope_active sc (mc_host m)"
    "resolve_port_plan (va_workspace a) (va_rt a) (va_ports a) (read_app_port (mc_cache m)) (ve_cfg env) = decision"
    "plan decision = Fixed port" "stateful_data_disk (va_data_dir a) (va_uuid a) (va_rt a) = disk"
    "va_workspace a \<or> disk \<noteq> None \<or> is_suppressed (mc_cache m)"
    and v: "v = new_vm env a True (Some (va_snapshot_ref a)) (Some (va_env_hash a)) decision disk (la_tap_name alloc)
      (la_slot alloc) subnet pd scope guest_ip (tap_sock (la_tap_name alloc))"
    and reqs: "reqs = concat (map (step_request (vm_api_sock v))
          (boot_steps env a v (show_ipv4 guest_ip) (show_ipv4 host_ip) (derive_guest_mac (la_slot alloc)) disk))"
  shows "launch_with_uuid env a m =
    (Inr v, on_host (pidfile_write (ve_pidfile_write env) (va_data_dir a) (va_uuid a) pd)
      ((keep_port env a v port
         (booted env (la_tap_name alloc) (la_slot alloc) pd scope (ve_boot env (va_cap_files a)) reqs m))\<lparr>mc_links := l\<rparr>))"
proof -
  have reap: "reap_stale_fc_for_vm_key env (va_data_dir a) (va_uuid a) key m = (Inr (), m)"
    using assms (4,5) by (simp add: reap_stale_fc_for_vm_key_def Let_def)
  have m1: "m1 = m\<lparr>mc_links := mc_links m1\<rparr>" using assms (7) by (auto simp: acquire_link_def split: prod.splits)
  have cache: "mc_cache m1 = mc_cache m" "mc_calls m1 = mc_calls m" "mc_paused m1 = mc_paused m" "mc_host m1 = mc_host m"
    by (subst m1, simp)+
  have boot: "cold_boot env a True key (Some alloc) (Some (va_snapshot_ref a)) (Some (va_env_hash a)) decision disk m1 =
    (Inr v, keep_port env a v port
      (booted env (la_tap_name alloc) (la_slot alloc) pd scope (ve_boot env (va_cap_files a)) reqs m1))"
    unfolding reqs
    by (rule prompt_cold_boot) (use assms cache in auto)
  have no_snap: "\<not> wc_viable (choose_start a alloc s (mc_cache m))" "\<not> wc_cleared (choose_start a alloc s (mc_cache m))" for s
    using assms (6)
    by (simp_all add: choose_start_def Let_def restore_decision_def warm_ok_def stateful_launch_gate_def)
  have st: "start env a key alloc (read_app_port (mc_cache m1)) disk m1 =
    (Inr v, keep_port env a v port
      (booted env (la_tap_name alloc) (la_slot alloc) pd scope (ve_boot env (va_cap_files a)) reqs m1))"
    using assms (6,16) boot unfolding start_def Let_def by (simp add: no_snap cache start_cold_def)
  have child: "vm_child v = pd" by (simp add: v new_vm_def)
  define m3 where "m3 = keep_port env a v port
      (booted env (la_tap_name alloc) (la_slot alloc) pd scope (ve_boot env (va_cap_files a)) reqs m1)"
  have l3: "mc_links m3 = mc_links m1" by (simp add: m3_def keep_port_def)
  have "m3\<lparr>mc_links := l\<rparr> = (keep_port env a v port
         (booted env (la_tap_name alloc) (la_slot alloc) pd scope (ve_boot env (va_cap_files a)) reqs m))\<lparr>mc_links := l\<rparr>"
    unfolding m3_def by (subst m1) (simp add: keep_port_def booted_def Let_def on_cache_def)
  then show ?thesis
    using assms (2,7,18) reap st assms (8) [OF l3] unfolding launch_with_uuid_def assms (3) [symmetric] Let_def
    by (simp add: m3_def [symmetric] child)
qed

end
