(* ===== verification/MicroVmDemo.thy ===== *)
theory MicroVmDemo
  imports MicroVmCases Spawn
begin

section \<open>A small host\<close>

text \<open>A guest is the credentials it holds. Two references of the app \<open>a\<close> have links; their digests, the
  lengths of their keys, give different TAPs.\<close>

definition box_link :: link_env where "box_link = demo_env\<lparr>b3 := demo_digest\<rparr>"

fun box_broker ::
  "nat \<Rightarrow> (string \<times> string) list \<Rightarrow> broker_request \<Rightarrow> (nat \<times> string) option \<times> nat \<times> (string \<times> string) list" where
  "box_broker n g ProbeRestore = (Some (200, []), 0, g)"
| "box_broker n g (Scrub bearer) = (Some (200, ''nonce''), 0, [])"
| "box_broker n g (Restore nonce caps) = (Some (200, []), 0, caps)"

definition box_env :: "(string \<times> string) list vm_env" where
  "box_env = \<lparr>ve_cfg = \<lparr>app_port = 8080, cfg_vcpus = 1\<rparr>, ve_kernel = ''/k'', ve_bin = ''fc'', ve_link = box_link,
     ve_owner = ''o'', ve_addr_list_ok = True, ve_kvm = True, ve_rootfs_ok = True, ve_tap_ok = True,
     ve_addr_ok = True, ve_up_ok = True, ve_systemd_run = True, ve_spawn = (\<lambda>n. Some 101), ve_status = None,
     ve_unkillable = False, ve_socket = (\<lambda>_. True), ve_disk_ok = True,
     ve_fc = (\<lambda>n verb path body. \<lparr>fr_status = Some 204, fr_took = 0, fr_anyway = False\<rparr>),
     ve_torn = (\<lambda>_. None), ve_poll = (\<lambda>pd p n. (True, 0)), ve_mkdir = True, ve_write = (\<lambda>_. WriteAll),
     ve_clear = clear_all, ve_pidfile_write = True, ve_pidfile_remove = True,
     ve_json = (\<lambda>body. Some (JObj [(''restore_nonce'', JStr body)])), ve_boot = (\<lambda>caps. caps),
     ve_broker = box_broker\<rparr>"

definition box_args :: "bool \<Rightarrow> bool \<Rightarrow> (string \<times> string) list \<Rightarrow> vm_args" where
  "box_args workspace stateful caps =
     \<lparr>va_rootfs = ''/r'', va_rt = \<lparr>rt_port = Some 80, rt_vcpus = None, rt_stateful = stateful, rt_data_mount = None\<rparr>,
      va_kernel = None, va_memory_mb = 128, va_uuid = ''a'', va_reff = ''22'', va_data_dir = ''/d'', va_is_swap = True,
      va_workspace = workspace, va_env_hash = ''e'', va_ports = [], va_snapshot_ref = ''22'', va_cap_files = caps\<rparr>"

definition box_tap :: "string \<Rightarrow> string" where
  "box_tap reff = fc_tap_name_for_key demo_digest (deploy_key ''a'' reff)"

text \<open>The machine that serves the reference \<open>1\<close>.\<close>

definition box_proc :: proc where
  "box_proc = fc_proc box_env (tap_sock (box_tap ''1'')) (Some (scope_name ''a:1''))"

definition box_machine :: "(string \<times> string) list machine" where
  "box_machine =
     \<lparr>mc_host = (demo_host [] demo_dir)\<lparr>procs := [(100, box_proc)], has_systemd := True, taps := [box_tap ''1'']\<rparr>,
      mc_socks = [(tap_sock (box_tap ''1''), 100)], mc_addrs = [(box_tap ''1'', 7)],
      mc_links = Stored [(''a:1'', demo_assignment 7), (''a:22'', demo_assignment 8)],
      mc_cache = caches demo_env [], mc_frozen = None, mc_guests = [(100, [])], mc_paused = [], mc_calls = []\<rparr>"

lemma box_prompt: "prompt box_env"
  by (simp add: prompt_def box_env_def)

lemma box_taps: "box_tap ''1'' = ''fc-030303030303''" "box_tap ''22'' = ''fc-040404040404''"
proof -
  have r: "replicate 8 x @ xs = x # x # x # x # x # x # x # x # xs" for x :: u8 and xs by (simp add: numeral_eq_Suc)
  have h: "hash48 demo_digest ''a:1'' = 3311470314243" "hash48 demo_digest ''a:22'' = 4415293752324"
    unfolding hash48_def demo_digest_def r by (simp_all add: Let_def) (code_simp+)?
  have s: "show_hex_padded 12 3311470314243 = ''030303030303''" "show_hex_padded 12 4415293752324 = ''040404040404''"
    by code_simp+
  show "box_tap ''1'' = ''fc-030303030303''" "box_tap ''22'' = ''fc-040404040404''"
    by (simp_all add: box_tap_def deploy_key_def fc_tap_name_for_key_def h s)
qed

lemma box_subnet: "normalize_subnet ''172.31.0.0/16'' = Inr ''172.31.0.0/16''"
  by code_simp

lemma box_ips: "link_ips ''172.31.0.0/16'' 8 = Inr (2887712801, 2887712802)"
  by code_simp

definition box_links :: assign_file where
  "box_links = Stored [(''a:1'', demo_assignment 7), (''a:22'', (demo_assignment 8)\<lparr>updated_at_unix := 1000\<rparr>)]"

lemma box_acquire:
  "acquire_link box_env ''a'' ''a:22'' box_machine =
    (Inr (allocation box_link ''a:22'' 8),
     box_machine\<lparr>mc_links := Stored [(''a:1'', demo_assignment 7),
       (''a:22'', \<lparr>slot = 8, updated_at_unix = 1000, launch_reserved_until_unix = 1120, launch_owner = Some ''o''\<rparr>)]\<rparr>)"
proof -
  define w where "w = (ve_link box_env)\<lparr>caches := (caches (ve_link box_env))(''a'' := mc_cache box_machine)\<rparr>"
  define live where "live = \<lparr>by_tap = [(''fc-030303030303'', 7)], live_slots = [7]\<rparr>"
  have w: "b3 w = demo_digest" "tap_subnet w = ''172.31.0.0/16''" "t_gc w = 1000" "t_check w = 1000" "t_set w = 1000"
    "t_launch w = 1000" "root_ok w" "lock_ok w" "write_ok w"
    by (simp_all add: w_def box_env_def box_link_def demo_env_def)
  have live: "live_links box_machine = live"
    by (simp add: live_links_def box_machine_def demo_host_def box_taps live_def)
  have tap: "fc_tap_name_for_key demo_digest ''a:22'' = ''fc-040404040404''" "fc_tap_name_for_key demo_digest ''a:1'' = ''fc-030303030303''"
    using box_taps by (simp_all add: box_tap_def deploy_key_def)
  have gc: "gc w live (Some ''a:22'') [(''a:1'', demo_assignment 7), (''a:22'', demo_assignment 8)] =
      [(''a:1'', demo_assignment 7), (''a:22'', demo_assignment 8)]"
    by (simp add: gc_def w tap live_def demo_assignment_def)
  have "allocate_in w ''a:22'' Acquire (Some ''o'') live [(''a:1'', demo_assignment 7), (''a:22'', demo_assignment 8)] =
     Inr ([(''a:1'', demo_assignment 7),
       (''a:22'', \<lparr>slot = 8, updated_at_unix = 1000, launch_reserved_until_unix = 1120, launch_owner = Some ''o''\<rparr>)],
      allocation w ''a:22'' 8)"
    unfolding allocate_in_def gc Let_def
    by (simp add: w tap live_def demo_assignment_def LAUNCH_RESERVATION_SECS_def sat_add_def word_less_nat_alt)
  moreover have "allocation w ''a:22'' 8 = allocation box_link ''a:22'' 8"
    by (simp add: allocation_def w_def box_env_def box_link_def demo_env_def box_subnet)
  ultimately have "acquire w ''a:22'' ''o'' (Some live) (mc_links box_machine) =
     (Inr (allocation box_link ''a:22'' 8), Stored [(''a:1'', demo_assignment 7),
       (''a:22'', \<lparr>slot = 8, updated_at_unix = 1000, launch_reserved_until_unix = 1120, launch_owner = Some ''o''\<rparr>)])"
    by (simp add: acquire_def allocate_def w demo_subnet with_locked_state_def box_machine_def)
  then show ?thesis
    unfolding acquire_link_def w_def [symmetric] live by (simp add: box_env_def)
qed

text \<open>A deploy of the reference \<open>22\<close> goes through, of a workspace or of a stateful app.\<close>

lemma box_deploy:
  assumes "workspace \<or> stateful"
  obtains v m' where "launch_with_uuid box_env (box_args workspace stateful caps) box_machine = (Inr v, m')"
proof -
  define a where "a = box_args workspace stateful caps"
  have a: "va_is_swap a" "va_uuid a = ''a''" "va_reff a = ''22''" "va_workspace a = workspace" "rt_port (va_rt a) = Some 80"
    "rt_stateful (va_rt a) = stateful" "va_ports a = []"
    by (simp_all add: a_def box_args_def)
  define disk where "disk = stateful_data_disk (va_data_dir a) (va_uuid a) (va_rt a)"
  have disk: "stateful \<Longrightarrow> disk \<noteq> None" by (simp add: disk_def stateful_data_disk_def a)
  define decision where
    "decision = resolve_port_plan (va_workspace a) (va_rt a) (va_ports a) (read_app_port (mc_cache box_machine)) (ve_cfg box_env)"
  define port where "port = (if workspace then 8080 else 80 :: u16)"
  have port: "plan decision = Fixed port"
    by (simp add: decision_def resolve_port_plan_def a box_env_def port_def)
  have sub: "tap_subnet (ve_link box_env) = ''172.31.0.0/16''" by (simp add: box_env_def box_link_def demo_env_def)
  have names: "scope_for box_env (mc_host box_machine) ''a:22'' = Some (scope_name ''a:22'')"
    by (simp add: scope_for_def should_wrap_def box_env_def box_machine_def)
  have scope: "\<not> scope_active (scope_name ''a:22'') (mc_host box_machine)"
    by (simp add: scope_active_def box_machine_def box_proc_def fc_proc_def scope_name_def sanitize_def Let_def)
  have rel: "release_claim box_env ''a:22'' x = (Inr (), x\<lparr>mc_links := box_links\<rparr>)"
    if "mc_links x = Stored [(''a:1'', demo_assignment 7),
       (''a:22'', \<lparr>slot = 8, updated_at_unix = 1000, launch_reserved_until_unix = 1120, launch_owner = Some ''o''\<rparr>)]" for x
    using that by (simp add: release_claim_def clear_launch_owner_def with_locked_state_def box_env_def box_link_def demo_env_def
        clear_launch_owner_in_def box_links_def demo_assignment_def)
  have key: "''a:22'' = deploy_key (va_uuid a) (va_reff a)" by (simp add: a deploy_key_def)
  have al: "la_slot (allocation box_link ''a:22'' 8) = 8" by (simp add: allocation_def)
  have spawn: "ve_spawn box_env n = Some 101" for n by (simp add: box_env_def)
  have unpaused: "(101 :: u32) \<notin> set (mc_paused box_machine)" by (simp add: box_machine_def)
  have quiet: "va_workspace a \<or> disk \<noteq> None \<or> is_suppressed (mc_cache box_machine)"
    using assms disk by (auto simp: a)
  have ips: "link_ips (tap_subnet (ve_link box_env)) (la_slot (allocation box_link ''a:22'' 8)) = Inr (2887712801, 2887712802)"
    "normalize_subnet (tap_subnet (ve_link box_env)) = Inr ''172.31.0.0/16''"
    unfolding sub al by (rule box_ips, rule box_subnet)
  have free: "\<forall>sc. Some (scope_name ''a:22'') = Some sc \<longrightarrow> \<not> scope_active sc (mc_host box_machine)"
    using scope by simp
  have "launch_with_uuid box_env a box_machine = (Inr (new_vm box_env a True (Some (va_snapshot_ref a)) (Some (va_env_hash a)) decision disk
      (la_tap_name (allocation box_link ''a:22'' 8)) (la_slot (allocation box_link ''a:22'' 8)) ''172.31.0.0/16'' 101
      (Some (scope_name ''a:22'')) 2887712802 (tap_sock (la_tap_name (allocation box_link ''a:22'' 8)))), snd (launch_with_uuid box_env a box_machine))"
    by (subst (1 2) prompt_swap [OF box_prompt a (1) key box_acquire [folded a (2)] rel spawn _ unpaused ips names [symmetric] free
          decision_def [symmetric] port disk_def [symmetric] quiet refl refl])
      (simp_all add: box_machine_def)
  then show ?thesis by (rule that [folded a_def])
qed

text \<open>The broker of this host does what the protocol says, and nothing is in the memory image.\<close>

lemma box_contract: "broker_contract box_env (\<lambda>caps. caps)"
  by (simp add: broker_contract_def box_env_def)



theorem stateful_apps_boot_cold_witness:
  "\<exists>v m'. launch_with_uuid box_env (box_args False True []) box_machine = (Inr v, m') \<and>
     guest_of v m' = Some []"
proof -
  obtain v m' where run: "launch_with_uuid box_env (box_args False True []) box_machine = (Inr v, m')"
    by (rule box_deploy [of False True]) simp
  have "rt_stateful (va_rt (box_args False True []))" by (simp add: box_args_def)
  from stateful_apps_boot_cold [OF this run] show ?thesis
    using run by (auto simp: box_env_def box_args_def)
qed

text \<open>The machine of the reference \<open>1\<close>.\<close>

definition box_vm :: vm where
  "box_vm = \<lparr>vm_child = 100, vm_tap_name = box_tap ''1'', vm_api_sock = tap_sock (box_tap ''1''),
     vm_fc_scope = Some (scope_name ''a:1''), vm_port = 80, vm_port_source = PsManifest, vm_guest_ip = 2887712798,
     vm_link_slot = 7, vm_tap_subnet = ''172.31.0.0/16'', vm_cache = True, vm_image_ref = Some ''1'',
     vm_env_hash = Some ''e'', vm_is_workspace = False, vm_cap_files = [], vm_stateful = False\<rparr>"

lemma box_stands: "stands box_vm box_proc [] box_machine"
  by (simp add: stands_def box_vm_def box_machine_def find_proc_def guest_of_def)

theorem swap_spares_the_live_machine_witness:
  "\<exists>v m'. launch_with_uuid box_env (box_args False True []) box_machine = (Inr v, m') \<and>
     stands box_vm box_proc [] m'"
proof -
  obtain v m' where run: "launch_with_uuid box_env (box_args False True []) box_machine = (Inr v, m')"
    by (rule box_deploy [of False True]) simp
  have a: "va_uuid (box_args False True []) = ''a''" "va_reff (box_args False True []) = ''22''" "va_is_swap (box_args False True [])"
    "b3 (ve_link box_env) = demo_digest"
    by (simp_all add: box_args_def box_env_def box_link_def)
  have "clear_of box_env (deploy_key ''a'' ''22'') (box_tap ''22'') box_vm box_proc"
    by (simp add: clear_of_def box_vm_def box_taps tap_sock_def box_proc_def fc_proc_def)
      (simp add: box_env_def scope_name_def sanitize_def Let_def deploy_key_def)
  then show ?thesis
    using swap_spares_the_live_machine [OF run a (3) box_stands] run unfolding a box_tap_def by blast
qed

end
