(* ===== verification/HotSwap.thy ===== *)
theory HotSwap
  imports MicroVmSwap RootfsCache
begin

text \<open>
  The runner of one app: the slot with the machine that serves, the deploy that puts another one into it,
  the retirement of the old one, the commands of the control socket, the loop that waits for the end, and
  the forwarders started beside it (\<open>src/src/runner/active.rs\<close>, \<open>src/src/runner/control.rs\<close>,
  \<open>src/src/runner/serve.rs\<close>, \<open>build_runtime\<close> of \<open>src/src/build.rs\<close>). A command is one step; the stages of a
  retirement are steps of their own. A generation number stands for the identity of an \<open>Arc\<close>.
\<close>

section \<open>The runner\<close>

text \<open>What a runner is started with: the fetched app and the settings that a deploy builds with.\<close>

record runner_cfg =
  cf_uuid :: string
  cf_app_ula :: string
  cf_pid :: u32
  cf_data_dir :: string
  cf_rt :: Runtime
  cf_kernel :: "string option"
  cf_memory_mb :: u32
  cf_registry_ref :: "string option"
  cf_extra_env :: "env_map option"
  cf_no_mesh :: bool

text \<open>The stages of a machine that was swapped out: its drain task has not run yet, it has been killed, its
  TAP is gone and only references are left.\<close>

datatype retirement = Draining | Killed | Untapped

record 'g runner =
  rn_machine :: "'g machine"
  rn_disk :: disk
  rn_live :: vm
  rn_ref :: "string option"
  rn_gen :: nat
  rn_retired :: "(nat \<times> vm \<times> retirement) list"
  rn_hosted :: bool
  rn_digest :: "string option"
  rn_registry :: "RegistryConfig option"
  rn_leaving :: bool
  rn_forwards :: "(u16 \<times> u32) list"

text \<open>What one command meets: a launch environment, the tools and the registry while it builds and after
  the swap, the answers of the guests to health probes with the time each took.\<close>

record 'g command_env =
  ce_vm :: "'g vm_env"
  ce_build :: world
  ce_later :: world
  ce_ipv6 :: "string \<Rightarrow> u16 option"
  ce_auth_io :: bool
  ce_auth_file :: string
  ce_answers :: bool
  ce_probe_error :: string
  ce_new_answers :: "nat \<Rightarrow> bool \<times> nat"
  ce_purge_ok :: bool
  ce_snapshot_error :: string

section \<open>Building a machine\<close>

datatype deploy_error = AuthRejected | BuildFailed build_error | BootFailed boot_error | Unhealthy

definition args_of :: "runner_cfg \<Rightarrow> bool \<Rightarrow> launch \<Rightarrow> vm_args" where
  "args_of cfg is_swap l =
     \<lparr>va_rootfs = la_rootfs l, va_rt = cf_rt cfg, va_kernel = cf_kernel cfg, va_memory_mb = cf_memory_mb cfg,
      va_uuid = cf_uuid cfg, va_reff = la_reff l, va_data_dir = cf_data_dir cfg, va_is_swap = is_swap,
      va_workspace = la_workspace l, va_env_hash = la_env_hash l, va_ports = la_ports l,
      va_snapshot_ref = la_digest l, va_cap_files = la_caps l\<rparr>"

text \<open>The \<open>.no-snapshot\<close> mark lies in the cache directory of the app.\<close>

definition marked :: "string \<Rightarrow> disk \<Rightarrow> 'g machine \<Rightarrow> 'g machine" where
  "marked u k m = (if u \<in> set (dk_no_snapshot k) then on_cache (\<lambda>c. c\<lparr>no_snapshot := True\<rparr>) m else m)"

definition build_runtime ::
  "'g vm_env \<Rightarrow> world \<Rightarrow> runner_cfg \<Rightarrow> string option \<Rightarrow> bool \<Rightarrow> disk \<Rightarrow> 'g machine \<Rightarrow>
   (deploy_error + vm) \<times> disk \<times> 'g machine" where
  "build_runtime env w cfg registry_ref is_swap k m =
     (case run_firecracker_build w (cf_data_dir cfg) (cf_uuid cfg) (cf_rt cfg) (cf_memory_mb cfg) registry_ref
             (cf_extra_env cfg) k of
        (Inl e, k1) \<Rightarrow> (Inl (BuildFailed e), k1, marked (cf_uuid cfg) k1 m)
      | (Inr l, k1) \<Rightarrow>
          (case launch_with_uuid env (args_of cfg is_swap l) (marked (cf_uuid cfg) k1 m) of
             (Inl e, m1) \<Rightarrow> (Inl (BootFailed e), k1, m1)
           | (Inr v, m1) \<Rightarrow> (Inr v, k1, m1)))"

section \<open>The slot\<close>

definition SWAP_HEALTH_POLL :: nat where "SWAP_HEALTH_POLL = 100"
definition DEPLOY_HEALTH_TIMEOUT :: nat where "DEPLOY_HEALTH_TIMEOUT = 60000"

definition load_with_ref :: "'g runner \<Rightarrow> vm \<times> string option" where
  "load_with_ref r = (rn_live r, rn_ref r)"

definition swap_with_ref :: "vm \<Rightarrow> string option \<Rightarrow> 'g runner \<Rightarrow> (nat \<times> vm) \<times> 'g runner" where
  "swap_with_ref new served_ref r =
     ((rn_gen r, rn_live r), r\<lparr>rn_live := new, rn_ref := served_ref, rn_gen := Suc (rn_gen r)\<rparr>)"

text \<open>\<open>FirecrackerRuntime::health\<close>: the guest answers a request.\<close>

definition vm_health :: "bool \<Rightarrow> vm \<Rightarrow> 'g machine \<Rightarrow> bool" where
  "vm_health answers v m \<longleftrightarrow> answers \<and> reachable v m"

text \<open>Polls until one is answered or the deadline, which also ends a poll that is under way.\<close>

function await_healthy :: "(nat \<Rightarrow> bool \<times> nat) \<Rightarrow> nat \<Rightarrow> nat \<Rightarrow> nat \<Rightarrow> bool" where
  "await_healthy poll deadline n t =
     (case poll n of
        (serving, took) \<Rightarrow>
          if deadline < t + took then False
          else if serving then True
          else await_healthy poll deadline (Suc n) (t + took + SWAP_HEALTH_POLL))"
  by pat_completeness auto
termination
  by (relation "measure (\<lambda>(poll, deadline, n, t). Suc deadline - t)") (auto simp: SWAP_HEALTH_POLL_def)

declare await_healthy.simps [simp del]

text \<open>The machine that never becomes healthy is shut down and its last reference dropped.\<close>

definition discard_vm :: "vm \<Rightarrow> 'g machine \<Rightarrow> 'g machine" where
  "discard_vm v m = drop_vm v (shutdown_tap v (shutdown_now v m))"

definition perform_swap ::
  "(nat \<Rightarrow> bool \<times> nat) \<Rightarrow> vm \<Rightarrow> string option \<Rightarrow> 'g runner \<Rightarrow> (deploy_error + unit) \<times> 'g runner" where
  "perform_swap answers new served_ref r =
     (if \<not> await_healthy (\<lambda>n. apfst (\<lambda>a. vm_health a new (rn_machine r)) (answers n)) DEPLOY_HEALTH_TIMEOUT 0 0
      then (Inl Unhealthy, r\<lparr>rn_machine := discard_vm new (rn_machine r)\<rparr>)
      else (case swap_with_ref new served_ref r of
              ((g, old), r1) \<Rightarrow> (Inr (), r1\<lparr>rn_retired := rn_retired r1 @ [(g, old, Draining)]\<rparr>)))"

section \<open>References\<close>

definition digest_pinned_oci_ref :: "string \<Rightarrow> string \<Rightarrow> string" where
  "digest_pinned_oci_ref reff dg =
     (let without_digest = (case split_once CHR ''@'' reff of Some (repository, _) \<Rightarrow> repository | None \<Rightarrow> reff);
          repository = (case rsplit_once CHR '':'' without_digest of
                          Some (repo, tag) \<Rightarrow> if CHR ''/'' \<in> set tag then without_digest else repo
                        | None \<Rightarrow> without_digest)
      in repository @ ''@'' @ dg)"

definition moved_tag_runtime_ref ::
  "string \<Rightarrow> string option \<Rightarrow> string option \<Rightarrow> string \<Rightarrow> string option" where
  "moved_tag_runtime_ref requested_ref active_ref current_digest resolved_digest =
     (if active_ref = Some requested_ref \<and>
         (case current_digest of Some current \<Rightarrow> current \<noteq> resolved_digest | None \<Rightarrow> False)
      then Some (digest_pinned_oci_ref requested_ref resolved_digest) else None)"

text \<open>\<open>registry::resolve_oci_digest\<close>: the configuration is scoped to the host of the reference first.\<close>

definition resolve_digest ::
  "'g command_env \<Rightarrow> world \<Rightarrow> string \<Rightarrow> RegistryConfig option \<Rightarrow> string option \<times> RegistryConfig option" where
  "resolve_digest env w reff registry =
     (let normalized = lowercase_oci_repo reff in
      case registry of
        None \<Rightarrow> (resolve_oci_digest (w\<lparr>wd_registry_config := None\<rparr>) normalized, None)
      | Some config \<Rightarrow>
          (case file_for_ref (ce_ipv6 env) (ce_auth_io env) normalized config of
             (False, config') \<Rightarrow> (None, Some config')
           | (True, config') \<Rightarrow>
               (resolve_oci_digest (w\<lparr>wd_registry_config := Some (ce_auth_file env)\<rparr>) normalized, Some config')))"

section \<open>A deploy\<close>

text \<open>The guard in front of a rebuild: \<open>None\<close> when the deploy is answered without one, else the reference
  to run and its digest when it is known.\<close>

definition deploy_guard ::
  "'g command_env \<Rightarrow> string \<Rightarrow> 'g runner \<Rightarrow> (string \<times> string option) option \<times> 'g runner" where
  "deploy_guard env reff r =
     (if \<not> vm_health (ce_answers env) (rn_live r) (rn_machine r) then (Some (reff, None), r)
      else
        let same_ref = (rn_ref r = Some reff); (resolved, registry) = resolve_digest env (ce_build env) reff (rn_registry r);
            r1 = r\<lparr>rn_registry := registry\<rparr>
        in case resolved of
             Some want \<Rightarrow>
               if rn_digest r = Some want then (None, r1)
               else if same_ref \<and> rn_digest r = None then (None, r1)
               else (Some (case moved_tag_runtime_ref reff (rn_ref r) (rn_digest r) want of
                             Some pinned \<Rightarrow> pinned | None \<Rightarrow> reff, Some want), r1)
           | None \<Rightarrow> if same_ref then (None, r1) else (Some (reff, None), r1))"

text \<open>The digest the next deploy is compared with.\<close>

definition note_digest :: "'g command_env \<Rightarrow> string \<Rightarrow> string option \<Rightarrow> 'g runner \<Rightarrow> 'g runner" where
  "note_digest env runtime_ref resolved r =
     (case resolved of
        Some dg \<Rightarrow> r\<lparr>rn_digest := Some dg\<rparr>
      | None \<Rightarrow>
          (case resolve_digest env (ce_later env) runtime_ref (rn_registry r) of
             (found, registry) \<Rightarrow> r\<lparr>rn_digest := found, rn_registry := registry\<rparr>))"

definition auth_file :: "'g command_env \<Rightarrow> string \<Rightarrow> 'g runner \<Rightarrow> string option option \<times> 'g runner" where
  "auth_file env reff r =
     (case rn_registry r of
        None \<Rightarrow> (Some None, r)
      | Some config \<Rightarrow>
          (case file_for_ref (ce_ipv6 env) (ce_auth_io env) reff config of
             (ok, config') \<Rightarrow> (if ok then Some (Some (ce_auth_file env)) else None, r\<lparr>rn_registry := Some config'\<rparr>)))"

definition deploy_to ::
  "runner_cfg \<Rightarrow> 'g command_env \<Rightarrow> string \<Rightarrow> string option \<Rightarrow> 'g runner \<Rightarrow> (deploy_error + unit) \<times> 'g runner" where
  "deploy_to cfg env runtime_ref resolved r =
     (case auth_file env runtime_ref r of
        (None, r1) \<Rightarrow> (Inl AuthRejected, r1)
      | (Some config, r1) \<Rightarrow>
          (case build_runtime (ce_vm env) ((ce_build env)\<lparr>wd_registry_config := config\<rparr>) cfg (Some runtime_ref) True
                  (rn_disk r1) (rn_machine r1) of
             (res, k1, m1) \<Rightarrow>
               let r2 = r1\<lparr>rn_disk := k1, rn_machine := m1\<rparr> in
               case res of
                 Inl e \<Rightarrow> (Inl e, r2)
               | Inr new \<Rightarrow>
                   (case perform_swap (ce_new_answers env) new (Some runtime_ref) r2 of
                      (Inl e, r3) \<Rightarrow> (Inl e, r3)
                    | (Inr _, r3) \<Rightarrow> (Inr (), note_digest env runtime_ref resolved r3))))"

definition deploy :: "runner_cfg \<Rightarrow> 'g command_env \<Rightarrow> string \<Rightarrow> 'g runner \<Rightarrow> (deploy_error + unit) \<times> 'g runner" where
  "deploy cfg env reff r =
     (case deploy_guard env reff r of
        (None, r1) \<Rightarrow> (Inr (), r1)
      | (Some (runtime_ref, resolved), r1) \<Rightarrow> deploy_to cfg env runtime_ref resolved r1)"

section \<open>The commands\<close>

definition stop_listener :: "'g runner \<Rightarrow> 'g runner" where
  "stop_listener r = r\<lparr>rn_hosted := False\<rparr>"

text \<open>\<open>purge\<close> takes the directory of the app: its root file systems, its layouts and its cache.\<close>

definition no_cache :: cache_dir where
  "no_cache = \<lparr>snap_vmstate = False, snap_mem = False, snapshot_ref_file = None, snapshot_env_file = None,
     snapshot_link_file = None, app_port_file = None, restore_token_file = None, no_snapshot = False\<rparr>"

definition purge_app_dir :: "runner_cfg \<Rightarrow> 'g runner \<Rightarrow> 'g runner" where
  "purge_app_dir cfg r =
     (let dir = cf_data_dir cfg @ ''/apps/'' @ cf_uuid cfg @ ''/'';
          k = rn_disk r;
          k' = k\<lparr>dk_rootfs := filter (\<lambda>(p, _). \<not> starts_with dir p) (dk_rootfs k),
                 dk_layouts := filter (\<lambda>(p, _). \<not> starts_with dir p) (dk_layouts k),
                 dk_no_snapshot := removeAll (cf_uuid cfg) (dk_no_snapshot k)\<rparr>
      in r\<lparr>rn_disk := k', rn_machine := (on_cache (\<lambda>_. no_cache) (rn_machine r))\<lparr>mc_frozen := None\<rparr>\<rparr>)"

definition purge :: "runner_cfg \<Rightarrow> 'g command_env \<Rightarrow> 'g runner \<Rightarrow> 'g runner" where
  "purge cfg env r = (if ce_purge_ok env then purge_app_dir cfg (stop_listener r) else stop_listener r)"

definition health_reply :: "runner_cfg \<Rightarrow> 'g command_env \<Rightarrow> 'g runner \<Rightarrow> Reply" where
  "health_reply cfg env r =
     (case load_with_ref r of
        (v, served_ref) \<Rightarrow>
          if vm_health (ce_answers env) v (rn_machine r)
          then Health (if rn_hosted r then ''running'' else ''stopped'') (cf_app_ula cfg) (cf_uuid cfg) (cf_pid cfg)
                 served_ref ''serving'' None
          else Health (if rn_hosted r then ''running'' else ''stopped'') (cf_app_ula cfg) (cf_uuid cfg) (cf_pid cfg)
                 served_ref ''unavailable'' (Some (ce_probe_error env)))"

definition snapshot_reply :: "'g command_env \<Rightarrow> 'g runner \<Rightarrow> Reply \<times> 'g runner" where
  "snapshot_reply env r =
     (case snapshot_vm (ce_vm env) (rn_live r) (rn_machine r) of
        (Inr _, m1) \<Rightarrow> (OkReply, r\<lparr>rn_machine := m1\<rparr>)
      | (Inl _, m1) \<Rightarrow> (ErrReply (''snapshot: '' @ ce_snapshot_error env), r\<lparr>rn_machine := m1\<rparr>))"

definition deploy_message :: "string \<Rightarrow> deploy_error \<Rightarrow> string" where
  "deploy_message reff e =
     (case e of
        AuthRejected \<Rightarrow> ''deploy: registry auth for '' @ reff
      | BuildFailed _ \<Rightarrow> ''deploy: build runtime for '' @ reff
      | BootFailed _ \<Rightarrow> ''deploy: build runtime for '' @ reff
      | Unhealthy \<Rightarrow> ''deploy: swap aborted for '' @ reff)"

definition dispatch :: "runner_cfg \<Rightarrow> 'g command_env \<Rightarrow> Cmd \<Rightarrow> 'g runner \<Rightarrow> Reply \<times> 'g runner" where
  "dispatch cfg env cmd r =
     (case cmd of
        Ping \<Rightarrow> (Pong, r)
      | HealthCmd \<Rightarrow> (health_reply cfg env r, r)
      | Stop \<Rightarrow> (OkReply, stop_listener r)
      | Purge \<Rightarrow> (OkReply, purge cfg env r)
      | Deploy reff \<Rightarrow>
          (case deploy cfg env reff r of
             (Inr _, r1) \<Rightarrow> (OkReply, r1)
           | (Inl e, r1) \<Rightarrow> (ErrReply (deploy_message reff e), r1))
      | SnapshotCmd \<Rightarrow> snapshot_reply env r
      | Shutdown \<Rightarrow> (OkReply, (stop_listener r)\<lparr>rn_leaving := True\<rparr>))"

section \<open>Retirement\<close>

text \<open>The drain task calls \<open>shutdown\<close> at once, deletes the TAP when the drain time is over, and lets go of its
  reference; the last reference, which a request in flight may hold, drops the machine.\<close>

definition drain_kill :: "nat \<Rightarrow> 'g runner \<Rightarrow> 'g runner" where
  "drain_kill i r =
     (case rn_retired r ! i of
        (g, v, _) \<Rightarrow> r\<lparr>rn_machine := shutdown_now v (rn_machine r), rn_retired := (rn_retired r)[i := (g, v, Killed)]\<rparr>)"

definition drain_untap :: "nat \<Rightarrow> 'g runner \<Rightarrow> 'g runner" where
  "drain_untap i r =
     (case rn_retired r ! i of
        (g, v, _) \<Rightarrow> r\<lparr>rn_machine := shutdown_tap v (rn_machine r), rn_retired := (rn_retired r)[i := (g, v, Untapped)]\<rparr>)"

definition last_reference :: "nat \<Rightarrow> 'g runner \<Rightarrow> 'g runner" where
  "last_reference i r =
     (case rn_retired r ! i of
        (g, v, _) \<Rightarrow> r\<lparr>rn_machine := drop_vm v (rn_machine r),
                        rn_retired := take i (rn_retired r) @ drop (Suc i) (rn_retired r)\<rparr>)"

text \<open>\<open>P\<close> is what holds of the environments that occur.\<close>

inductive runner_step :: "('g command_env \<Rightarrow> bool) \<Rightarrow> runner_cfg \<Rightarrow> 'g runner \<Rightarrow> 'g runner \<Rightarrow> bool" for P cfg where
  command: "P env \<Longrightarrow> dispatch cfg env cmd r = (reply, r') \<Longrightarrow> runner_step P cfg r r'"
| kill: "i < length (rn_retired r) \<Longrightarrow> snd (snd (rn_retired r ! i)) = Draining \<Longrightarrow> runner_step P cfg r (drain_kill i r)"
| untap: "i < length (rn_retired r) \<Longrightarrow> snd (snd (rn_retired r ! i)) = Killed \<Longrightarrow> runner_step P cfg r (drain_untap i r)"
| forget: "i < length (rn_retired r) \<Longrightarrow> snd (snd (rn_retired r ! i)) = Untapped \<Longrightarrow> runner_step P cfg r (last_reference i r)"
| dies: "runner_step P cfg r (r\<lparr>rn_machine := on_host (remove_pid pd) (rn_machine r)\<rparr>)"

section \<open>Starting and ending\<close>

definition GUEST_SSH_PORT :: u16 where "GUEST_SSH_PORT = 2222"
definition CODE_SERVICE_PORT :: u16 where "CODE_SERVICE_PORT = 8731"
definition GUEST_BROKER_CTRL_PORT :: u16 where "GUEST_BROKER_CTRL_PORT = 8732"

text \<open>The guest addresses of a machine, and those the slot passes on: it does not forward the third method
  of the trait, whose default is \<open>None\<close>.\<close>

definition vm_guest_addrs :: "vm \<Rightarrow> (u16 \<times> u32) option \<times> (u16 \<times> u32) option \<times> (u16 \<times> u32) option" where
  "vm_guest_addrs v =
     (Some (GUEST_SSH_PORT, vm_guest_ip v), Some (CODE_SERVICE_PORT, vm_guest_ip v),
      Some (GUEST_BROKER_CTRL_PORT, vm_guest_ip v))"

definition slot_guest_addrs :: "vm \<Rightarrow> (u16 \<times> u32) option \<times> (u16 \<times> u32) option \<times> (u16 \<times> u32) option" where
  "slot_guest_addrs v = (case vm_guest_addrs v of (ssh, code, _) \<Rightarrow> (ssh, code, None))"

definition start_forwarders :: "bool \<Rightarrow> (u16 \<Rightarrow> bool) \<Rightarrow> vm \<Rightarrow> (u16 \<times> u32) list" where
  "start_forwarders no_mesh bind_ok v =
     (case slot_guest_addrs v of
        (ssh, code, ctrl) \<Rightarrow>
          if no_mesh then []
          else concat (map (\<lambda>addr. case addr of Some (p, ip) \<Rightarrow> if bind_ok p then [(p, ip)] else [] | None \<Rightarrow> [])
                 [ssh, code, ctrl]))"

datatype start_error = NoRegistryRefForToken | RegistryConfigFailed | RuntimeFailed deploy_error | MeshJoinFailed | HostFailed

definition start_registry ::
  "'g command_env \<Rightarrow> runner_cfg \<Rightarrow> string option \<Rightarrow> start_error + RegistryConfig option" where
  "start_registry env cfg token =
     (case token of
        None \<Rightarrow> Inr None
      | Some t \<Rightarrow>
          (case cf_registry_ref cfg of
             None \<Rightarrow> Inl NoRegistryRefForToken
           | Some reff \<Rightarrow>
               (case new_registry_config (ce_auth_io env) t reff of
                  None \<Rightarrow> Inl RegistryConfigFailed
                | Some config \<Rightarrow> Inr (Some config))))"

text \<open>\<open>RunnerServe::start\<close> after the fetch: when a later step fails, the machine is dropped.\<close>

definition start_runner ::
  "runner_cfg \<Rightarrow> 'g command_env \<Rightarrow> string option \<Rightarrow> bool \<Rightarrow> bool \<Rightarrow> (u16 \<Rightarrow> bool) \<Rightarrow> disk \<Rightarrow> 'g machine \<Rightarrow>
   (start_error + 'g runner) \<times> 'g machine" where
  "start_runner cfg env token mesh_ok host_ok bind_ok k m =
     (case start_registry env cfg token of
        Inl e \<Rightarrow> (Inl e, m)
      | Inr registry \<Rightarrow>
          (case build_runtime (ce_vm env)
                  ((ce_build env)\<lparr>wd_registry_config := (if registry = None then None else Some (ce_auth_file env))\<rparr>)
                  cfg (cf_registry_ref cfg) False k m of
             (Inl e, k1, m1) \<Rightarrow> (Inl (RuntimeFailed e), m1)
           | (Inr v, k1, m1) \<Rightarrow>
               if \<not> cf_no_mesh cfg \<and> \<not> mesh_ok then (Inl MeshJoinFailed, drop_vm v m1)
               else if \<not> host_ok then (Inl HostFailed, drop_vm v m1)
               else
                 let (dg, registry') =
                       (case cf_registry_ref cfg of
                          Some reff \<Rightarrow> resolve_digest env (ce_later env) reff registry
                        | None \<Rightarrow> (None, registry))
                 in (Inr \<lparr>rn_machine = m1, rn_disk = k1, rn_live = v, rn_ref = cf_registry_ref cfg, rn_gen = 0,
                          rn_retired = [], rn_hosted = True, rn_digest = dg, rn_registry = registry',
                          rn_leaving = False, rn_forwards = start_forwarders (cf_no_mesh cfg) bind_ok v\<rparr>, m1)))"

datatype RunnerExit = Crashed nat | CleanShutdown

definition decide_exit :: "nat option \<Rightarrow> RunnerExit" where
  "decide_exit died = (case died of Some g \<Rightarrow> Crashed g | None \<Rightarrow> CleanShutdown)"

text \<open>The loop of \<open>run_until_exit\<close>. It loads the slot, and only when the \<open>select!\<close> is polled for the first
  time is its waiter registered: a swap before that (in \<open>Loaded\<close>) does not wake it.\<close>

datatype watch = Loaded nat | Waiting nat | Woken nat

fun watched :: "watch \<Rightarrow> nat" where
  "watched (Loaded g) = g" | "watched (Waiting g) = g" | "watched (Woken g) = g"

fun notified :: "watch \<Rightarrow> watch" where
  "notified (Waiting g) = Woken g" | "notified w = w"

definition machine_of :: "nat \<Rightarrow> 'g runner \<Rightarrow> vm option" where
  "machine_of g r = (if g = rn_gen r then Some (rn_live r) else map_option fst (map_of (rn_retired r) g))"

text \<open>\<open>waitpid\<close> says that the process of the watched machine is gone.\<close>

definition exited :: "nat \<Rightarrow> 'g runner \<Rightarrow> bool" where
  "exited g r =
     (case machine_of g r of Some v \<Rightarrow> \<not> fc_alive (rn_machine r) (vm_child v) | None \<Rightarrow> True)"

inductive loop_step ::
  "('g command_env \<Rightarrow> bool) \<Rightarrow> runner_cfg \<Rightarrow> 'g runner \<times> watch \<Rightarrow> 'g runner \<times> watch \<Rightarrow> bool" for P cfg where
  act: "runner_step P cfg r r' \<Longrightarrow> loop_step P cfg (r, w) (r', if rn_gen r' = rn_gen r then w else notified w)"
| poll: "loop_step P cfg (r, Loaded g) (r, Waiting g)"
| swapped: "loop_step P cfg (r, Woken g) (r, Loaded (rn_gen r))"
| retired: "exited (watched w) r \<Longrightarrow> watched w \<noteq> rn_gen r \<Longrightarrow> loop_step P cfg (r, w) (r, Loaded (rn_gen r))"

inductive loop_ends :: "'g runner \<times> watch \<Rightarrow> RunnerExit \<Rightarrow> bool" where
  crash: "exited (watched w) r \<Longrightarrow> watched w = rn_gen r \<Longrightarrow> loop_ends (r, w) (decide_exit (Some (watched w)))"
| asked: "rn_leaving r \<Longrightarrow> loop_ends (r, w) (decide_exit None)"

text \<open>What the process leaves behind: after a crash everything as it is, else the machine of the slot is shut
  down first.\<close>

definition runner_end :: "RunnerExit \<Rightarrow> 'g runner \<Rightarrow> 'g machine" where
  "runner_end e r =
     (case e of Crashed _ \<Rightarrow> rn_machine r
      | CleanShutdown \<Rightarrow> shutdown_tap (rn_live r) (shutdown_now (rn_live r) (rn_machine r)))"

text \<open>The persistent key of a runner and its tags in the mesh.\<close>

definition runner_keypair_path :: "string \<Rightarrow> string \<Rightarrow> string" where
  "runner_keypair_path d u = join_path (join_path d ''runners'') (u @ ''.meshkey'')"

definition NET_TAG_PREFIX :: string where "NET_TAG_PREFIX = ''tag:net-''"

definition network_tags :: "string option \<Rightarrow> string list" where
  "network_tags network_slug =
     ''runner'' # (case network_slug of Some s \<Rightarrow> if trim s = [] then [] else [NET_TAG_PREFIX @ s] | None \<Rightarrow> [])"

end
