(* ===== verification/HotSwapLaws.thy ===== *)
theory HotSwapLaws
  imports HotSwap
begin

text \<open>
  What deploys do to the machine that serves: one that fails changes nothing of it, none is built under the
  reference it runs, and the loop that waits for the end sees its death whatever swaps came before.
\<close>

section \<open>What a build launches\<close>

lemma launch_request_reff:
  "launch_request w d u rt mem reff vars cf eh gl ws k = (Inr l, k') \<Longrightarrow> la_reff l = reff"
  unfolding launch_request_def launch_firecracker_def
  by (auto split: prod.splits option.splits sum.splits)

lemma build_reff:
  assumes "run_firecracker_build w d u rt mem (Some raw) xenv k = (Inr l, k')"
  shows "la_reff l = lowercase_oci_repo raw"
  using assms unfolding run_firecracker_build_def
  by (auto split: prod.splits sum.splits dest: launch_request_reff)

definition deploy_vm_key :: "runner_cfg \<Rightarrow> string \<Rightarrow> string" where
  "deploy_vm_key cfg runtime_ref = deploy_key (cf_uuid cfg) (lowercase_oci_repo runtime_ref)"

definition tap_of :: "'g vm_env \<Rightarrow> runner_cfg \<Rightarrow> string \<Rightarrow> string" where
  "tap_of env cfg runtime_ref = fc_tap_name_for_key (b3 (ve_link env)) (deploy_vm_key cfg runtime_ref)"

text \<open>A machine none of whose names the build of a reference takes.\<close>

definition clear_of_build :: "'g vm_env \<Rightarrow> runner_cfg \<Rightarrow> string \<Rightarrow> vm \<Rightarrow> proc \<Rightarrow> bool" where
  "clear_of_build env cfg runtime_ref v p \<longleftrightarrow>
     clear_of env (deploy_vm_key cfg runtime_ref) (tap_of env cfg runtime_ref) v p"

lemma stands_marked [simp]: "stands v p g (marked u k m) = stands v p g m"
  by (simp add: marked_def)

lemma build_launches:
  assumes "build_runtime env w cfg (Some runtime_ref) is_swap k m = (res, k1, m1)"
  shows "(\<exists>e. res = Inl e \<and> m1 = marked (cf_uuid cfg) k1 m) \<or>
    (\<exists>l x. la_reff l = lowercase_oci_repo runtime_ref \<and>
       launch_with_uuid env (args_of cfg is_swap l) (marked (cf_uuid cfg) k1 m) = (x, m1) \<and>
       res = (case x of Inl e \<Rightarrow> Inl (BootFailed e) | Inr v \<Rightarrow> Inr v))"
  using assms unfolding build_runtime_def
  by (auto split: prod.splits sum.splits dest!: build_reff)

lemma build_stands:
  assumes "build_runtime env w cfg (Some runtime_ref) True k m = (res, k1, m1)" "stands v p g m"
    "clear_of_build env cfg runtime_ref v p"
  shows "stands v p g m1"
    "res = Inr new \<Longrightarrow> apart v p (vm_child new) (vm_tap_name new) (vm_api_sock new) (vm_fc_scope new)"
proof -
  have key: "deploy_key (va_uuid (args_of cfg True l)) (va_reff (args_of cfg True l)) = deploy_vm_key cfg runtime_ref"
    "va_is_swap (args_of cfg True l)"
    if "la_reff l = lowercase_oci_repo runtime_ref" for l
    using that by (simp_all add: args_of_def deploy_vm_key_def)
  show "stands v p g m1"
    using build_launches [OF assms (1)]
  proof (elim disjE exE conjE)
    fix l x assume l: "la_reff l = lowercase_oci_repo runtime_ref"
      and x: "launch_with_uuid env (args_of cfg True l) (marked (cf_uuid cfg) k1 m) = (x, m1)"
    show ?thesis
      by (rule swap_stands [OF x])
        (use assms (2,3) key [OF l] in \<open>simp_all add: clear_of_build_def tap_of_def\<close>)
  qed (use assms (2) in simp)
  show "apart v p (vm_child new) (vm_tap_name new) (vm_api_sock new) (vm_fc_scope new)" if new: "res = Inr new"
    using build_launches [OF assms (1)]
  proof (elim disjE exE conjE)
    fix l x assume l: "la_reff l = lowercase_oci_repo runtime_ref"
      and x: "launch_with_uuid env (args_of cfg True l) (marked (cf_uuid cfg) k1 m) = (x, m1)"
      and res: "res = (case x of Inl e \<Rightarrow> Inl (BootFailed e) | Inr v \<Rightarrow> Inr v)"
    have "x = Inr new" using res new by (auto split: sum.splits)
    from swap_apart [OF x [unfolded this]] show ?thesis
      using assms (3) key [OF l] by (simp add: clear_of_build_def tap_of_def)
  qed (use new in simp)
qed

section \<open>A deploy that fails\<close>

text \<open>What a runner shows of the app it serves.\<close>

definition same_service :: "'g runner \<Rightarrow> 'g runner \<Rightarrow> bool" where
  "same_service r r' \<longleftrightarrow>
     rn_live r' = rn_live r \<and> rn_ref r' = rn_ref r \<and> rn_gen r' = rn_gen r \<and> rn_retired r' = rn_retired r \<and>
     rn_hosted r' = rn_hosted r \<and> rn_digest r' = rn_digest r \<and> rn_leaving r' = rn_leaving r \<and>
     rn_forwards r' = rn_forwards r"

lemma same_service_refl [simp]: "same_service r r"
  by (simp add: same_service_def)

lemma guard_same:
  assumes "deploy_guard env reff r = (x, r1)"
  shows "same_service r r1" "rn_machine r1 = rn_machine r" "rn_disk r1 = rn_disk r"
  using assms unfolding deploy_guard_def Let_def
  by (auto simp: same_service_def split: if_splits prod.splits option.splits)

lemma auth_same:
  assumes "auth_file env reff r = (x, r1)"
  shows "same_service r r1" "rn_machine r1 = rn_machine r" "rn_disk r1 = rn_disk r"
  using assms unfolding auth_file_def
  by (auto simp: same_service_def split: option.splits prod.splits)

lemma perform_swap_cases:
  assumes "perform_swap answers new sref r = (res, r')"
  obtains (unhealthy) "res = Inl Unhealthy" "r' = r\<lparr>rn_machine := discard_vm new (rn_machine r)\<rparr>"
  | (swapped) "res = Inr ()" "r' = r\<lparr>rn_live := new, rn_ref := sref, rn_gen := Suc (rn_gen r),
      rn_retired := rn_retired r @ [(rn_gen r, rn_live r, Draining)]\<rparr>"
proof (cases "await_healthy (\<lambda>n. apfst (\<lambda>a. vm_health a new (rn_machine r)) (answers n)) DEPLOY_HEALTH_TIMEOUT 0 0")
  case True
  with assms have "res = Inr () \<and> r' = r\<lparr>rn_live := new, rn_ref := sref, rn_gen := Suc (rn_gen r),
      rn_retired := rn_retired r @ [(rn_gen r, rn_live r, Draining)]\<rparr>"
    by (auto simp: perform_swap_def swap_with_ref_def)
  then show thesis by (intro swapped) simp_all
next
  case False
  with assms show thesis by (intro unhealthy) (auto simp: perform_swap_def)
qed

lemma note_digest_fields [simp]:
  "rn_machine (note_digest env ref0 d r) = rn_machine r" "rn_live (note_digest env ref0 d r) = rn_live r"
  "rn_ref (note_digest env ref0 d r) = rn_ref r" "rn_gen (note_digest env ref0 d r) = rn_gen r"
  "rn_retired (note_digest env ref0 d r) = rn_retired r" "rn_forwards (note_digest env ref0 d r) = rn_forwards r"
  "rn_hosted (note_digest env ref0 d r) = rn_hosted r" "rn_leaving (note_digest env ref0 d r) = rn_leaving r"
  by (simp_all add: note_digest_def split: option.splits prod.splits)

text \<open>The ways a deploy past the guard ends.\<close>

lemma deploy_to_cases:
  assumes "deploy_to cfg env runtime_ref resolved r = (res, r')"
  obtains (auth) "res = Inl AuthRejected" "same_service r r'" "rn_machine r' = rn_machine r"
  | (build) w k1 m1 e where "build_runtime (ce_vm env) w cfg (Some runtime_ref) True (rn_disk r) (rn_machine r) = (Inl e, k1, m1)"
      "res = Inl e" "same_service r r'" "rn_machine r' = m1"
  | (unhealthy) w k1 m1 new where
      "build_runtime (ce_vm env) w cfg (Some runtime_ref) True (rn_disk r) (rn_machine r) = (Inr new, k1, m1)"
      "res = Inl Unhealthy" "same_service r r'" "rn_machine r' = discard_vm new m1"
  | (swapped) w k1 m1 new registry where
      "build_runtime (ce_vm env) w cfg (Some runtime_ref) True (rn_disk r) (rn_machine r) = (Inr new, k1, m1)"
      "res = Inr ()"
      "r' = note_digest env runtime_ref resolved (r\<lparr>rn_registry := registry, rn_disk := k1, rn_machine := m1, rn_live := new,
         rn_ref := Some runtime_ref, rn_gen := Suc (rn_gen r), rn_retired := rn_retired r @ [(rn_gen r, rn_live r, Draining)]\<rparr>)"
proof -
  obtain config r1 where a: "auth_file env runtime_ref r = (config, r1)" by fastforce
  note s1 = auth_same [OF a]
  show thesis
  proof (cases config)
    case None
    with assms a s1 show thesis by (intro auth) (auto simp: deploy_to_def)
  next
    case (Some file0)
    define w where "w = (ce_build env)\<lparr>wd_registry_config := file0\<rparr>"
    obtain x k1 m1 where b: "build_runtime (ce_vm env) w cfg (Some runtime_ref) True (rn_disk r) (rn_machine r) = (x, k1, m1)"
      by (metis prod.exhaust)
    define r2 where "r2 = r1\<lparr>rn_disk := k1, rn_machine := m1\<rparr>"
    have s2: "same_service r r2" using s1 (1) by (simp add: r2_def same_service_def)
    have run: "(case x of Inl e \<Rightarrow> (Inl e, r2) | Inr new \<Rightarrow>
        (case perform_swap (ce_new_answers env) new (Some runtime_ref) r2 of
           (Inl e, r3) \<Rightarrow> (Inl e, r3) | (Inr _, r3) \<Rightarrow> (Inr (), note_digest env runtime_ref resolved r3))) = (res, r')"
      using assms b unfolding deploy_to_def Let_def r2_def by (simp add: a Some w_def [symmetric] s1 (2,3))
    show thesis
    proof (cases x)
      case (Inl e)
      then show thesis using run b s2 by (intro build [of w e k1 m1]) (auto simp: r2_def)
    next
      case (Inr new)
      obtain res3 r3 where p: "perform_swap (ce_new_answers env) new (Some runtime_ref) r2 = (res3, r3)" by fastforce
      from p show thesis
      proof (cases rule: perform_swap_cases)
        case unhealthy
        have out: "res = Inl Unhealthy" "r' = r3" using run by (simp_all add: Inr p unhealthy (1))
        have "same_service r r3" using s2 unfolding unhealthy (2) by (simp add: same_service_def)
        moreover have "rn_machine r3 = discard_vm new m1" unfolding unhealthy (2) by (simp add: r2_def)
        ultimately show thesis by (intro that (3) [OF b [unfolded Inr]]) (simp_all add: out)
      next
        case sw: swapped
        define registry where "registry = rn_registry r1"
        have "r3 = r\<lparr>rn_registry := registry, rn_disk := k1, rn_machine := m1, rn_live := new, rn_ref := Some runtime_ref,
            rn_gen := Suc (rn_gen r), rn_retired := rn_retired r @ [(rn_gen r, rn_live r, Draining)]\<rparr>"
          using s1 by (simp add: sw r2_def same_service_def registry_def)
        then show thesis
          using run by (intro swapped [OF b [unfolded Inr]]) (auto simp: Inr p sw (1))
      qed
    qed
  qed
qed

text \<open>C4: A deploy that fails leaves the app as it was. Whatever it fails at (the registry refuses, the image
  does not build, the machine does not boot or never becomes healthy), the slot, its reference, the recorded
  digest, the listener, the retirements and the forwarders are the same, and the machine that serves still
  stands with its process, TAP, socket and guest, as long as the build's names are not its own.\<close>

theorem failed_deploy_keeps_the_app:
  assumes "deploy cfg env reff r = (Inl e, r')" "stands (rn_live r) p g (rn_machine r)"
    "\<forall>runtime_ref resolved r1. deploy_guard env reff r = (Some (runtime_ref, resolved), r1) \<longrightarrow>
       clear_of_build (ce_vm env) cfg runtime_ref (rn_live r) p"
  shows "same_service r r' \<and> stands (rn_live r) p g (rn_machine r')"
proof -
  obtain x r1 where g: "deploy_guard env reff r = (x, r1)" by fastforce
  note s1 = guard_same [OF g]
  have trans: "same_service r1 y \<Longrightarrow> same_service r y" for y using s1 (1) by (simp add: same_service_def)
  from assms (1) g obtain runtime_ref resolved where x: "x = Some (runtime_ref, resolved)"
    and d: "deploy_to cfg env runtime_ref resolved r1 = (Inl e, r')"
    by (cases x) (auto simp: deploy_def)
  have clear: "clear_of_build (ce_vm env) cfg runtime_ref (rn_live r) p" using assms (3) g x by blast
  have st: "stands (rn_live r) p g (rn_machine r1)" using assms (2) s1 by simp
  from d show ?thesis
  proof (cases rule: deploy_to_cases)
    case auth
    then show ?thesis using trans st by simp
  next
    case (build w k1 m1 e')
    then show ?thesis using trans build_stands (1) [OF build (1) st clear] by simp
  next
    case (unhealthy w k1 m1 new)
    have "stands (rn_live r) p g m1" by (rule build_stands (1) [OF unhealthy (1) st clear])
    moreover have "apart (rn_live r) p (vm_child new) (vm_tap_name new) (vm_api_sock new) (vm_fc_scope new)"
      by (rule build_stands (2) [OF unhealthy (1) st clear refl])
    ultimately have "stands (rn_live r) p g (discard_vm new m1)"
      unfolding discard_vm_def by (intro stands_shutdown)
    then show ?thesis using unhealthy trans by simp
  qed simp
qed

section \<open>What a runner keeps\<close>

text \<open>A registry resolves a reference with a digest to that digest.\<close>

definition pin_of :: "string \<Rightarrow> string option" where
  "pin_of reff = map_option snd (split_once CHR ''@'' reff)"

definition honest :: "blake3 \<Rightarrow> 'g command_env \<Rightarrow> bool" where
  "honest b env \<longleftrightarrow> b3 (ve_link (ce_vm env)) = b \<and>
     (\<forall>reff d config. pin_of reff = Some d \<longrightarrow>
        resolve_oci_digest ((ce_build env)\<lparr>wd_registry_config := config\<rparr>) (lowercase_oci_repo reff) \<in> {None, Some d} \<and>
        resolve_oci_digest ((ce_later env)\<lparr>wd_registry_config := config\<rparr>) (lowercase_oci_repo reff) \<in> {None, Some d})"

lemma split_once_None: "split_once c s = None \<Longrightarrow> c \<notin> set s"
  by (induction s) (auto split: if_splits option.splits)

lemma pin_of_pinned [simp]: "pin_of (digest_pinned_oci_ref reff dg) = Some dg"
proof -
  define base where "base = (case split_once CHR ''@'' reff of Some (repository, _) \<Rightarrow> repository | None \<Rightarrow> reff)"
  have base: "CHR ''@'' \<notin> set base"
    by (auto simp: base_def split: option.splits dest: split_once_Some split_once_None)
  define repo where "repo = (case rsplit_once CHR '':'' base of
      Some (a, tag) \<Rightarrow> if CHR ''/'' \<in> set tag then base else a | None \<Rightarrow> base)"
  have "set a \<subseteq> set base" if "rsplit_once CHR '':'' base = Some (a, tag)" for a tag
  proof -
    from that obtain x y where "split_once CHR '':'' (rev base) = Some (x, y)" "a = rev y"
      by (auto simp: rsplit_once_def)
    then have e: "rev base = x @ CHR '':'' # y" and a: "a = rev y" using split_once_Some by fast+
    have "set base = set (x @ CHR '':'' # y)" using e by (metis set_rev)
    then show ?thesis by (auto simp: a)
  qed
  then have "set repo \<subseteq> set base"
    by (auto simp: repo_def split: option.splits)
  then have "CHR ''@'' \<notin> set repo" using base by blast
  then show ?thesis
    by (simp add: pin_of_def digest_pinned_oci_ref_def base_def [symmetric] repo_def [symmetric] split_once_append)
qed

lemma resolve_honest:
  assumes "honest b env" "pin_of reff = Some d" "w = ce_build env \<or> w = ce_later env"
  shows "fst (resolve_digest env w reff registry) \<in> {None, Some d}"
  using assms unfolding resolve_digest_def honest_def Let_def
  by (auto split: option.splits prod.splits bool.splits)

text \<open>The recorded digest of a pinned reference is its pin.\<close>

definition digest_fits :: "'g runner \<Rightarrow> bool" where
  "digest_fits r \<longleftrightarrow> (\<forall>reff d. rn_ref r = Some reff \<longrightarrow> pin_of reff = Some d \<longrightarrow> rn_digest r \<in> {None, Some d})"

text \<open>The machine in the slot has the names of the reference beside it and the type of the app; the
  retired machines have older generations.\<close>

definition slot_typed :: "blake3 \<Rightarrow> runner_cfg \<Rightarrow> 'g runner \<Rightarrow> bool" where
  "slot_typed b cfg r \<longleftrightarrow>
     (\<exists>reff. rn_ref r = Some reff \<and> named_for b (deploy_vm_key cfg reff) (rn_live r)) \<and>
     vm_stateful (rn_live r) = rt_stateful (cf_rt cfg) \<and>
     distinct (map fst (rn_retired r)) \<and> (\<forall>(g, v, st) \<in> set (rn_retired r). g < rn_gen r)"

definition runner_ok :: "blake3 \<Rightarrow> runner_cfg \<Rightarrow> 'g runner \<Rightarrow> bool" where
  "runner_ok b cfg r \<longleftrightarrow> slot_typed b cfg r \<and> digest_fits r"

lemma build_named:
  assumes "build_runtime env w cfg (Some runtime_ref) is_swap k m = (Inr v, k1, m1)"
  shows "named_for (b3 (ve_link env)) (deploy_vm_key cfg runtime_ref) v \<and> vm_stateful v = rt_stateful (cf_rt cfg)"
  using build_launches [OF assms]
proof (elim disjE exE conjE)
  fix l x assume l: "la_reff l = lowercase_oci_repo runtime_ref"
    and x: "launch_with_uuid env (args_of cfg is_swap l) (marked (cf_uuid cfg) k1 m) = (x, m1)"
    and res: "Inr v = (case x of Inl e \<Rightarrow> Inl (BootFailed e) | Inr v \<Rightarrow> Inr v)"
  have "x = Inr v" using res by (auto split: sum.splits)
  from launch_named [OF x [unfolded this]] show ?thesis
    by (simp add: args_of_def deploy_vm_key_def l)
qed simp

lemma ok_same:
  "same_service r r' \<Longrightarrow> runner_ok b cfg r \<Longrightarrow> runner_ok b cfg r'"
  by (simp add: same_service_def runner_ok_def slot_typed_def digest_fits_def)

text \<open>What the guard hands on.\<close>

lemma guard_resolved:
  assumes "deploy_guard env reff r = (Some (runtime_ref, Some want), r1)"
  shows "fst (resolve_digest env (ce_build env) reff (rn_registry r)) = Some want"
    "runtime_ref = reff \<or> runtime_ref = digest_pinned_oci_ref reff want" "rn_digest r \<noteq> Some want"
  using assms unfolding deploy_guard_def Let_def
  by (auto simp: moved_tag_runtime_ref_def split: if_splits prod.splits option.splits)

lemma note_fits:
  assumes "honest b env" "\<And>want d. resolved = Some want \<Longrightarrow> pin_of runtime_ref = Some d \<Longrightarrow> want = d"
    "rn_ref r = Some runtime_ref"
  shows "digest_fits (note_digest env runtime_ref resolved r)"
  using assms resolve_honest [OF assms (1), of runtime_ref _ "ce_later env" "rn_registry r"]
  by (fastforce simp: digest_fits_def note_digest_def split: option.splits prod.splits)

lemma deploy_ok:
  assumes "honest b env" "deploy cfg env reff r = (res, r')" "runner_ok b cfg r"
  shows "runner_ok b cfg r'"
proof -
  obtain x r1 where g: "deploy_guard env reff r = (x, r1)" by fastforce
  have ok1: "runner_ok b cfg r1" by (rule ok_same [OF guard_same (1) [OF g] assms (3)])
  show ?thesis
  proof (cases x)
    case None
    then show ?thesis using assms (2) g ok1 by (simp add: deploy_def)
  next
    case (Some z)
    obtain runtime_ref resolved where z: "z = (runtime_ref, resolved)" by fastforce
    have d: "deploy_to cfg env runtime_ref resolved r1 = (res, r')" using assms (2) g Some z by (simp add: deploy_def)
    have pin: "want = d" if "resolved = Some want" "pin_of runtime_ref = Some d" for want d
    proof -
      note f = guard_resolved [OF g [unfolded Some z that (1)]]
      from f (2) show ?thesis
      proof
        assume "runtime_ref = reff"
        then show ?thesis
          using resolve_honest [OF assms (1), of reff d "ce_build env" "rn_registry r"] f (1) that (2) by auto
      qed (use that (2) in simp)
    qed
    from d show ?thesis
    proof (cases rule: deploy_to_cases)
      case (swapped w k1 m1 new registry)
      have b: "b3 (ve_link (ce_vm env)) = b" using assms (1) by (simp add: honest_def)
      have "digest_fits r'" unfolding swapped (3) by (rule note_fits [OF assms (1) pin]) simp_all
      moreover have "slot_typed b cfg r'"
        using build_named [OF swapped (1)] ok1 unfolding swapped (3) runner_ok_def slot_typed_def b
        by (fastforce simp: less_Suc_eq)
      ultimately show ?thesis by (simp add: runner_ok_def)
    qed (use ok1 ok_same in blast)+
  qed
qed

lemma distinct_fst_update: "i < length xs \<Longrightarrow> fst (xs ! i) = g \<Longrightarrow> map fst (xs[i := (g, y)]) = map fst xs"
  by (metis fst_conv list_update_id map_update)

lemma retire_typed:
  assumes "i < length (rn_retired r)" "slot_typed b cfg r"
  shows "slot_typed b cfg (drain_kill i r)" "slot_typed b cfg (drain_untap i r)" "slot_typed b cfg (last_reference i r)"
proof -
  obtain g v st where e: "rn_retired r ! i = (g, v, st)" by (metis prod.exhaust)
  have mem: "(g, v, st) \<in> set (rn_retired r)" using assms (1) e by (metis nth_mem)
  have dist: "distinct (map fst ((rn_retired r)[i := (g, v, y)]))" for y
    using assms by (simp add: distinct_fst_update e slot_typed_def)
  have less: "(g', v', st') \<in> set ((rn_retired r)[i := (g, v, y)]) \<Longrightarrow> g' < rn_gen r" for y g' v' st'
    using assms (2) mem set_update_subset_insert [of "rn_retired r" i "(g, v, y)"] by (fastforce simp: slot_typed_def)
  show "slot_typed b cfg (drain_kill i r)" "slot_typed b cfg (drain_untap i r)"
    using assms (2) dist less by (auto simp: drain_kill_def drain_untap_def e slot_typed_def)
  have "distinct (map fst (take i (rn_retired r) @ drop (Suc i) (rn_retired r)))"
  proof -
    have "map fst (rn_retired r) = map fst (take i (rn_retired r)) @ fst (rn_retired r ! i) # map fst (drop (Suc i) (rn_retired r))"
      by (metis id_take_nth_drop [OF assms (1)] map_append list.simps (9))
    then have "distinct (map fst (take i (rn_retired r)) @ fst (rn_retired r ! i) # map fst (drop (Suc i) (rn_retired r)))"
      using assms (2) by (simp add: slot_typed_def)
    then show ?thesis by simp
  qed
  then show "slot_typed b cfg (last_reference i r)"
    using assms (2) by (auto simp: last_reference_def e slot_typed_def dest!: in_set_takeD in_set_dropD)
qed

lemma ok_machine [simp]: "runner_ok b cfg (r\<lparr>rn_machine := m\<rparr>) = runner_ok b cfg r"
  "runner_ok b cfg (r\<lparr>rn_disk := k\<rparr>) = runner_ok b cfg r"
  "runner_ok b cfg (r\<lparr>rn_hosted := h\<rparr>) = runner_ok b cfg r"
  "runner_ok b cfg (r\<lparr>rn_leaving := h\<rparr>) = runner_ok b cfg r"
  by (simp_all add: runner_ok_def slot_typed_def digest_fits_def)

lemma retire_fits [simp]:
  "digest_fits (drain_kill i r) = digest_fits r" "digest_fits (drain_untap i r) = digest_fits r"
  "digest_fits (last_reference i r) = digest_fits r"
  by (simp_all add: digest_fits_def drain_kill_def drain_untap_def last_reference_def split: prod.splits)

lemma step_ok:
  assumes "runner_step (honest b) cfg r r'" "runner_ok b cfg r"
  shows "runner_ok b cfg r'"
  using assms
proof (cases rule: runner_step.cases)
  case (command env cmd reply)
  then show ?thesis
  proof (cases cmd)
    case (Deploy reff)
    obtain res r1 where d: "deploy cfg env reff r = (res, r1)" by fastforce
    have "r' = r1" using command (2) Deploy d by (auto simp: dispatch_def split: sum.splits)
    then show ?thesis using deploy_ok [OF command (1) d assms (2)] by simp
  qed (use assms (2) in \<open>auto simp: dispatch_def stop_listener_def purge_def purge_app_dir_def snapshot_reply_def Let_def
      split: if_splits sum.splits prod.splits\<close>)
next
  case (kill i)
  then show ?thesis using assms (2) retire_typed (1) [of i r b cfg] by (simp add: runner_ok_def)
next
  case (untap i)
  then show ?thesis using assms (2) retire_typed (2) [of i r b cfg] by (simp add: runner_ok_def)
next
  case (forget i)
  then show ?thesis using assms (2) retire_typed (3) [of i r b cfg] by (simp add: runner_ok_def)
qed (use assms (2) in simp)

lemma steps_ok: "(runner_step (honest b) cfg)\<^sup>*\<^sup>* r r' \<Longrightarrow> runner_ok b cfg r \<Longrightarrow> runner_ok b cfg r'"
  by (induction rule: rtranclp_induct) (auto dest: step_ok)

text \<open>How a start succeeds.\<close>

lemma startE:
  assumes "start_runner cfg env token mesh_ok host_ok bind_ok k m = (Inr r, m')"
  obtains reff w v k1 registry where "cf_registry_ref cfg = Some reff"
    "build_runtime (ce_vm env) w cfg (Some reff) False k m = (Inr v, k1, m')"
    "rn_live r = v" "rn_ref r = Some reff" "rn_gen r = 0" "rn_retired r = []"
    "rn_digest r = fst (resolve_digest env (ce_later env) reff registry)"
    "rn_forwards r = start_forwarders (cf_no_mesh cfg) bind_ok v" "rn_machine r = m'" "rn_hosted r" "\<not> rn_leaving r"
proof -
  from assms obtain registry where g: "start_registry env cfg token = Inr registry"
    by (auto simp: start_runner_def split: sum.splits)
  define w where "w = (ce_build env)\<lparr>wd_registry_config := (if registry = None then None else Some (ce_auth_file env))\<rparr>"
  obtain res k1 m1 where b: "build_runtime (ce_vm env) w cfg (cf_registry_ref cfg) False k m = (res, k1, m1)"
    by (metis prod.exhaust)
  from assms obtain v where res: "res = Inr v"
    unfolding start_runner_def g w_def [symmetric] sum.case b prod.case by (cases res) auto
  have ref: "cf_registry_ref cfg \<noteq> None"
    using b res by (auto simp: build_runtime_def run_firecracker_build_def split: prod.splits sum.splits option.splits)
  then obtain reff where reff: "cf_registry_ref cfg = Some reff" by blast
  obtain dg registry' where d: "resolve_digest env (ce_later env) reff registry = (dg, registry')" by fastforce
  have r: "r = \<lparr>rn_machine = m1, rn_disk = k1, rn_live = v, rn_ref = Some reff, rn_gen = 0,
                rn_retired = [], rn_hosted = True, rn_digest = dg, rn_registry = registry',
                rn_leaving = False, rn_forwards = start_forwarders (cf_no_mesh cfg) bind_ok v\<rparr> \<and> m' = m1"
    using assms unfolding start_runner_def g w_def [symmetric] sum.case b prod.case res
    by (auto simp: reff d split: if_splits)
  show thesis
    by (rule that [OF reff, of w v k1 registry]) (use b r d reff res in auto)
qed

lemma start_ok:
  assumes "start_runner cfg env token mesh_ok host_ok bind_ok k m = (Inr r, m')" "honest b env"
  shows "runner_ok b cfg r"
  using assms (1)
proof (rule startE)
  fix reff w v k1 registry
  assume "cf_registry_ref cfg = Some reff" and bt: "build_runtime (ce_vm env) w cfg (Some reff) False k m = (Inr v, k1, m')"
    and r: "rn_live r = v" "rn_ref r = Some reff" "rn_gen r = 0" "rn_retired r = []"
      "rn_digest r = fst (resolve_digest env (ce_later env) reff registry)"
  have "b3 (ve_link (ce_vm env)) = b" using assms (2) by (simp add: honest_def)
  then have "slot_typed b cfg r" using build_named [OF bt] r by (simp add: slot_typed_def)
  moreover have "digest_fits r"
    using resolve_honest [OF assms (2), of reff _ "ce_later env" registry] r by (simp add: digest_fits_def)
  ultimately show ?thesis by (simp add: runner_ok_def)
qed


section \<open>The reference a deploy builds\<close>

lemma guard_fresh:
  assumes "deploy_guard env reff r = (Some (runtime_ref, resolved), r1)" "honest b env" "digest_fits r"
    "vm_health (ce_answers env) (rn_live r) (rn_machine r)"
  shows "rn_ref r \<noteq> Some runtime_ref"
proof (cases resolved)
  case None
  then show ?thesis using assms (1,4)
    by (auto simp: deploy_guard_def Let_def split: if_splits prod.splits option.splits)
next
  case (Some want)
  note g = guard_resolved [OF assms (1) [unfolded Some]]
  have moved: "runtime_ref = (case moved_tag_runtime_ref reff (rn_ref r) (rn_digest r) want of Some pinned \<Rightarrow> pinned | None \<Rightarrow> reff)"
    "rn_ref r = Some reff \<Longrightarrow> rn_digest r \<noteq> None"
    using assms (1,4) Some
    by (auto simp: deploy_guard_def Let_def split: if_splits prod.splits option.splits)
  show ?thesis
  proof
    assume active: "rn_ref r = Some runtime_ref"
    show False
    proof (cases "rn_ref r = Some reff")
      case True
      then obtain cur where cur: "rn_digest r = Some cur" "cur \<noteq> want" using moved (2) g (3) by auto
      have "runtime_ref = digest_pinned_oci_ref reff want"
        using moved (1) True cur by (simp add: moved_tag_runtime_ref_def)
      then have pin: "pin_of reff = Some want" using active True by (metis option.inject pin_of_pinned)
      then have "cur = want" using assms (3) True cur by (auto simp: digest_fits_def)
      then show False using cur by simp
    next
      case False
      then have "runtime_ref = reff" using moved (1) by (simp add: moved_tag_runtime_ref_def)
      then show False using active False by simp
    qed
  qed
qed


section \<open>The forwarders\<close>

lemma step_forwards: "runner_step P cfg r r' \<Longrightarrow> rn_forwards r' = rn_forwards r"
proof (induction rule: runner_step.induct)
  case (command env cmd r reply r')
  show ?case
  proof (cases cmd)
    case (Deploy reff)
    obtain res r2 where d: "deploy cfg env reff r = (res, r2)" by fastforce
    obtain x r1 where g: "deploy_guard env reff r = (x, r1)" by fastforce
    have f1: "rn_forwards r1 = rn_forwards r" using guard_same (1) [OF g] by (simp add: same_service_def)
    have "rn_forwards r2 = rn_forwards r"
    proof (cases x)
      case None
      then show ?thesis using d g f1 by (simp add: deploy_def)
    next
      case (Some z)
      obtain runtime_ref resolved where z: "z = (runtime_ref, resolved)" by fastforce
      have "deploy_to cfg env runtime_ref resolved r1 = (res, r2)" using d g Some z by (simp add: deploy_def)
      then show ?thesis by (cases rule: deploy_to_cases) (use f1 in \<open>simp_all add: same_service_def\<close>)
    qed
    moreover have "r' = r2" using command (2) Deploy d by (auto simp: dispatch_def split: sum.splits)
    ultimately show ?thesis by simp
  qed (use command (2) in \<open>auto simp: dispatch_def stop_listener_def purge_def purge_app_dir_def snapshot_reply_def Let_def
      split: if_splits sum.splits prod.splits\<close>)
qed (simp_all add: drain_kill_def drain_untap_def last_reference_def split: prod.splits)

text \<open>C8: The forwarders keep the first guest. Whatever is deployed afterwards, the forwarders of a runner dial
  the SSH and code-service ports of the guest it was started with, whose machine a swap retires; and there
  is never one for the broker port of a workspace, although the machine offers its address.\<close>

theorem forwarders_keep_the_first_guest:
  assumes "start_runner cfg env token mesh_ok host_ok bind_ok k m = (Inr r0, m0)"
    "(runner_step P cfg)\<^sup>*\<^sup>* r0 r"
  shows "set (rn_forwards r) \<subseteq> {(GUEST_SSH_PORT, vm_guest_ip (rn_live r0)), (CODE_SERVICE_PORT, vm_guest_ip (rn_live r0))}"
proof -
  have "rn_forwards r = rn_forwards r0"
    using assms (2) by (induction rule: rtranclp_induct) (simp_all add: step_forwards)
  moreover have "rn_forwards r0 = start_forwarders (cf_no_mesh cfg) bind_ok (rn_live r0)"
    using assms (1) by (rule startE) simp
  ultimately show ?thesis
    by (auto simp: start_forwarders_def slot_guest_addrs_def vm_guest_addrs_def)
qed

section \<open>The end of the live machine is seen\<close>

text \<open>Every process can be killed, no two have the same number, and the number of a machine that was killed
  is not in use again.\<close>

definition killable :: "'g runner \<Rightarrow> bool" where
  "killable r \<longleftrightarrow> wf_procs (mc_host (rn_machine r)) \<and>
     (\<forall>(pd, p) \<in> set (procs (mc_host (rn_machine r))). \<not> unkillable p) \<and>
     (\<forall>(g, v, st) \<in> set (rn_retired r). st \<noteq> Draining \<longrightarrow> \<not> fc_alive (rn_machine r) (vm_child v))"

lemma dead_stays_dead:
  assumes "wf_procs h" "procs h' = filter Q (procs h)" "\<not> process_is_alive h pd"
  shows "\<not> process_is_alive h' pd"
proof
  assume "process_is_alive h' pd"
  then obtain p where p: "pd \<noteq> 0" "find_proc h' pd = Some p" "signalable p"
    by (auto simp: process_is_alive_def split: if_splits option.splits)
  then have "(pd, p) \<in> set (procs h)" using assms (2) by (auto simp: find_proc_def dest: map_of_SomeD)
  then have "find_proc h pd = Some p" using assms (1) by (simp add: find_proc_def wf_procs_def)
  then show False using p assms (3) by (simp add: process_is_alive_def)
qed

lemma shutdown_now_facts:
  assumes "wf_procs (mc_host m)"
  shows "\<exists>Q. procs (mc_host (shutdown_now v m)) = filter Q (procs (mc_host m))"
    "\<forall>(pd, p) \<in> set (procs (mc_host m)). \<not> unkillable p \<Longrightarrow> \<not> fc_alive (shutdown_now v m) (vm_child v)"
proof -
  define h1 where "h1 = kill_stale_if_alive (vm_child v) (process_is_alive (mc_host m)) (mc_host m)"
  have f: "fewer_procs (mc_host m) h1" unfolding h1_def by (rule fewer_kill_stale)
  then obtain Q where Q: "procs h1 = filter Q (procs (mc_host m))" by (auto simp: fewer_procs_def)
  have wf: "wf_procs h1" by (rule fewer_procs_wf [OF f assms])
  have "\<exists>Q. procs (snd (stop_fc_scope sc h1)) = filter Q (procs h1)" for sc
    using fewer_stop_scope [of h1 sc] by (simp add: fewer_procs_def)
  moreover have "\<exists>Q. procs h1 = filter Q (procs h1)" by (rule exI [of _ "\<lambda>_. True"]) simp
  ultimately obtain R where R: "procs (mc_host (shutdown_now v m)) = filter R (procs h1)"
    by (cases "vm_fc_scope v") (auto simp: shutdown_now_def stop_scope_def on_host_def h1_def [symmetric])
  show "\<exists>Q. procs (mc_host (shutdown_now v m)) = filter Q (procs (mc_host m))"
    by (auto simp: R Q)
  assume "\<forall>(pd, p) \<in> set (procs (mc_host m)). \<not> unkillable p"
  then have "\<not> process_is_alive h1 (vm_child v)"
    by (auto simp: h1_def kill_stale_if_alive_def process_is_alive_def remove_pid_def find_proc_def
        split: option.splits if_splits dest!: map_of_SomeD)
  from dead_stays_dead [OF wf R this] show "\<not> fc_alive (shutdown_now v m) (vm_child v)" by (simp add: fc_alive_def)
qed

lemma machine_of_killed:
  assumes "distinct (map fst (rn_retired r))" "i < length (rn_retired r)" "rn_retired r ! i = (g, v, st)" "g \<noteq> rn_gen r"
  shows "machine_of g (drain_kill i r) = Some v" "machine_of (rn_gen r) (drain_kill i r) = Some (rn_live r)"
    "rn_gen (drain_kill i r) = rn_gen r" "rn_machine (drain_kill i r) = shutdown_now v (rn_machine r)"
proof -
  have "distinct (map fst ((rn_retired r)[i := (g, v, Killed)]))"
    using assms by (simp add: distinct_fst_update)
  moreover have "(g, v, Killed) \<in> set ((rn_retired r)[i := (g, v, Killed)])"
    using assms (2) by (simp add: set_update_memI)
  ultimately show "machine_of g (drain_kill i r) = Some v"
    using assms (3,4) by (simp add: machine_of_def drain_kill_def)
qed (simp_all add: machine_of_def drain_kill_def assms (3))

lemma loop_runs: "(loop_step P cfg)\<^sup>*\<^sup>* (r0, w0) (r, w) \<Longrightarrow> (runner_step P cfg)\<^sup>*\<^sup>* r0 r"
proof (induction "(r, w)" arbitrary: r w rule: rtranclp_induct)
  case (step y)
  obtain r1 w1 where y: "y = (r1, w1)" by fastforce
  show ?case using step (2) step (3) [OF y] unfolding y
    by (cases rule: loop_step.cases) (auto intro: rtranclp.rtrancl_into_rtrancl)
qed simp

lemma seen_from_slot: "exited (rn_gen r) r \<Longrightarrow> watched w = rn_gen r \<Longrightarrow> loop_ends (r, w) (Crashed (rn_gen r))"
  using loop_ends.crash [of w r] by (simp add: decide_exit_def)

lemma seen_after_retirement:
  assumes "exited (rn_gen r) r" "watched w \<noteq> rn_gen r" "exited (watched w) r"
  shows "loop_step P cfg (r, w) (r, Loaded (rn_gen r)) \<and> loop_ends (r, Loaded (rn_gen r)) (Crashed (rn_gen r))"
  using loop_step.retired [OF assms (3,2)] seen_from_slot [OF assms (1), of "Loaded (rn_gen r)"] by simp

text \<open>C9: The death of the app is always seen. A swap may slip in before the loop has registered its waiter, and
  then it goes on watching the machine that was swapped out. But that machine is killed by its drain task,
  and this end wakes the loop: from every reachable state in which the machine of the slot is gone, the
  runner's own steps lead to the report of this crash, with processes that can be killed and no reuse of
  their numbers.\<close>

theorem a_crash_is_always_seen:
  assumes "start_runner cfg env token mesh_ok host_ok bind_ok k m = (Inr r0, m0)" "honest b env"
    "(loop_step (honest b) cfg)\<^sup>*\<^sup>* (r0, Loaded 0) (r, w)" "exited (rn_gen r) r" "killable r"
  shows "\<exists>r' w'. (loop_step (honest b) cfg)\<^sup>*\<^sup>* (r, w) (r', w') \<and> rn_live r' = rn_live r \<and>
    loop_ends (r', w') (Crashed (rn_gen r))"
proof -
  have ok: "slot_typed b cfg r"
    using steps_ok [OF loop_runs [OF assms (3)] start_ok [OF assms (1,2)]] by (simp add: runner_ok_def)
  consider (current) "watched w = rn_gen r" | (old) "watched w \<noteq> rn_gen r" "exited (watched w) r"
    | (draining) "watched w \<noteq> rn_gen r" "\<not> exited (watched w) r" by blast
  then show ?thesis
  proof cases
    case current
    then show ?thesis using seen_from_slot [OF assms (4) current] by blast
  next
    case old
    then show ?thesis using seen_after_retirement [OF assms (4) old] by blast
  next
    case draining
    define g where "g = watched w"
    obtain v where v: "machine_of g r = Some v" "fc_alive (rn_machine r) (vm_child v)"
      using draining by (auto simp: exited_def g_def split: option.splits)
    then obtain st where "map_of (rn_retired r) g = Some (v, st)" using draining (1) by (auto simp: machine_of_def g_def)
    then have mem: "(g, v, st) \<in> set (rn_retired r)" by (rule map_of_SomeD)
    then obtain i where i: "i < length (rn_retired r)" "rn_retired r ! i = (g, v, st)" by (metis in_set_conv_nth)
    have dr: "st = Draining" using assms (5) mem v (2) by (auto simp: killable_def)
    define r1 where "r1 = drain_kill i r"
    have dist: "distinct (map fst (rn_retired r))" using ok by (simp add: slot_typed_def)
    note k = machine_of_killed [OF dist i draining (1) [folded g_def], folded r1_def]
    have procs: "wf_procs (mc_host (rn_machine r))" "\<forall>(pd, p) \<in> set (procs (mc_host (rn_machine r))). \<not> unkillable p"
      using assms (5) by (simp_all add: killable_def)
    have gone: "exited g r1" using shutdown_now_facts (2) [OF procs] k by (simp add: exited_def)
    obtain Q where Q: "procs (mc_host (shutdown_now v (rn_machine r))) = filter Q (procs (mc_host (rn_machine r)))"
      using shutdown_now_facts (1) [OF procs (1)] by blast
    have "\<not> fc_alive (rn_machine r) (vm_child (rn_live r))" using assms (4) by (simp add: exited_def machine_of_def)
    then have still: "exited (rn_gen r1) r1"
      using dead_stays_dead [OF procs (1) Q] k by (simp add: exited_def fc_alive_def)
    have "runner_step (honest b) cfg r r1" unfolding r1_def by (rule runner_step.kill [OF i (1)]) (simp add: i (2) dr)
    then have step1: "loop_step (honest b) cfg (r, w) (r1, w)" using loop_step.act [of "honest b" cfg r r1 w] k (3) by simp
    have live: "rn_live r1 = rn_live r" by (simp add: r1_def drain_kill_def i (2))
    have "watched w \<noteq> rn_gen r1" "exited (watched w) r1" using draining (1) gone k (3) by (simp_all add: g_def)
    from seen_after_retirement [OF still this, of "honest b" cfg] step1 show ?thesis
      using live k (3) by (metis converse_rtranclp_into_rtranclp r_into_rtranclp)
  qed
qed

end
