(* ===== verification/HotSwapDemo.thy ===== *)
theory HotSwapDemo
  imports HotSwapLaws MicroVmDemo
begin

text \<open>
  A runner on a small host, started and deployed to: the witnesses of the properties of the runner.
\<close>

section \<open>The runner and its host\<close>

text \<open>Two images are converted already, so neither the registry nor a conversion is asked for.\<close>

definition ht_rt :: Runtime where
  "ht_rt = \<lparr>rt_port = Some 80, rt_vcpus = None, rt_stateful = False, rt_data_mount = None\<rparr>"

definition ht_cfg :: runner_cfg where
  "ht_cfg = \<lparr>cf_uuid = ''a'', cf_app_ula = ''fd5a::1'', cf_pid = 50, cf_data_dir = ''/d'', cf_rt = ht_rt, cf_kernel = None,
     cf_memory_mb = 128, cf_registry_ref = Some ''r@1'', cf_extra_env = None, cf_no_mesh = False\<rparr>"

definition ht_world :: world where
  "ht_world = \<lparr>wd_ok = (\<lambda>_ _. True), wd_run = (\<lambda>_. (False, [])), wd_pull = (\<lambda>_. None), wd_clock = 0, wd_arch = ''amd64'',
     wd_b3 = demo_digest, wd_caps = (\<lambda>_. None), wd_registry_config = None, wd_pid = 7, wd_debris = []\<rparr>"

definition ht_hash :: string where
  "ht_hash = rootfs_env_fingerprint demo_digest None [] None"

definition ht_path :: "string \<Rightarrow> string" where
  "ht_path dg = cached_rootfs_path ''/d'' ''a'' dg ht_hash"

definition ht_disk :: disk where
  "ht_disk = \<lparr>dk_rootfs = [(ht_path ''1'', []), (ht_path ''22'', [])], dk_layouts = [], dk_shared = [], dk_shared_layouts = [],
     dk_fs = [], dk_no_snapshot = [''a'']\<rparr>"

definition ht_env :: "u32 \<Rightarrow> (string \<times> string) list command_env" where
  "ht_env pd = \<lparr>ce_vm = box_env\<lparr>ve_spawn := (\<lambda>_. Some pd)\<rparr>, ce_build = ht_world, ce_later = ht_world, ce_ipv6 = (\<lambda>_. None),
     ce_auth_io = True, ce_auth_file = [], ce_answers = True, ce_probe_error = [], ce_new_answers = (\<lambda>_. (True, 0)),
     ce_purge_ok = True, ce_snapshot_error = []\<rparr>"

definition ht_machine :: "(string \<times> string) list machine" where
  "ht_machine =
     \<lparr>mc_host = (demo_host [] demo_dir)\<lparr>has_systemd := True\<rparr>, mc_socks = [], mc_addrs = [],
      mc_links = Stored [(''a:r@1'', demo_assignment 7), (''a:r@22'', demo_assignment 8)],
      mc_cache = caches demo_env [], mc_frozen = None, mc_guests = [], mc_paused = [], mc_calls = []\<rparr>"

text \<open>The registry does not answer, so it says nothing wrong.\<close>

lemma ht_honest: "honest demo_digest (ht_env pd)"
  by (simp add: honest_def ht_env_def box_env_def box_link_def ht_world_def resolve_oci_digest_def)

lemma ht_prompt: "prompt (ce_vm (ht_env pd))"
  using box_prompt by (simp add: prompt_def ht_env_def)

lemma ht_taps: "fc_tap_name_for_key demo_digest ''a:r@1'' = ''fc-050505050505''"
  "fc_tap_name_for_key demo_digest ''a:r@22'' = ''fc-060606060606''"
proof -
  have r: "replicate 8 x @ xs = x # x # x # x # x # x # x # x # xs" for x :: u8 and xs by (simp add: numeral_eq_Suc)
  have h: "hash48 demo_digest ''a:r@1'' = 5519117190405" "hash48 demo_digest ''a:r@22'' = 6622940628486"
    unfolding hash48_def demo_digest_def r by (simp_all add: Let_def)
  have s: "show_hex_padded 12 5519117190405 = ''050505050505''" "show_hex_padded 12 6622940628486 = ''060606060606''"
    by code_simp+
  show "fc_tap_name_for_key demo_digest ''a:r@1'' = ''fc-050505050505''"
    "fc_tap_name_for_key demo_digest ''a:r@22'' = ''fc-060606060606''"
    by (simp_all add: fc_tap_name_for_key_def h s)
qed

section \<open>A build from the cache\<close>

lemma ht_refs: "lowercase_oci_repo ''r@1'' = ''r@1''" "lowercase_oci_repo ''r@22'' = ''r@22''"
  "pre_digest_of w ''r@1'' = Some ''1''" "pre_digest_of w ''r@22'' = Some ''22''"
  "lowercase_oci_repo ''r@333'' = ''r@333''" "pre_digest_of w ''r@333'' = Some ''333''" "rsplit_once CHR ''@'' ''r@333'' = Some (''r'', ''333'')"
  by code_simp+

lemma ht_request:
  "run_firecracker_build ht_world ''/d'' ''a'' ht_rt 128 (Some reff) None k =
     launch_request ht_world ''/d'' ''a'' ht_rt 128 (lowercase_oci_repo reff) None [] ht_hash True False k"
  by (simp add: run_firecracker_build_def split_env_and_caps_def has_env_key_def stateful_data_mount_def ht_rt_def
      nonempty_env_def suppress_snapshot_def ht_hash_def ht_world_def)

definition ht_launch :: "string \<Rightarrow> string \<Rightarrow> launch" where
  "ht_launch reff dg = \<lparr>la_rootfs = ht_path dg, la_reff = reff, la_env_hash = ht_hash, la_ports = [], la_digest = dg,
     la_caps = [], la_workspace = False\<rparr>"

lemma ht_build:
  assumes "rootfs_at k (ht_path dg) \<noteq> None" "dk_layouts k = []" "dk_shared_layouts k = []"
    "lowercase_oci_repo reff = reff" "pre_digest_of ht_world reff = Some dg"
  shows "run_firecracker_build ht_world ''/d'' ''a'' ht_rt 128 (Some reff) None k =
    (Inr (ht_launch reff dg), prune_stale_variants ht_world ''/d'' ''a'' dg ht_hash k)"
proof -
  have none: "layout_at k p = None" for p using assms (2) by (simp add: layout_at_def)
  show ?thesis
    unfolding ht_request launch_request_def
    using assms (1) by (simp add: assms (4,5) lookup_pre_pull_def lookup_cached_rootfs_def rootfs_is_cached_def ht_path_def
        launch_firecracker_def cached_layout_exposed_ports_def none ht_launch_def)
qed

lemma ht_no_build:
  assumes "rootfs_at k (ht_path ''333'') = None" "dk_layouts k = []" "rootfs_at k (global_rootfs_path ''/d'' ''333'') = None"
  shows "\<exists>k'. run_firecracker_build ht_world ''/d'' ''a'' ht_rt 128 (Some ''r@333'') None k = (Inl PullFailed, k')"
proof -
  have none: "layout_at k p = None" for p using assms (2) by (simp add: layout_at_def)
  show ?thesis
    unfolding ht_request launch_request_def
    using assms (1,3) none
    by (simp add: ht_refs lookup_pre_pull_def lookup_cached_rootfs_def rootfs_is_cached_def ht_path_def
        shared_layout_def lookup_global_layout_def pull_and_convert_def pull_oci_layout_def Let_def
        link_global_rootfs_to_uuid_def ht_world_def split: option.splits)
qed

text \<open>The links before and after a launch.\<close>

definition ht_slot :: "bool \<Rightarrow> u32 \<Rightarrow> StoredAssignment" where
  "ht_slot claimed s = \<lparr>slot = s, updated_at_unix = 1000, launch_reserved_until_unix = (if claimed then 1120 else 0),
     launch_owner = (if claimed then Some ''o'' else None)\<rparr>"

lemma ht_acquire:
  assumes "key = ''a:r@1'' \<and> s = 7 \<and> taps (mc_host m) = [] \<or>
      key = ''a:r@22'' \<and> s = 8 \<and> taps (mc_host m) = [''fc-050505050505''] \<and> mc_addrs m = [(''fc-050505050505'', 7)]"
    "mc_links m = Stored [(''a:r@1'', x), (''a:r@22'', demo_assignment 8)]"
    "x = demo_assignment 7 \<or> x = ht_slot False 7"
  shows "acquire_link (ce_vm (ht_env pd)) ''a'' key m =
    (Inr (allocation box_link key s), m\<lparr>mc_links := Stored [(''a:r@1'', if s = 7 then ht_slot True 7 else x),
       (''a:r@22'', if s = 7 then demo_assignment 8 else ht_slot True 8)]\<rparr>)"
proof -
  define w where "w = (ve_link (ce_vm (ht_env pd)))\<lparr>caches := (caches (ve_link (ce_vm (ht_env pd))))(''a'' := mc_cache m)\<rparr>"
  have w: "b3 w = demo_digest" "tap_subnet w = ''172.31.0.0/16''" "t_gc w = 1000" "t_check w = 1000" "t_set w = 1000"
    "t_launch w = 1000" "root_ok w" "lock_ok w" "write_ok w"
    by (simp_all add: w_def ht_env_def box_env_def box_link_def demo_env_def)
  have slots: "slot x = 7" "launch_reserved_until_unix x = 0" "x\<lparr>updated_at_unix := 1000\<rparr> = ht_slot False 7" "launch_owner x = None"
    "updated_at_unix x = 900 \<or> updated_at_unix x = 1000"
    using assms (3) by (auto simp: demo_assignment_def ht_slot_def)
  have x: "x\<lparr>updated_at_unix := 1000, launch_reserved_until_unix := 1120, launch_owner := Some ''o''\<rparr> = ht_slot True 7"
    using slots (1) by (cases x) (simp add: ht_slot_def)
  have y: "(demo_assignment 8)\<lparr>updated_at_unix := 1000, launch_reserved_until_unix := 1120, launch_owner := Some ''o''\<rparr> = ht_slot True 8"
    by (simp add: demo_assignment_def ht_slot_def)
  have young: "sat_sub 1000 (updated_at_unix x) \<le> RESERVATION_TTL_SECS" "sat_sub 1000 (updated_at_unix (demo_assignment 8)) \<le> RESERVATION_TTL_SECS"
    using slots (5) by (auto simp: sat_sub_def RESERVATION_TTL_SECS_def demo_assignment_def word_le_nat_alt)
  have gc: "gc w live keep [(''a:r@1'', x), (''a:r@22'', demo_assignment 8)] = [(''a:r@1'', x), (''a:r@22'', demo_assignment 8)]" for live keep
    using young by (simp add: gc_def w)
  have al: "allocation w key s = allocation box_link key s"
    by (simp add: allocation_def w box_link_def demo_env_def box_subnet)
  define live where "live = live_links m"
  have live: "key = ''a:r@1'' \<and> s = 7 \<and> live = \<lparr>by_tap = [], live_slots = []\<rparr> \<or>
      key = ''a:r@22'' \<and> s = 8 \<and> live = \<lparr>by_tap = [(''fc-050505050505'', 7)], live_slots = [7]\<rparr>"
    using assms (1) by (auto simp: live_def live_links_def)
  have "allocate_in w key Acquire (Some ''o'') live [(''a:r@1'', x), (''a:r@22'', demo_assignment 8)] =
     Inr ([(''a:r@1'', if s = 7 then ht_slot True 7 else x), (''a:r@22'', if s = 7 then demo_assignment 8 else ht_slot True 8)],
      allocation box_link key s)"
    using live
  proof
    assume l: "key = ''a:r@1'' \<and> s = 7 \<and> live = \<lparr>by_tap = [], live_slots = []\<rparr>"
    show ?thesis
      unfolding allocate_in_def gc Let_def
      using l al slots x by (simp add: w LAUNCH_RESERVATION_SECS_def sat_add_def word_less_nat_alt)
  next
    assume l: "key = ''a:r@22'' \<and> s = 8 \<and> live = \<lparr>by_tap = [(''fc-050505050505'', 7)], live_slots = [7]\<rparr>"
    have d8: "slot (demo_assignment 8) = 8" "launch_reserved_until_unix (demo_assignment 8) = 0"
      by (simp_all add: demo_assignment_def)
    show ?thesis
      unfolding allocate_in_def gc Let_def
      using l al y by (simp add: w ht_taps d8 LAUNCH_RESERVATION_SECS_def sat_add_def word_less_nat_alt)
  qed
  then have "acquire w key ''o'' (Some live) (mc_links m) =
     (Inr (allocation box_link key s), Stored [(''a:r@1'', if s = 7 then ht_slot True 7 else x),
       (''a:r@22'', if s = 7 then demo_assignment 8 else ht_slot True 8)])"
    by (simp add: acquire_def allocate_def w demo_subnet with_locked_state_def assms (2))
  then show ?thesis
    unfolding acquire_link_def w_def [symmetric] live_def by (simp add: ht_env_def box_env_def)
qed

lemma ht_release:
  assumes "mc_links x = Stored [(''a:r@1'', p), (''a:r@22'', q)]"
  shows "p = ht_slot True 7 \<Longrightarrow> release_claim (ce_vm (ht_env pd)) ''a:r@1'' x =
      (Inr (), x\<lparr>mc_links := Stored [(''a:r@1'', ht_slot False 7), (''a:r@22'', q)]\<rparr>)"
    "q = ht_slot True 8 \<Longrightarrow> release_claim (ce_vm (ht_env pd)) ''a:r@22'' x =
      (Inr (), x\<lparr>mc_links := Stored [(''a:r@1'', p), (''a:r@22'', ht_slot False 8)]\<rparr>)"
  using assms by (simp_all add: release_claim_def clear_launch_owner_def with_locked_state_def ht_env_def box_env_def box_link_def
      demo_env_def clear_launch_owner_in_def ht_slot_def)

section \<open>Start and deploy\<close>

definition ht_args :: "bool \<Rightarrow> string \<Rightarrow> string \<Rightarrow> vm_args" where
  "ht_args swap reff dg = args_of ht_cfg swap (ht_launch reff dg)"

lemma ht_args [simp]: "va_is_swap (ht_args swap reff dg) = swap" "va_uuid (ht_args swap reff dg) = ''a''"
  "va_reff (ht_args swap reff dg) = reff" "va_workspace (ht_args swap reff dg) = False" "va_rt (ht_args swap reff dg) = ht_rt"
  "va_ports (ht_args swap reff dg) = []" "va_data_dir (ht_args swap reff dg) = ''/d''" "va_cap_files (ht_args swap reff dg) = []"
  by (simp_all add: ht_args_def args_of_def ht_launch_def ht_cfg_def)

definition ht_decision :: PortDecision where
  "ht_decision = \<lparr>plan = Fixed 80, source = PsManifest\<rparr>"

definition ht_vm :: "bool \<Rightarrow> string \<Rightarrow> string \<Rightarrow> u32 \<Rightarrow> u32 \<Rightarrow> u32 \<Rightarrow> vm" where
  "ht_vm swap reff dg s pd guest_ip =
     new_vm (ce_vm (ht_env pd)) (ht_args swap reff dg) True (Some dg) (Some ht_hash) ht_decision None
       (fc_tap_name_for_key demo_digest (deploy_key ''a'' reff)) s ''172.31.0.0/16'' pd
       (Some (scope_name (deploy_key ''a'' reff))) guest_ip (tap_sock (fc_tap_name_for_key demo_digest (deploy_key ''a'' reff)))"

definition ht_marked :: "(string \<times> string) list machine" where
  "ht_marked = on_cache (\<lambda>c. c\<lparr>no_snapshot := True\<rparr>) ht_machine"

lemma ht_ips: "link_ips (tap_subnet (ve_link (ce_vm (ht_env pd)))) 7 = Inr (2887712797, 2887712798)"
  "link_ips (tap_subnet (ve_link (ce_vm (ht_env pd)))) 8 = Inr (2887712801, 2887712802)"
  "normalize_subnet (tap_subnet (ve_link (ce_vm (ht_env pd)))) = Inr ''172.31.0.0/16''"
proof -
  have "tap_subnet (ve_link (ce_vm (ht_env pd))) = ''172.31.0.0/16''"
    by (simp add: ht_env_def box_env_def box_link_def demo_env_def)
  moreover have "link_ips ''172.31.0.0/16'' 7 = Inr (2887712797, 2887712798)" by code_simp
  ultimately show "link_ips (tap_subnet (ve_link (ce_vm (ht_env pd)))) 7 = Inr (2887712797, 2887712798)"
    "link_ips (tap_subnet (ve_link (ce_vm (ht_env pd)))) 8 = Inr (2887712801, 2887712802)"
    "normalize_subnet (tap_subnet (ve_link (ce_vm (ht_env pd)))) = Inr ''172.31.0.0/16''"
    using box_ips box_subnet by simp_all
qed

lemma ht_alloc: "la_slot (allocation box_link key s) = s"
  "la_tap_name (allocation box_link key s) = fc_tap_name_for_key demo_digest key"
  by (simp_all add: allocation_def box_link_def)

lemma ht_plan: "resolve_port_plan False ht_rt [] x cfg = ht_decision" "plan ht_decision = Fixed 80"
  "stateful_data_disk d u ht_rt = None"
  by (simp_all add: resolve_port_plan_def ht_rt_def ht_decision_def stateful_data_disk_def)

text \<open>The launch of the start, as it is recorded.\<close>

definition ht_requests :: "vm \<Rightarrow> (string \<times> string \<times> string \<times> json) list" where
  "ht_requests v = concat (map (step_request (vm_api_sock v))
     (boot_steps (ce_vm (ht_env 101)) (ht_args False ''r@1'' ''1'') v (show_ipv4 2887712798) (show_ipv4 2887712797)
        (derive_guest_mac 7) None))"

definition ht_v0 :: vm where "ht_v0 = ht_vm False ''r@1'' ''1'' 7 101 2887712798"

definition ht_m0 :: "(string \<times> string) list machine" where
  "ht_m0 = on_host (pidfile_write True ''/d'' ''a'' 101)
     ((booted (ce_vm (ht_env 101)) ''fc-050505050505'' 7 101 (Some (scope_name ''a:r@1'')) [] (ht_requests ht_v0) ht_marked)
        \<lparr>mc_links := Stored [(''a:r@1'', ht_slot False 7), (''a:r@22'', demo_assignment 8)]\<rparr>)"

lemma ht_started: "launch_with_uuid (ce_vm (ht_env 101)) (ht_args False ''r@1'' ''1'') ht_marked = (Inr ht_v0, ht_m0)"
proof -
  have key: "''a:r@1'' = deploy_key (va_uuid (ht_args False ''r@1'' ''1'')) (va_reff (ht_args False ''r@1'' ''1''))"
    by (simp add: deploy_key_def)
  have quiet: "pidfile_read (mc_host ht_marked) (va_data_dir (ht_args False ''r@1'' ''1'')) (va_uuid (ht_args False ''r@1'' ''1'')) = None"
    "stop_fc_scope (scope_name ''a:r@1'') (mc_host ht_marked) = (True, mc_host ht_marked)" "\<not> files_present (mc_cache ht_marked)"
    by (simp_all add: ht_marked_def ht_machine_def demo_host_def pidfile_read_def stop_fc_scope_def Let_def files_present_def demo_env_def)
  have ac: "acquire_link (ce_vm (ht_env 101)) (va_uuid (ht_args False ''r@1'' ''1'')) ''a:r@1'' ht_marked =
      (Inr (allocation box_link ''a:r@1'' 7), ht_marked\<lparr>mc_links := Stored [(''a:r@1'', ht_slot True 7), (''a:r@22'', demo_assignment 8)]\<rparr>)"
    using ht_acquire [of "''a:r@1''" 7 ht_marked "demo_assignment 7" 101]
    by (simp add: ht_marked_def ht_machine_def demo_host_def)
  have rel: "release_claim (ce_vm (ht_env 101)) ''a:r@1'' x = (Inr (), x\<lparr>mc_links := Stored [(''a:r@1'', ht_slot False 7), (''a:r@22'', demo_assignment 8)]\<rparr>)"
    if "mc_links x = mc_links (ht_marked\<lparr>mc_links := Stored [(''a:r@1'', ht_slot True 7), (''a:r@22'', demo_assignment 8)]\<rparr>)" for x
    using that ht_release (1) [of x "ht_slot True 7" "demo_assignment 8" 101] by simp
  have spawn: "ve_spawn (ce_vm (ht_env 101)) n = Some 101" for n by (simp add: ht_env_def)
  have free: "(101 :: u32) \<noteq> 0" "101 \<notin> set (mc_paused ht_marked)" by (simp_all add: ht_marked_def ht_machine_def)
  have scope: "Some (scope_name ''a:r@1'') = scope_for (ce_vm (ht_env 101)) (mc_host ht_marked) ''a:r@1''"
    "\<forall>sc. Some (scope_name ''a:r@1'') = Some sc \<longrightarrow> \<not> scope_active sc (mc_host ht_marked)"
    by (simp_all add: scope_for_def should_wrap_def ht_env_def box_env_def ht_marked_def ht_machine_def demo_host_def scope_active_def)
  have dec: "resolve_port_plan (va_workspace (ht_args False ''r@1'' ''1'')) (va_rt (ht_args False ''r@1'' ''1''))
      (va_ports (ht_args False ''r@1'' ''1'')) (read_app_port (mc_cache ht_marked)) (ve_cfg (ce_vm (ht_env 101))) = ht_decision"
    by (simp add: ht_plan)
  have disk: "stateful_data_disk (va_data_dir (ht_args False ''r@1'' ''1'')) (va_uuid (ht_args False ''r@1'' ''1''))
      (va_rt (ht_args False ''r@1'' ''1'')) = None" by (simp add: ht_plan)
  have calm: "va_workspace (ht_args False ''r@1'' ''1'') \<or> (None :: string option) \<noteq> None \<or> is_suppressed (mc_cache ht_marked)"
    by (simp add: is_suppressed_def ht_marked_def)
  have ips: "link_ips (tap_subnet (ve_link (ce_vm (ht_env 101)))) (la_slot (allocation box_link ''a:r@1'' 7)) = Inr (2887712797, 2887712798)"
    unfolding ht_alloc by (rule ht_ips)
  have cold: "\<not> va_is_swap (ht_args False ''r@1'' ''1'')" by simp
  note run = prompt_start [OF ht_prompt cold key quiet ac rel spawn free ips ht_ips (3)
      scope dec ht_plan (2) disk calm refl refl]
  have v: "new_vm (ce_vm (ht_env 101)) (ht_args False ''r@1'' ''1'') True (Some (va_snapshot_ref (ht_args False ''r@1'' ''1'')))
      (Some (va_env_hash (ht_args False ''r@1'' ''1''))) ht_decision None (la_tap_name (allocation box_link ''a:r@1'' 7))
      (la_slot (allocation box_link ''a:r@1'' 7)) ''172.31.0.0/16'' 101 (Some (scope_name ''a:r@1'')) 2887712798
      (tap_sock (la_tap_name (allocation box_link ''a:r@1'' 7))) = ht_v0"
    by (simp add: ht_v0_def ht_vm_def ht_alloc deploy_key_def) (simp add: ht_args_def args_of_def ht_launch_def)
  have port: "keep_port (ce_vm (ht_env 101)) (ht_args False ''r@1'' ''1'') ht_v0 80 m = m" for m
    by (simp add: keep_port_def ht_rt_def)
  have env: "ve_pidfile_write (ce_vm (ht_env 101)) = True" "ve_boot (ce_vm (ht_env 101)) caps = caps" for caps
    by (simp_all add: ht_env_def box_env_def)
  show ?thesis
    using run unfolding v unfolding port ht_alloc ht_taps env ht_args ht_m0_def ht_requests_def .
qed

definition ht_disk1 :: disk where
  "ht_disk1 = prune_stale_variants ht_world ''/d'' ''a'' ''1'' ht_hash ht_disk"

lemma ht_paths: "rootfs_at ht_disk (ht_path ''1'') = Some []" "rootfs_at ht_disk1 (ht_path ''22'') = Some []"
  "rootfs_at ht_disk1 (ht_path ''333'') = None" "rootfs_at ht_disk1 (global_rootfs_path ''/d'' ''333'') = None"
  "dk_layouts ht_disk1 = []" "dk_shared_layouts ht_disk1 = []" "dk_no_snapshot ht_disk1 = [''a'']"
proof -
  have ne: "ht_path ''22'' \<noteq> ht_path ''1''" "ht_path ''333'' \<noteq> ht_path ''1''" "ht_path ''333'' \<noteq> ht_path ''22''"
    "global_rootfs_path ''/d'' ''333'' \<noteq> ht_path ''1''" "global_rootfs_path ''/d'' ''333'' \<noteq> ht_path ''22''"
    by (simp_all add: ht_path_def cached_rootfs_path_def digest_work_dir_def digest_dir_def app_fc_dir_def join_path_def dashed_def
        global_rootfs_path_def GLOBAL_ROOTFS_CACHE_DIR_def)
  show "rootfs_at ht_disk (ht_path ''1'') = Some []" by (simp add: rootfs_at_def ht_disk_def)
  have kept: "\<not> pruned ht_world (digest_dir ''/d'' ''a'' ''1'') ht_hash (ht_path ''22'')"
    by (simp add: pruned_def variant_of_def ht_path_def cached_rootfs_path_def digest_work_dir_def digest_dir_def app_fc_dir_def
        join_path_def dashed_def strip_prefix_def)
  show "rootfs_at ht_disk1 (ht_path ''22'') = Some []" "rootfs_at ht_disk1 (ht_path ''333'') = None"
    "rootfs_at ht_disk1 (global_rootfs_path ''/d'' ''333'') = None"
    using ne kept by (simp_all add: ht_disk1_def rootfs_at_prune) (simp_all add: rootfs_at_def ht_disk_def)
  show "dk_layouts ht_disk1 = []" "dk_shared_layouts ht_disk1 = []" "dk_no_snapshot ht_disk1 = [''a'']"
    by (simp_all add: ht_disk1_def prune_stale_variants_def Let_def ht_disk_def)
qed

definition ht_r0 :: "(string \<times> string) list runner" where
  "ht_r0 = \<lparr>rn_machine = ht_m0, rn_disk = ht_disk1, rn_live = ht_v0, rn_ref = Some ''r@1'', rn_gen = 0, rn_retired = [],
     rn_hosted = True, rn_digest = None, rn_registry = None, rn_leaving = False,
     rn_forwards = start_forwarders False (\<lambda>_. True) ht_v0\<rparr>"

lemma ht_world_plain: "ht_world\<lparr>wd_registry_config := None\<rparr> = ht_world"
  by (simp add: ht_world_def)

lemma ht_cfg [simp]: "cf_uuid ht_cfg = ''a''" "cf_data_dir ht_cfg = ''/d''" "cf_rt ht_cfg = ht_rt" "cf_memory_mb ht_cfg = 128"
  "cf_extra_env ht_cfg = None" "cf_registry_ref ht_cfg = Some ''r@1''" "cf_no_mesh ht_cfg = False"
  by (simp_all add: ht_cfg_def)

lemma ht_env [simp]: "ce_build (ht_env pd) = ht_world" "ce_later (ht_env pd) = ht_world" "ce_answers (ht_env pd)"
  "ce_new_answers (ht_env pd) n = (True, 0)"
  by (simp_all add: ht_env_def)

lemma ht_unresolved: "resolve_digest (ht_env pd) ht_world reff None = (None, None)"
  by (simp add: resolve_digest_def ht_world_def resolve_oci_digest_def)

lemma ht_start: "start_runner ht_cfg (ht_env 101) None True True (\<lambda>_. True) ht_disk ht_machine = (Inr ht_r0, ht_m0)"
proof -
  have b: "run_firecracker_build ht_world ''/d'' ''a'' ht_rt 128 (Some ''r@1'') None ht_disk = (Inr (ht_launch ''r@1'' ''1''), ht_disk1)"
    unfolding ht_disk1_def
    by (rule ht_build) (simp_all add: ht_paths ht_refs, simp_all add: ht_disk_def)
  have mk: "marked ''a'' ht_disk1 ht_machine = ht_marked" by (simp add: marked_def ht_paths ht_marked_def)
  have run: "build_runtime (ce_vm (ht_env 101)) ht_world ht_cfg (Some ''r@1'') False ht_disk ht_machine = (Inr ht_v0, ht_disk1, ht_m0)"
    using ht_started by (simp add: build_runtime_def b mk ht_args_def)
  show ?thesis
    by (simp add: start_runner_def start_registry_def ht_world_plain run ht_unresolved ht_r0_def)
qed

text \<open>The machine of the start stands.\<close>

definition ht_proc :: proc where
  "ht_proc = fc_proc (ce_vm (ht_env 101)) (tap_sock ''fc-050505050505'') (Some (scope_name ''a:r@1''))"

lemma ht_v0 [simp]: "vm_child ht_v0 = 101" "vm_tap_name ht_v0 = ''fc-050505050505''" "vm_api_sock ht_v0 = tap_sock ''fc-050505050505''"
  "vm_guest_ip ht_v0 = 2887712798" "vm_stateful ht_v0 = False" "vm_fc_scope ht_v0 = Some (scope_name ''a:r@1'')"
  by (simp_all add: ht_v0_def ht_vm_def new_vm_def deploy_key_def ht_taps)

lemma ht_m0_facts: "procs (mc_host ht_m0) = [(101, ht_proc)]" "taps (mc_host ht_m0) = [''fc-050505050505'']"
  "mc_addrs ht_m0 = [(''fc-050505050505'', 7)]" "mc_paused ht_m0 = []" "map_of (mc_guests ht_m0) 101 = Some []"
  "map_of (mc_socks ht_m0) (tap_sock ''fc-050505050505'') = Some 101" "has_systemd (mc_host ht_m0)"
  "mc_links ht_m0 = Stored [(''a:r@1'', ht_slot False 7), (''a:r@22'', demo_assignment 8)]"
  "mc_cache ht_m0 = mc_cache ht_marked"
  by (simp_all add: ht_m0_def pidfile_write_def ht_proc_def ht_marked_def ht_machine_def demo_host_def)

lemma ht_stands: "stands ht_v0 ht_proc [] ht_m0"
  by (simp add: stands_def find_proc_def guest_of_def ht_m0_facts)

lemma ht_reachable: "reachable ht_v0 ht_m0"
  by (simp add: reachable_def fc_alive_def process_is_alive_def find_proc_def ht_m0_facts ht_proc_def fc_proc_def)

lemma ht_guard: "reff \<noteq> ''r@1'' \<Longrightarrow> deploy_guard (ht_env pd) reff ht_r0 = (Some (reff, None), ht_r0)"
  by (simp add: deploy_guard_def vm_health_def ht_r0_def ht_reachable ht_unresolved)

section \<open>A deploy that succeeds\<close>

lemma ht_swapped:
  obtains v m' where "launch_with_uuid (ce_vm (ht_env 102)) (ht_args True ''r@22'' ''22'') ht_m0 = (Inr v, m')"
    "vm_guest_ip v = 2887712802" "reachable v m'"
proof -
  define e where "e = ce_vm (ht_env 102)"
  define a where "a = ht_args True ''r@22'' ''22''"
  define cl where "cl = on_cache (clear (ve_clear e)) ht_m0"
  have a: "va_is_swap a" "va_uuid a = ''a''" "va_reff a = ''r@22''" "va_workspace a = False" "va_rt a = ht_rt" "va_ports a = []"
    "va_cap_files a = []"
    by (simp_all add: a_def)
  have key: "''a:r@22'' = deploy_key (va_uuid a) (va_reff a)" by (simp add: a deploy_key_def)
  have ac: "acquire_link e (va_uuid a) ''a:r@22'' ht_m0 =
      (Inr (allocation box_link ''a:r@22'' 8), ht_m0\<lparr>mc_links := Stored [(''a:r@1'', ht_slot False 7), (''a:r@22'', ht_slot True 8)]\<rparr>)"
    using ht_acquire [of "''a:r@22''" 8 ht_m0 "ht_slot False 7" 102] by (simp add: a e_def ht_m0_facts)
  have rel: "release_claim e ''a:r@22'' x = (Inr (), x\<lparr>mc_links := Stored [(''a:r@1'', ht_slot False 7), (''a:r@22'', ht_slot False 8)]\<rparr>)"
    if "mc_links x = mc_links (ht_m0\<lparr>mc_links := Stored [(''a:r@1'', ht_slot False 7), (''a:r@22'', ht_slot True 8)]\<rparr>)" for x
    unfolding e_def by (rule ht_release (2)) (use that in simp_all)
  have spawn: "ve_spawn e n = Some 102" for n by (simp add: e_def ht_env_def)
  have free: "(102 :: u32) \<noteq> 0" "102 \<notin> set (mc_paused ht_m0)" by (simp_all add: ht_m0_facts)
  have ips: "link_ips (tap_subnet (ve_link e)) (la_slot (allocation box_link ''a:r@22'' 8)) = Inr (2887712801, 2887712802)"
    "normalize_subnet (tap_subnet (ve_link e)) = Inr ''172.31.0.0/16''"
    unfolding ht_alloc e_def by (rule ht_ips)+
  have scope: "Some (scope_name ''a:r@22'') = scope_for e (mc_host ht_m0) ''a:r@22''"
    "\<forall>sc. Some (scope_name ''a:r@22'') = Some sc \<longrightarrow> \<not> scope_active sc (mc_host ht_m0)"
    by (simp_all add: scope_for_def should_wrap_def scope_active_def ht_m0_facts ht_proc_def fc_proc_def scope_name_def sanitize_def Let_def)
      (simp add: e_def ht_env_def box_env_def)
  have dec: "resolve_port_plan (va_workspace a) (va_rt a) (va_ports a) (read_app_port (mc_cache ht_m0)) (ve_cfg e) = ht_decision"
    by (simp add: a ht_plan)
  have disk: "stateful_data_disk (va_data_dir a) (va_uuid a) (va_rt a) = None" by (simp add: a ht_plan)
  have calm: "va_workspace a \<or> (None :: string option) \<noteq> None \<or> is_suppressed (mc_cache ht_m0)"
    by (simp add: is_suppressed_def ht_m0_facts) (simp add: ht_marked_def)
  note run = prompt_swap [OF ht_prompt [of 102, folded e_def] a (1) key ac rel spawn free ips scope dec ht_plan (2) disk calm refl refl]
  define v where "v = new_vm e a True (Some (va_snapshot_ref a)) (Some (va_env_hash a)) ht_decision None
      (la_tap_name (allocation box_link ''a:r@22'' 8)) (la_slot (allocation box_link ''a:r@22'' 8)) ''172.31.0.0/16'' 102
      (Some (scope_name ''a:r@22'')) 2887712802 (tap_sock (la_tap_name (allocation box_link ''a:r@22'' 8)))"
  have port: "keep_port e a v 80 m = m" for m by (simp add: keep_port_def a ht_rt_def)
  have vf: "vm_guest_ip v = 2887712802" "vm_child v = 102" "vm_tap_name v = ''fc-060606060606''"
    by (simp_all add: v_def new_vm_def ht_alloc ht_taps)
  define m' where "m' = on_host (pidfile_write (ve_pidfile_write e) (va_data_dir a) (va_uuid a) 102)
     ((booted e (la_tap_name (allocation box_link ''a:r@22'' 8)) (la_slot (allocation box_link ''a:r@22'' 8)) 102
         (Some (scope_name ''a:r@22'')) (ve_boot e (va_cap_files a))
         (concat (map (step_request (vm_api_sock v)) (boot_steps e a v (show_ipv4 2887712802) (show_ipv4 2887712801)
            (derive_guest_mac (la_slot (allocation box_link ''a:r@22'' 8))) None))) cl)
       \<lparr>mc_links := Stored [(''a:r@1'', ht_slot False 7), (''a:r@22'', ht_slot False 8)]\<rparr>)"
  have run': "launch_with_uuid e a ht_m0 = (Inr v, m')"
    using run [folded v_def] unfolding port m'_def cl_def .
  have fin: "procs (mc_host m') = (102, fc_proc (ce_vm (ht_env 102)) (tap_sock ''fc-060606060606'') (Some (scope_name ''a:r@22''))) #
      procs (mc_host ht_m0)" "taps (mc_host m') = ''fc-060606060606'' # removeAll ''fc-060606060606'' (taps (mc_host ht_m0))"
    "mc_paused m' = []" "map_of (mc_guests m') 102 \<noteq> None"
    unfolding m'_def by (simp_all add: pidfile_write_def ht_alloc ht_taps ht_m0_facts cl_def e_def)
  have "reachable v m'"
    by (simp add: reachable_def vf fin fc_alive_def process_is_alive_def find_proc_def fc_proc_def)
  then show thesis using run' vf (1) unfolding e_def a_def by (intro that)
qed

lemma ht_deploy:
  assumes "P (ht_env 102)"
  obtains r where "runner_step P ht_cfg ht_r0 r" "vm_guest_ip (rn_live r) = 2887712802"
proof -
  have live: "rn_live ht_r0 = ht_v0" "rn_machine ht_r0 = ht_m0" "rn_registry ht_r0 = None" "rn_disk ht_r0 = ht_disk1"
    by (simp_all add: ht_r0_def)
  have g: "deploy_guard (ht_env 102) ''r@22'' ht_r0 = (Some (''r@22'', None), ht_r0)" by (rule ht_guard) simp
  obtain v m' where l: "launch_with_uuid (ce_vm (ht_env 102)) (ht_args True ''r@22'' ''22'') ht_m0 = (Inr v, m')"
    "vm_guest_ip v = 2887712802" "reachable v m'" by (rule ht_swapped)
  define k1 where "k1 = prune_stale_variants ht_world ''/d'' ''a'' ''22'' ht_hash ht_disk1"
  have b: "run_firecracker_build ht_world ''/d'' ''a'' ht_rt 128 (Some ''r@22'') None ht_disk1 = (Inr (ht_launch ''r@22'' ''22''), k1)"
    unfolding k1_def by (rule ht_build) (simp_all add: ht_paths ht_refs)
  have ns: "dk_no_snapshot k1 = [''a'']" by (simp add: k1_def prune_stale_variants_def Let_def ht_paths)
  have "mc_cache ht_m0 = (mc_cache ht_m0)\<lparr>no_snapshot := True\<rparr>" by (simp add: ht_m0_facts) (simp add: ht_marked_def on_cache_def)
  then have mk: "marked ''a'' k1 ht_m0 = ht_m0" by (simp add: marked_def ns on_cache_def)
  have bt: "build_runtime (ce_vm (ht_env 102)) ht_world ht_cfg (Some ''r@22'') True ht_disk1 ht_m0 = (Inr v, k1, m')"
    using l (1) by (simp add: build_runtime_def b mk ht_args_def)
  define r where "r = snd (deploy ht_cfg (ht_env 102) ''r@22'' ht_r0)"
  have healthy: "await_healthy (\<lambda>n. apfst (\<lambda>a. vm_health a v m') (True, 0)) DEPLOY_HEALTH_TIMEOUT 0 0"
    by (subst await_healthy.simps) (simp add: vm_health_def l (3) DEPLOY_HEALTH_TIMEOUT_def)
  have "rn_live r = v"
    using healthy by (simp add: r_def deploy_def g deploy_to_def auth_file_def live ht_world_plain bt Let_def perform_swap_def swap_with_ref_def)
  moreover have "runner_step P ht_cfg ht_r0 r"
  proof (rule runner_step.command [where P = P and env = "ht_env 102", OF assms])
    show "dispatch ht_cfg (ht_env 102) (Deploy ''r@22'') ht_r0 = (fst (dispatch ht_cfg (ht_env 102) (Deploy ''r@22'') ht_r0), r)"
      by (simp add: dispatch_def r_def split: prod.splits sum.splits)
  qed
  ultimately show thesis using that l (2) by blast
qed

section \<open>Witnesses\<close>

text \<open>A deploy of an image that cannot be pulled.\<close>

theorem failed_deploy_keeps_the_app_witness:
  "\<exists>e r'. deploy ht_cfg (ht_env 102) ''r@333'' ht_r0 = (Inl e, r') \<and> rn_live r' = ht_v0 \<and>
     stands ht_v0 ht_proc [] (rn_machine r')"
proof -
  have live: "rn_live ht_r0 = ht_v0" "rn_machine ht_r0 = ht_m0" "rn_registry ht_r0 = None" "rn_disk ht_r0 = ht_disk1"
    by (simp_all add: ht_r0_def)
  have g: "deploy_guard (ht_env 102) ''r@333'' ht_r0 = (Some (''r@333'', None), ht_r0)" by (rule ht_guard) simp
  obtain k' where nb: "run_firecracker_build ht_world ''/d'' ''a'' ht_rt 128 (Some ''r@333'') None ht_disk1 = (Inl PullFailed, k')"
    using ht_no_build [of ht_disk1] ht_paths by blast
  have "fst (deploy ht_cfg (ht_env 102) ''r@333'' ht_r0) = Inl (BuildFailed PullFailed)"
    by (simp add: deploy_def g deploy_to_def auth_file_def live ht_world_plain build_runtime_def nb Let_def)
  then obtain e r' where d: "deploy ht_cfg (ht_env 102) ''r@333'' ht_r0 = (Inl e, r')" by (metis prod.collapse)
  have tap: "fc_tap_name_for_key demo_digest ''a:r@333'' \<noteq> ''fc-050505050505''"
  proof -
    have r: "replicate 8 x @ xs = x # x # x # x # x # x # x # x # xs" for x :: u8 and xs by (simp add: numeral_eq_Suc)
    have h: "hash48 demo_digest ''a:r@333'' = 7726764066567"
      unfolding hash48_def demo_digest_def r by (simp add: Let_def)
    have s: "show_hex_padded 12 7726764066567 = ''070707070707''" by code_simp
    show ?thesis by (simp add: fc_tap_name_for_key_def h s)
  qed
  have sock: "tap_sock (fc_tap_name_for_key demo_digest ''a:r@333'') \<noteq> tap_sock ''fc-050505050505''"
    using tap by (simp add: tap_sock_def)
  have b: "b3 (ve_link (ce_vm (ht_env 102))) = demo_digest" "ve_spawn (ce_vm (ht_env 102)) n = Some 102" for n
    by (simp_all add: ht_env_def box_env_def box_link_def)
  have scope: "in_scope ht_proc \<noteq> Some (scope_name ''a:r@333'')"
    by (simp add: ht_proc_def fc_proc_def scope_name_def sanitize_def Let_def)
  have key: "deploy_vm_key ht_cfg ''r@333'' = ''a:r@333''" by (simp add: deploy_vm_key_def ht_refs deploy_key_def)
  have clear: "clear_of_build (ce_vm (ht_env 102)) ht_cfg ''r@333'' ht_v0 ht_proc"
    using tap sock scope by (auto simp: clear_of_build_def clear_of_def tap_of_def key b)
  have "same_service ht_r0 r' \<and> stands (rn_live ht_r0) ht_proc [] (rn_machine r')"
    by (rule failed_deploy_keeps_the_app [OF d]) (use ht_stands clear g in \<open>simp_all add: live\<close>)
  then show ?thesis using d by (auto simp: same_service_def live)
qed



text \<open>The process of the app dies.\<close>

theorem a_crash_is_always_seen_witness:
  "\<exists>r r' w'. loop_step (honest demo_digest) ht_cfg (ht_r0, Loaded 0) (r, Loaded 0) \<and> exited 0 r \<and>
     (loop_step (honest demo_digest) ht_cfg)\<^sup>*\<^sup>* (r, Loaded 0) (r', w') \<and> loop_ends (r', w') (Crashed 0)"
proof -
  define r where "r = ht_r0\<lparr>rn_machine := on_host (remove_pid 101) (rn_machine ht_r0)\<rparr>"
  have gen: "rn_gen r = 0" "rn_gen ht_r0 = 0" by (simp_all add: r_def ht_r0_def)
  have procs: "procs (mc_host (rn_machine r)) = []"
    by (simp add: r_def ht_r0_def on_host_def remove_pid_def ht_m0_facts ht_proc_def fc_proc_def ht_env_def box_env_def)
  have step: "loop_step (honest demo_digest) ht_cfg (ht_r0, Loaded 0) (r, Loaded 0)"
    using loop_step.act [OF runner_step.dies [of "honest demo_digest" ht_cfg ht_r0 101], of "Loaded 0"] gen
    by (simp add: r_def [symmetric])
  have dead: "exited (rn_gen r) r"
    by (simp add: exited_def machine_of_def fc_alive_def process_is_alive_def find_proc_def procs)
  have "killable r" by (simp add: killable_def wf_procs_def procs) (simp add: r_def ht_r0_def)
  from a_crash_is_always_seen [OF ht_start ht_honest r_into_rtranclp [of "loop_step (honest demo_digest) ht_cfg", OF step] dead this]
  show ?thesis using step dead unfolding gen by blast
qed

text \<open>After a deploy the guest has another address.\<close>

theorem forwarders_keep_the_first_guest_witness:
  "\<exists>r. runner_step (\<lambda>_. True) ht_cfg ht_r0 r \<and> vm_guest_ip (rn_live r) = 2887712802 \<and>
     set (rn_forwards r) \<subseteq> {(GUEST_SSH_PORT, 2887712798), (CODE_SERVICE_PORT, 2887712798)}"
proof -
  obtain r where r: "runner_step (\<lambda>_ :: (string \<times> string) list command_env. True) ht_cfg ht_r0 r" "vm_guest_ip (rn_live r) = 2887712802"
    by (rule ht_deploy [where P = "\<lambda>_. True"]) simp_all
  have "rn_live ht_r0 = ht_v0" by (simp add: ht_r0_def)
  then show ?thesis
    using forwarders_keep_the_first_guest [OF ht_start r_into_rtranclp [of "runner_step (\<lambda>_. True) ht_cfg", OF r (1)]] r by auto
qed

end
