(* ===== verification/Spec2Isabelle.thy ===== *)
theory Spec2Isabelle
  imports Prelude Restart Handle SlotPool WgPort Streak SelfHeal SelfUpdate SelfWatchdog
    Net Snapshot LinkAllocator Process Teardown Spawn Monitor EnvHash Lifecycle Fleet Intent Outcomes HostFs OciMerge GuestInit RootfsCache RootfsBuilds OciAuth OciPull OciPullCases
    MicroVm MicroVmLaws MicroVmSwap MicroVmCases MicroVmDemo HotSwap HotSwapLaws HotSwapDemo
begin

text \<open>
  Placeholder header.
\<close>

end
